theory Spec2Isabelle
  imports Main "HOL-Library.Sublist" "HOL-Library.AList"
begin

section \<open>JavaScript strings and regular expressions\<close>

text \<open>
  File contents, package names and log lines are JavaScript strings. They are modelled
  as lists of \<^typ>\<open>char\<close>, one element per code unit; the model covers strings whose code
  units are below 256, which is all that the patterns of the tool distinguish.
\<close>

abbreviation SQ :: char where "SQ \<equiv> CHR 0x27"
abbreviation NL :: char where "NL \<equiv> CHR 0x0A"

text \<open>\<^verbatim>\<open>content.includes(pattern)\<close>: the pattern occurs as a contiguous substring.\<close>

definition strIncludes :: "string \<Rightarrow> string \<Rightarrow> bool" where
  "strIncludes content pat = sublist pat content"

text \<open>
  The relational comparison of two strings (\<^verbatim>\<open>a < b\<close>), which compares code units
  from the left; \<^verbatim>\<open>a >= b\<close> is its negation. The tool compares the target version with
  \<^verbatim>\<open>'17'\<close>, \<^verbatim>\<open>'18'\<close> and \<^verbatim>\<open>'19'\<close> this way.
\<close>

fun jsLess :: "string \<Rightarrow> string \<Rightarrow> bool" where
  "jsLess [] [] = False"
| "jsLess [] (y # ys) = True"
| "jsLess (x # xs) [] = False"
| "jsLess (x # xs) (y # ys) = (if x = y then jsLess xs ys else (of_char x :: nat) < of_char y)"

definition jsGe :: "string \<Rightarrow> string \<Rightarrow> bool" where
  "jsGe a b = (\<not> jsLess a b)"

text \<open>The characters matched by \<^verbatim>\<open>\s\<close> and \<^verbatim>\<open>\w\<close> among the code units below 256.\<close>

definition isSpace :: "char \<Rightarrow> bool" where
  "isSpace c = (c \<in> set [CHR 0x09, CHR 0x0A, CHR 0x0B, CHR 0x0C, CHR 0x0D, CHR 0x20, CHR 0xA0])"

definition isWord :: "char \<Rightarrow> bool" where
  "isWord c = (c \<in> set ''abcdefghijklmnopqrstuvwxyzABCDEFGHIJKLMNOPQRSTUVWXYZ0123456789_'')"

text \<open>
  The regular expressions of the tool use literals, character classes, greedy and lazy
  repetition of a single character class, concatenation, alternation and capture groups.
\<close>

datatype cclass = OneOf "char list" | NoneOf "char list" | Space | AnyChar | Word

fun cmatch :: "cclass \<Rightarrow> char \<Rightarrow> bool" where
  "cmatch (OneOf cs) c = (c \<in> set cs)"
| "cmatch (NoneOf cs) c = (c \<notin> set cs)"
| "cmatch Space c = isSpace c"
| "cmatch AnyChar c = True"
| "cmatch Word c = isWord c"

datatype regex =
    Lit string
  | Cls cclass
  | Star cclass
  | Plus cclass
  | LazyStar cclass
  | Seq regex regex
  | Alt regex regex
  | Group nat regex

type_synonym caps = "(nat \<times> string) list"

text \<open>
  Backtracking as a list of successes. \<open>bt r s c\<close> lists, in the order in which a
  backtracking matcher tries them, the ways \<open>r\<close> can match a prefix of \<open>s\<close>: each is the
  remaining input together with the captures made so far. The first element is the match
  the JavaScript engine reports. \<open>greedy\<close> offers the longest run of the class first,
  \<open>lazy\<close> the shortest.
\<close>

fun greedy :: "cclass \<Rightarrow> string \<Rightarrow> string list" where
  "greedy k [] = [[]]"
| "greedy k (x # xs) = (if cmatch k x then greedy k xs @ [x # xs] else [x # xs])"

fun lazy :: "cclass \<Rightarrow> string \<Rightarrow> string list" where
  "lazy k [] = [[]]"
| "lazy k (x # xs) = (x # xs) # (if cmatch k x then lazy k xs else [])"

fun bt :: "regex \<Rightarrow> string \<Rightarrow> caps \<Rightarrow> (string \<times> caps) list" where
  "bt (Lit l) s c = (if prefix l s then [(drop (length l) s, c)] else [])"
| "bt (Cls k) s c = (case s of [] \<Rightarrow> [] | x # xs \<Rightarrow> if cmatch k x then [(xs, c)] else [])"
| "bt (Star k) s c = map (\<lambda>r. (r, c)) (greedy k s)"
| "bt (Plus k) s c =
     (case s of [] \<Rightarrow> []
      | x # xs \<Rightarrow> if cmatch k x then map (\<lambda>r. (r, c)) (greedy k xs) else [])"
| "bt (LazyStar k) s c = map (\<lambda>r. (r, c)) (lazy k s)"
| "bt (Seq a b) s c = concat (map (\<lambda>(s', c'). bt b s' c') (bt a s c))"
| "bt (Alt a b) s c = bt a s c @ bt b s c"
| "bt (Group i r) s c =
     map (\<lambda>(s', c'). (s', (i, take (length s - length s') s) # c')) (bt r s c)"

text \<open>A match anchored at the start of \<open>s\<close>: its length and its captures.\<close>

definition matchHere :: "regex \<Rightarrow> string \<Rightarrow> (nat \<times> caps) option" where
  "matchHere r s =
     (case bt r s [] of [] \<Rightarrow> None | (rest, c) # _ \<Rightarrow> Some (length s - length rest, c))"

text \<open>The text of capture group \<open>i\<close>.\<close>

definition cap :: "caps \<Rightarrow> nat \<Rightarrow> string" where
  "cap c i = (case map_of c i of None \<Rightarrow> [] | Some t \<Rightarrow> t)"

text \<open>\<^verbatim>\<open>regex.test(s)\<close> on a fresh regular expression: some position has a match.\<close>

fun regexTest :: "regex \<Rightarrow> string \<Rightarrow> bool" where
  "regexTest r [] = (matchHere r [] \<noteq> None)"
| "regexTest r (x # xs) = (matchHere r (x # xs) \<noteq> None \<or> regexTest r xs)"

text \<open>
  \<^verbatim>\<open>s.match(regex)\<close> for a regular expression without the global flag: the text of the
  leftmost match.
\<close>

fun regexMatch :: "regex \<Rightarrow> string \<Rightarrow> string option" where
  "regexMatch r [] = (case matchHere r [] of None \<Rightarrow> None | Some (len, c) \<Rightarrow> Some [])"
| "regexMatch r (x # xs) =
     (case matchHere r (x # xs) of
        None \<Rightarrow> regexMatch r xs
      | Some (len, c) \<Rightarrow> Some (take len (x # xs)))"

text \<open>
  \<^verbatim>\<open>s.replace(regex, f)\<close> for a global regular expression: the scan starts at index 0
  (\<^verbatim>\<open>replace\<close> resets \<^verbatim>\<open>lastIndex\<close>), every match is replaced by \<open>f\<close> of the matched
  text and its captures, and the scan resumes after the match (one code unit further
  after an empty match). The counter is the number of code units of the current match
  that are still to be skipped.
\<close>

fun replaceFrom :: "regex \<Rightarrow> (string \<Rightarrow> caps \<Rightarrow> string) \<Rightarrow> nat \<Rightarrow> string \<Rightarrow> string" where
  "replaceFrom r f n [] =
     (if n = 0 then (case matchHere r [] of None \<Rightarrow> [] | Some (len, c) \<Rightarrow> f [] c) else [])"
| "replaceFrom r f n (x # xs) =
     (if 0 < n then replaceFrom r f (n - 1) xs
      else case matchHere r (x # xs) of
             None \<Rightarrow> x # replaceFrom r f 0 xs
           | Some (len, c) \<Rightarrow>
               f (take len (x # xs)) c @
               (if len = 0 then x # replaceFrom r f 0 xs else replaceFrom r f (len - 1) xs))"

definition replaceAll :: "regex \<Rightarrow> (string \<Rightarrow> caps \<Rightarrow> string) \<Rightarrow> string \<Rightarrow> string" where
  "replaceAll r f s = replaceFrom r f 0 s"

text \<open>\<^verbatim>\<open>s.replace(regex, f)\<close> without the global flag: only the leftmost match is replaced.\<close>

fun replaceFirst :: "regex \<Rightarrow> (string \<Rightarrow> caps \<Rightarrow> string) \<Rightarrow> string \<Rightarrow> string" where
  "replaceFirst r f [] = (case matchHere r [] of None \<Rightarrow> [] | Some (len, c) \<Rightarrow> f [] c)"
| "replaceFirst r f (x # xs) =
     (case matchHere r (x # xs) of
        None \<Rightarrow> x # replaceFirst r f xs
      | Some (len, c) \<Rightarrow> f (take len (x # xs)) c @ drop len (x # xs))"

text \<open>
  \<^verbatim>\<open>s.replace(pattern, replacement)\<close> with two strings replaces the first occurrence of
  the pattern. The replacement is a template: \<^verbatim>\<open>$$\<close> stands for a dollar sign,
  \<^verbatim>\<open>$&\<close> for the matched text, \<^verbatim>\<open>$`\<close> for the text before the match and \<^verbatim>\<open>$'\<close> for
  the text after it; a string pattern has no capture groups, so every other use of
  \<^verbatim>\<open>$\<close> is literal.
\<close>

fun getSubstitution :: "string \<Rightarrow> string \<Rightarrow> string \<Rightarrow> string \<Rightarrow> string" where
  "getSubstitution matched pre post [] = []"
| "getSubstitution matched pre post [c] = [c]"
| "getSubstitution matched pre post (c # d # t) =
     (if c = CHR ''$'' \<and> d = CHR ''$'' then CHR ''$'' # getSubstitution matched pre post t
      else if c = CHR ''$'' \<and> d = CHR ''&'' then matched @ getSubstitution matched pre post t
      else if c = CHR ''$'' \<and> d = CHR 0x60 then pre @ getSubstitution matched pre post t
      else if c = CHR ''$'' \<and> d = SQ then post @ getSubstitution matched pre post t
      else c # getSubstitution matched pre post (d # t))"

fun indexOf :: "string \<Rightarrow> string \<Rightarrow> nat option" where
  "indexOf pat [] = (if pat = [] then Some 0 else None)"
| "indexOf pat (x # xs) =
     (if prefix pat (x # xs) then Some 0 else map_option Suc (indexOf pat xs))"

definition replaceString :: "string \<Rightarrow> string \<Rightarrow> string \<Rightarrow> string" where
  "replaceString s pat replacement =
     (case indexOf pat s of
        None \<Rightarrow> s
      | Some i \<Rightarrow>
          take i s @
          getSubstitution pat (take i s) (drop (i + length pat) s) replacement @
          drop (i + length pat) s)"

text \<open>
  \<^verbatim>\<open>path.basename(p)\<close> for a path without a trailing separator, and
  \<^verbatim>\<open>path.join(dir, item)\<close> for a normalised directory and a plain name.
\<close>

definition basename :: "string \<Rightarrow> string" where
  "basename p = rev (takeWhile (\<lambda>c. c \<noteq> CHR ''/'') (rev p))"

definition pathJoin :: "string \<Rightarrow> string \<Rightarrow> string" where
  "pathJoin dir item = dir @ ''/'' @ item"

section \<open>The manifest and the dependency resolver\<close>

text \<open>
  The tool reads \<^verbatim>\<open>package.json\<close> with \<^verbatim>\<open>JSON.parse\<close> and works on the parsed
  object. Only the two sections \<^verbatim>\<open>dependencies\<close> and \<^verbatim>\<open>devDependencies\<close> are
  ever inspected; each is an object from package names to version-range strings, and
  each may be missing from the file. A section is an association list in the key order
  of the object (the order in which \<^verbatim>\<open>Object.entries\<close> and \<^verbatim>\<open>JSON.stringify\<close> visit
  it); a missing section is \<open>None\<close>. Package names are not array indices, so the key
  order is the insertion order.
\<close>

type_synonym depmap = "(string \<times> string) list"

record packageJson =
  dependencies :: "depmap option"
  devDependencies :: "depmap option"

text \<open>
  \<^verbatim>\<open>section?.[pkg]\<close>: the optional chain yields \<^verbatim>\<open>undefined\<close> when the section or the
  key is missing. Used as a condition, the value is tested for truthiness, and a string
  is truthy exactly when it is not empty.
\<close>

definition entry :: "depmap option \<Rightarrow> string \<Rightarrow> string option" where
  "entry sec pkg = (case sec of None \<Rightarrow> None | Some m \<Rightarrow> map_of m pkg)"

definition truthy :: "string option \<Rightarrow> bool" where
  "truthy v = (case v of None \<Rightarrow> False | Some s \<Rightarrow> s \<noteq> [])"

text \<open>
  \<^verbatim>\<open>section[pkg] = version\<close>, executed only under a guard that makes the section
  exist: an existing key keeps its place, a new key goes last.
\<close>

definition assign :: "depmap option \<Rightarrow> string \<Rightarrow> string \<Rightarrow> depmap option" where
  "assign sec pkg version =
     (case sec of None \<Rightarrow> None | Some m \<Rightarrow> Some (AList.update pkg version m))"

definition keys :: "depmap option \<Rightarrow> string set" where
  "keys sec = (case sec of None \<Rightarrow> {} | Some m \<Rightarrow> fst ` set m)"

text \<open>
  Every version getter builds the same three-entry table and returns
  \<^verbatim>\<open>versionMap[this.targetVersion] || fallback\<close>. All table values are non-empty, so
  the fallback is taken exactly when the target version is not a key of the table.
  (Target versions that name a member of \<^verbatim>\<open>Object.prototype\<close> are not modelled.)
\<close>

definition versionMap :: "string \<Rightarrow> string \<Rightarrow> string \<Rightarrow> string \<Rightarrow> string \<Rightarrow> string" where
  "versionMap v17 v18 v19 fallback tv =
     (if tv = ''17'' then v17 else if tv = ''18'' then v18 else if tv = ''19'' then v19
      else fallback)"

definition getTestingLibraryVersion :: "string \<Rightarrow> string" where
  "getTestingLibraryVersion tv = versionMap ''^11.0.0'' ''^13.0.0'' ''^14.0.0'' ''^13.0.0'' tv"

definition getTypesVersion :: "string \<Rightarrow> string" where
  "getTypesVersion tv = versionMap ''^17.0.0'' ''^18.0.0'' ''^18.0.0'' ''^18.0.0'' tv"

definition getReactRouterVersion :: "string \<Rightarrow> string" where
  "getReactRouterVersion tv = versionMap ''^6.0.0'' ''^6.8.0'' ''^6.20.0'' ''^6.8.0'' tv"

definition getReactScriptsVersion :: "string \<Rightarrow> string" where
  "getReactScriptsVersion tv = versionMap ''^5.0.0'' ''^5.0.1'' ''^5.0.1'' ''^5.0.1'' tv"

definition getReactReduxVersion :: "string \<Rightarrow> string" where
  "getReactReduxVersion tv = versionMap ''^8.0.0'' ''^8.0.5'' ''^9.0.0'' ''^8.0.5'' tv"

definition getReduxToolkitVersion :: "string \<Rightarrow> string" where
  "getReduxToolkitVersion tv = versionMap ''^1.8.0'' ''^1.9.0'' ''^2.0.0'' ''^1.9.0'' tv"

definition getReactHookFormVersion :: "string \<Rightarrow> string" where
  "getReactHookFormVersion tv = versionMap ''^7.40.0'' ''^7.45.0'' ''^7.48.0'' ''^7.45.0'' tv"

definition getFormikVersion :: "string \<Rightarrow> string" where
  "getFormikVersion tv = versionMap ''^2.2.9'' ''^2.4.0'' ''^2.4.5'' ''^2.4.0'' tv"

definition getStyledComponentsVersion :: "string \<Rightarrow> string" where
  "getStyledComponentsVersion tv = versionMap ''^5.3.0'' ''^6.0.0'' ''^6.1.0'' ''^6.0.0'' tv"

definition getEmotionVersion :: "string \<Rightarrow> string" where
  "getEmotionVersion tv = versionMap ''^11.10.0'' ''^11.11.0'' ''^11.11.0'' ''^11.11.0'' tv"

definition getReactTransitionGroupVersion :: "string \<Rightarrow> string" where
  "getReactTransitionGroupVersion tv = versionMap ''^4.4.2'' ''^4.4.5'' ''^4.4.5'' ''^4.4.5'' tv"

definition getReactSelectVersion :: "string \<Rightarrow> string" where
  "getReactSelectVersion tv = versionMap ''^5.4.0'' ''^5.7.0'' ''^5.8.0'' ''^5.7.0'' tv"

definition getReactDatepickerVersion :: "string \<Rightarrow> string" where
  "getReactDatepickerVersion tv = versionMap ''^4.8.0'' ''^4.16.0'' ''^4.20.0'' ''^4.16.0'' tv"

definition getReactModalVersion :: "string \<Rightarrow> string" where
  "getReactModalVersion tv = versionMap ''^3.15.0'' ''^3.16.0'' ''^3.16.0'' ''^3.16.0'' tv"

definition getReactHelmetVersion :: "string \<Rightarrow> string" where
  "getReactHelmetVersion tv = versionMap ''^6.1.0'' ''^6.1.0'' ''^6.1.0'' ''^6.1.0'' tv"

definition getReactHelmetAsyncVersion :: "string \<Rightarrow> string" where
  "getReactHelmetAsyncVersion tv = versionMap ''^1.3.0'' ''^1.3.0'' ''^2.0.0'' ''^1.3.0'' tv"

definition getReactVirtualizedVersion :: "string \<Rightarrow> string" where
  "getReactVirtualizedVersion tv = versionMap ''^9.22.3'' ''^9.22.3'' ''^9.22.3'' ''^9.22.3'' tv"

definition getReactWindowVersion :: "string \<Rightarrow> string" where
  "getReactWindowVersion tv = versionMap ''^1.8.6'' ''^1.8.8'' ''^1.8.8'' ''^1.8.8'' tv"

definition getReactDndVersion :: "string \<Rightarrow> string" where
  "getReactDndVersion tv = versionMap ''^16.0.0'' ''^16.0.1'' ''^16.0.1'' ''^16.0.1'' tv"

definition getReactBeautifulDndVersion :: "string \<Rightarrow> string" where
  "getReactBeautifulDndVersion tv = versionMap ''^13.1.0'' ''^13.1.1'' ''^13.1.1'' ''^13.1.1'' tv"

definition getReactDropzoneVersion :: "string \<Rightarrow> string" where
  "getReactDropzoneVersion tv = versionMap ''^14.2.0'' ''^14.2.3'' ''^14.2.3'' ''^14.2.3'' tv"

definition getReactTableVersion :: "string \<Rightarrow> string" where
  "getReactTableVersion tv = versionMap ''^7.8.0'' ''^7.8.0'' ''^7.8.0'' ''^7.8.0'' tv"

definition getTanstackReactTableVersion :: "string \<Rightarrow> string" where
  "getTanstackReactTableVersion tv = versionMap ''^8.9.0'' ''^8.10.0'' ''^8.11.0'' ''^8.10.0'' tv"

definition getReactQueryVersion :: "string \<Rightarrow> string" where
  "getReactQueryVersion tv = versionMap ''^3.39.0'' ''^3.39.0'' ''^3.39.0'' ''^3.39.0'' tv"

definition getTanstackReactQueryVersion :: "string \<Rightarrow> string" where
  "getTanstackReactQueryVersion tv = versionMap ''^4.29.0'' ''^4.36.0'' ''^5.0.0'' ''^4.36.0'' tv"

definition getReactSpringVersion :: "string \<Rightarrow> string" where
  "getReactSpringVersion tv = versionMap ''^9.7.0'' ''^9.7.0'' ''^9.7.0'' ''^9.7.0'' tv"

definition getFramerMotionVersion :: "string \<Rightarrow> string" where
  "getFramerMotionVersion tv = versionMap ''^10.0.0'' ''^10.16.0'' ''^11.0.0'' ''^10.16.0'' tv"

definition getReactIntlVersion :: "string \<Rightarrow> string" where
  "getReactIntlVersion tv = versionMap ''^6.4.0'' ''^6.5.0'' ''^6.6.0'' ''^6.5.0'' tv"

definition getReactI18nextVersion :: "string \<Rightarrow> string" where
  "getReactI18nextVersion tv = versionMap ''^12.3.0'' ''^13.5.0'' ''^14.0.0'' ''^13.5.0'' tv"

definition getNextVersion :: "string \<Rightarrow> string" where
  "getNextVersion tv = versionMap ''^13.0.0'' ''^14.0.0'' ''^14.0.0'' ''^14.0.0'' tv"

definition getGatsbyVersion :: "string \<Rightarrow> string" where
  "getGatsbyVersion tv = versionMap ''^5.0.0'' ''^5.12.0'' ''^5.12.0'' ''^5.12.0'' tv"

definition getReactHotToastVersion :: "string \<Rightarrow> string" where
  "getReactHotToastVersion tv = versionMap ''^2.4.0'' ''^2.4.1'' ''^2.4.1'' ''^2.4.1'' tv"

definition getReactToastifyVersion :: "string \<Rightarrow> string" where
  "getReactToastifyVersion tv = versionMap ''^9.1.0'' ''^9.1.3'' ''^10.0.0'' ''^9.1.3'' tv"

definition getReactIconsVersion :: "string \<Rightarrow> string" where
  "getReactIconsVersion tv = versionMap ''^4.10.0'' ''^4.12.0'' ''^5.0.0'' ''^4.12.0'' tv"

definition getReactUseVersion :: "string \<Rightarrow> string" where
  "getReactUseVersion tv = versionMap ''^17.4.0'' ''^17.5.0'' ''^17.5.0'' ''^17.5.0'' tv"

definition getReactErrorBoundaryVersion :: "string \<Rightarrow> string" where
  "getReactErrorBoundaryVersion tv = versionMap ''^4.0.0'' ''^4.0.11'' ''^4.0.11'' ''^4.0.11'' tv"

definition getReactLoadableVersion :: "string \<Rightarrow> string" where
  "getReactLoadableVersion tv = versionMap ''^5.5.0'' ''^5.5.0'' ''^5.5.0'' ''^5.5.0'' tv"

definition getLoadableComponentVersion :: "string \<Rightarrow> string" where
  "getLoadableComponentVersion tv = versionMap ''^5.15.0'' ''^5.16.0'' ''^5.16.0'' ''^5.16.0'' tv"

definition getReactLazyloadVersion :: "string \<Rightarrow> string" where
  "getReactLazyloadVersion tv = versionMap ''^3.2.0'' ''^3.2.0'' ''^3.2.0'' ''^3.2.0'' tv"

definition getReactIntersectionObserverVersion :: "string \<Rightarrow> string" where
  "getReactIntersectionObserverVersion tv = versionMap ''^9.4.0'' ''^9.5.0'' ''^9.5.0'' ''^9.5.0'' tv"

definition getReactRelatedPackages :: "string \<Rightarrow> (string \<times> string) list" where
  "getReactRelatedPackages tv =
    [(''@testing-library/react'', getTestingLibraryVersion tv),
     (''@types/react'', getTypesVersion tv),
     (''@types/react-dom'', getTypesVersion tv),
     (''react-router-dom'', getReactRouterVersion tv),
     (''react-router'', getReactRouterVersion tv),
     (''react-scripts'', getReactScriptsVersion tv),
     (''react-redux'', getReactReduxVersion tv),
     (''@reduxjs/toolkit'', getReduxToolkitVersion tv),
     (''react-hook-form'', getReactHookFormVersion tv),
     (''formik'', getFormikVersion tv),
     (''styled-components'', getStyledComponentsVersion tv),
     (''@emotion/react'', getEmotionVersion tv),
     (''@emotion/styled'', getEmotionVersion tv),
     (''react-transition-group'', getReactTransitionGroupVersion tv),
     (''react-select'', getReactSelectVersion tv),
     (''react-datepicker'', getReactDatepickerVersion tv),
     (''react-modal'', getReactModalVersion tv),
     (''react-helmet'', getReactHelmetVersion tv),
     (''react-helmet-async'', getReactHelmetAsyncVersion tv),
     (''react-virtualized'', getReactVirtualizedVersion tv),
     (''react-window'', getReactWindowVersion tv),
     (''react-dnd'', getReactDndVersion tv),
     (''react-beautiful-dnd'', getReactBeautifulDndVersion tv),
     (''react-dropzone'', getReactDropzoneVersion tv),
     (''react-table'', getReactTableVersion tv),
     (''@tanstack/react-table'', getTanstackReactTableVersion tv),
     (''react-query'', getReactQueryVersion tv),
     (''@tanstack/react-query'', getTanstackReactQueryVersion tv),
     (''react-spring'', getReactSpringVersion tv),
     (''framer-motion'', getFramerMotionVersion tv),
     (''react-intl'', getReactIntlVersion tv),
     (''react-i18next'', getReactI18nextVersion tv),
     (''next'', getNextVersion tv),
     (''gatsby'', getGatsbyVersion tv),
     (''react-hot-toast'', getReactHotToastVersion tv),
     (''react-toastify'', getReactToastifyVersion tv),
     (''react-icons'', getReactIconsVersion tv),
     (''react-use'', getReactUseVersion tv),
     (''react-error-boundary'', getReactErrorBoundaryVersion tv),
     (''react-loadable'', getReactLoadableVersion tv),
     (''@loadable/component'', getLoadableComponentVersion tv),
     (''react-lazyload'', getReactLazyloadVersion tv),
     (''react-intersection-observer'', getReactIntersectionObserverVersion tv)]"
text \<open>
  The body of the loop over \<^verbatim>\<open>Object.entries(reactPackages)\<close> in
  \<^verbatim>\<open>updateDependencies\<close>: a related package is re-pinned in each section where its
  entry is truthy.
\<close>

definition updateRelated :: "string \<times> string \<Rightarrow> packageJson \<Rightarrow> packageJson" where
  "updateRelated pv pj =
     (case pv of (pkg, version) \<Rightarrow>
        if truthy (entry (dependencies pj) pkg) \<or> truthy (entry (devDependencies pj) pkg)
        then
          (let pj1 = (if truthy (entry (dependencies pj) pkg)
                      then pj\<lparr>dependencies := assign (dependencies pj) pkg version\<rparr>
                      else pj)
           in if truthy (entry (devDependencies pj1) pkg)
              then pj1\<lparr>devDependencies := assign (devDependencies pj1) pkg version\<rparr>
              else pj1)
        else pj)"

text \<open>
  The in-memory part of \<^verbatim>\<open>updateDependencies\<close>: the parsed manifest after the two
  core packages and the related packages have been re-pinned, before it is written.
\<close>

definition updateCore :: "string \<Rightarrow> packageJson \<Rightarrow> packageJson" where
  "updateCore tv pj =
     (let pj1 = (if truthy (entry (dependencies pj) ''react'')
                 then pj\<lparr>dependencies := assign (dependencies pj) ''react'' (''^'' @ tv)\<rparr>
                 else pj)
      in if truthy (entry (dependencies pj1) ''react-dom'')
         then pj1\<lparr>dependencies := assign (dependencies pj1) ''react-dom'' (''^'' @ tv)\<rparr>
         else pj1)"

definition updatedManifest :: "string \<Rightarrow> packageJson \<Rightarrow> packageJson" where
  "updatedManifest tv pj = fold updateRelated (getReactRelatedPackages tv) (updateCore tv pj)"

text \<open>
  The precondition of \<^verbatim>\<open>analyzeProject\<close> on the parsed manifest:
  \<^verbatim>\<open>dependencies?.react || devDependencies?.react\<close> must be truthy.
\<close>

definition currentReactVersion :: "packageJson \<Rightarrow> string option" where
  "currentReactVersion pj =
     (if truthy (entry (dependencies pj) ''react'') then entry (dependencies pj) ''react''
      else if truthy (entry (devDependencies pj) ''react'') then entry (devDependencies pj) ''react''
      else None)"

section \<open>The tool instance and the rewrite rules\<close>

text \<open>
  The fields of a \<^verbatim>\<open>ReactMigrationTool\<close> instance. An option that is not given is
  \<^verbatim>\<open>undefined\<close> and behaves as \<open>False\<close>. The methods mutate the instance; in the model
  they take it and return it updated.
\<close>

record MigrationOptions =
  dryRun :: bool
  verbose :: bool
  skipDeps :: bool
  depsOnly :: bool

record tool =
  targetVersion :: string
  projectRoot :: string
  issues :: "string list"
  fixes' :: "string list"
  reactFiles :: "string list"
  options :: MigrationOptions

definition pushFix :: "string \<Rightarrow> tool \<Rightarrow> tool" where
  "pushFix e t = t\<lparr>fixes' := fixes' t @ [e]\<rparr>"

definition pushIssue :: "string \<Rightarrow> tool \<Rightarrow> tool" where
  "pushIssue e t = t\<lparr>issues := issues t @ [e]\<rparr>"

subsection \<open>Rule 1: \<^verbatim>\<open>ReactDOM.render\<close> to \<^verbatim>\<open>createRoot\<close>\<close>

text \<open>
  \<^verbatim>\<open>/ReactDOM\.render\(\s*(<[^>]+>[\s\S]*?<\/[^>]+>|<[^>]+\s*\/>),\s*([^)]+)\)/g\<close>
\<close>

definition elementRegex :: regex where
  "elementRegex =
     Alt (Seq (Lit ''<'') (Seq (Plus (NoneOf ''>'')) (Seq (Lit ''>'')
         (Seq (LazyStar AnyChar) (Seq (Lit ''</'') (Seq (Plus (NoneOf ''>'')) (Lit ''>'')))))))
         (Seq (Lit ''<'') (Seq (Plus (NoneOf ''>'')) (Seq (Star Space) (Lit ''/>''))))"

definition renderRegex :: regex where
  "renderRegex =
     Seq (Lit ''ReactDOM.render('')
    (Seq (Star Space)
    (Seq (Group 1 elementRegex)
    (Seq (Lit '','')
    (Seq (Star Space)
    (Seq (Group 2 (Plus (NoneOf '')'')))
         (Lit '')''))))))"

text \<open>The replacement function: \<^verbatim>\<open>`const root = createRoot(${container});\nroot.render(${element})`\<close>.\<close>

definition renderReplacement :: "string \<Rightarrow> caps \<Rightarrow> string" where
  "renderReplacement m c =
     ''const root = createRoot('' @ cap c 2 @ '');'' @ [NL] @ ''root.render('' @ cap c 1 @ '')''"

definition importReactDOM :: string where
  "importReactDOM = ''import ReactDOM from 'react-dom'' @ [SQ]"

definition importRender :: string where
  "importRender = ''import { render } from 'react-dom'' @ [SQ]"

definition importCreateRoot :: string where
  "importCreateRoot = ''import { createRoot } from 'react-dom/client'' @ [SQ]"

definition transformReactDOMRender :: "string \<Rightarrow> string \<Rightarrow> tool \<Rightarrow> string \<times> tool" where
  "transformReactDOMRender content fileName t =
     (if regexTest renderRegex content then
        (let transformed =
               (if strIncludes content importReactDOM
                then replaceString content importReactDOM importCreateRoot
                else if strIncludes content importRender
                then replaceString content importRender importCreateRoot
                else content)
         in (replaceAll renderRegex renderReplacement transformed,
             pushFix (fileName @ '': Updated ReactDOM.render to createRoot API'') t))
      else (content, t))"

text \<open>
  The container as the description of the rule has it: the remaining argument text up to
  the matching parenthesis. \<open>upToMatching d s\<close> is the text of \<open>s\<close> before the closing
  parenthesis that matches an opening one \<open>d\<close> levels out, so \<open>upToMatching 0 s\<close> is the
  text before the parenthesis that closes the call when \<open>s\<close> starts inside its argument
  list; \<open>None\<close> when there is no such parenthesis.
\<close>

fun upToMatching :: "nat \<Rightarrow> string \<Rightarrow> string option" where
  "upToMatching d [] = None"
| "upToMatching d (c # cs) =
     (if c = CHR 0x29 then
        (if d = 0 then Some [] else map_option ((#) c) (upToMatching (d - 1) cs))
      else if c = CHR 0x28 then map_option ((#) c) (upToMatching (Suc d) cs)
      else map_option ((#) c) (upToMatching d cs))"

subsection \<open>Rule 2: deprecated lifecycle methods\<close>

text \<open>\<^verbatim>\<open>/componentWillReceiveProps\s*\([^)]+\)/g\<close>\<close>

definition receivePropsRegex :: regex where
  "receivePropsRegex =
     Seq (Lit ''componentWillReceiveProps'')
    (Seq (Star Space) (Seq (Lit ''('') (Seq (Plus (NoneOf '')'')) (Lit '')''))))"

text \<open>
  Each of the three detectors looks at the content the method was called with, while
  each replacement works on the text as transformed so far. The replacement texts
  contain no \<^verbatim>\<open>$\<close>, so they are inserted as they are.
\<close>

definition transformLifecycleMethods :: "string \<Rightarrow> string \<Rightarrow> tool \<Rightarrow> string \<times> tool" where
  "transformLifecycleMethods content fileName t =
     (let (tr1, t1) =
            (if strIncludes content ''componentWillMount''
             then (replaceAll (Lit ''componentWillMount'') (\<lambda>m c. ''componentDidMount'') content,
                   pushFix (fileName @ '': Replaced componentWillMount with componentDidMount'') t)
             else (content, t));
          (tr2, t2) =
            (if strIncludes content ''componentWillReceiveProps''
             then (replaceAll receivePropsRegex (\<lambda>m c. ''componentDidUpdate(prevProps)'') tr1,
                   pushFix (fileName @
                     '': Replaced componentWillReceiveProps with componentDidUpdate'') t1)
             else (tr1, t1))
      in if strIncludes content ''componentWillUpdate''
         then (replaceAll (Lit ''componentWillUpdate'') (\<lambda>m c. ''componentDidUpdate'') tr2,
               pushFix (fileName @ '': Replaced componentWillUpdate with componentDidUpdate'') t2)
         else (tr2, t2))"

subsection \<open>Rule 3: synthetic events (advisory)\<close>

definition transformEventHandlers :: "string \<Rightarrow> string \<Rightarrow> tool \<Rightarrow> string \<times> tool" where
  "transformEventHandlers content fileName t =
     (if strIncludes content ''SyntheticEvent''
      then (content,
            pushIssue (fileName @
              '': Review SyntheticEvent usage - React 17+ uses native events'') t)
      else (content, t))"

subsection \<open>Rule 4: \<^verbatim>\<open>React.PropTypes\<close> to the \<^verbatim>\<open>prop-types\<close> package\<close>

text \<open>\<^verbatim>\<open>/import React[^;]+;/\<close>\<close>

definition importReactRegex :: regex where
  "importReactRegex = Seq (Lit ''import React'') (Seq (Plus (NoneOf '';'')) (Lit '';''))"

definition importPropTypes :: string where
  "importPropTypes = ''import PropTypes from 'prop-types'' @ [SQ]"

text \<open>
  The import is inserted with \<^verbatim>\<open>transformed.replace(importMatch[0], importMatch[0] + ...)\<close>,
  a replacement of one string by another, so the matched import statement is read as
  a replacement template.
\<close>

definition transformPropTypes :: "string \<Rightarrow> string \<Rightarrow> tool \<Rightarrow> string \<times> tool" where
  "transformPropTypes content fileName t =
     (if strIncludes content ''React.PropTypes'' then
        (let transformed =
               (if \<not> strIncludes content importPropTypes
                then (case regexMatch importReactRegex content of
                        None \<Rightarrow> content
                      | Some m \<Rightarrow> replaceString content m (m @ [NL] @ importPropTypes @ '';''))
                else content)
         in (replaceAll (Lit ''React.PropTypes'') (\<lambda>m c. ''PropTypes'') transformed,
             pushFix (fileName @ '': Migrated React.PropTypes to prop-types package'') t))
      else (content, t))"

subsection \<open>Rule 5: \<^verbatim>\<open>React.FC\<close> (advisory)\<close>

definition transformReactFC :: "string \<Rightarrow> string \<Rightarrow> tool \<Rightarrow> string \<times> tool" where
  "transformReactFC content fileName t =
     (if strIncludes content ''React.FC'' \<or> strIncludes content ''React.FunctionComponent''
      then (content,
            pushIssue (fileName @
              '': Consider replacing React.FC with explicit props typing'') t)
      else (content, t))"

subsection \<open>The pipeline of \<^verbatim>\<open>transformFile\<close>\<close>

text \<open>
  The rules in the order in which \<^verbatim>\<open>transformFile\<close> applies them to the text read
  from the file, each on the output of the one before. The first rule runs only when
  \<^verbatim>\<open>this.targetVersion >= '18'\<close>, a comparison of strings.
\<close>

definition applyRules :: "string \<Rightarrow> string \<Rightarrow> tool \<Rightarrow> string \<times> tool" where
  "applyRules content fileName t =
     (let (c1, t1) = (if jsGe (targetVersion t) ''18''
                      then transformReactDOMRender content fileName t
                      else (content, t));
          (c2, t2) = transformLifecycleMethods c1 fileName t1;
          (c3, t3) = transformEventHandlers c2 fileName t2;
          (c4, t4) = transformPropTypes c3 fileName t3
      in transformReactFC c4 fileName t4)"

text \<open>
  The detectors of the five rules: the content holds a pattern that some rule
  recognises.
\<close>

definition recognised :: "string \<Rightarrow> bool" where
  "recognised content =
     (regexTest renderRegex content \<or>
      strIncludes content ''componentWillMount'' \<or>
      strIncludes content ''componentWillReceiveProps'' \<or>
      strIncludes content ''componentWillUpdate'' \<or>
      strIncludes content ''SyntheticEvent'' \<or>
      strIncludes content ''React.PropTypes'' \<or>
      strIncludes content ''React.FC'' \<or>
      strIncludes content ''React.FunctionComponent'')"

section \<open>The project on disk and the migration\<close>

text \<open>
  The project the tool works on, seen through the file-system calls the tool makes.
  \<^item> \<open>packageJsonFile\<close>: \<^verbatim>\<open>package.json\<close> at the project root, as \<^verbatim>\<open>JSON.parse\<close> reads it
    (\<open>None\<close>: the file does not exist; \<open>Unparsable\<close>: parsing throws with the given message).
  \<^item> \<open>srcDir\<close>: the directory tree under \<^verbatim>\<open>src\<close>, as \<^verbatim>\<open>readdirSync\<close> and
    \<^verbatim>\<open>statSync\<close> list it (\<open>None\<close>: no such directory).
  \<^item> \<open>sources\<close>: the contents of the source files, by path.
  \<^item> \<open>tsconfigFile\<close>: \<^verbatim>\<open>tsconfig.json\<close>; of a parsable file only
    \<^verbatim>\<open>compilerOptions.jsx\<close> is kept, the one setting the tool touches.
  \<^item> \<open>jestConfigFile\<close>, \<open>eslintConfigFile\<close>: the text of \<^verbatim>\<open>jest.config.js\<close> and
    \<^verbatim>\<open>.eslintrc.js\<close>.
  \<^item> \<open>babelConfigExists\<close>, \<open>webpackConfigExists\<close>: whether one of the conventional
    file names exists.
  \<^item> \<open>nodeModules\<close>: the \<^verbatim>\<open>package.json\<close> of each locally installed package, by package
    name, reduced to its \<^verbatim>\<open>peerDependencies.react\<close> entry (read by the extended
    variant of the tool only).
  \<^item> \<open>npmInstallError\<close>: what \<^verbatim>\<open>execSync('npm install')\<close> will do (\<open>None\<close>: it
    succeeds; otherwise the message of the error it throws).
  \<^item> \<open>trace\<close>: the calls of \<^verbatim>\<open>readFileSync\<close>, \<^verbatim>\<open>writeFileSync\<close> and \<^verbatim>\<open>execSync\<close>
    made so far, oldest first.

  In this section every call of \<^verbatim>\<open>writeFileSync\<close> goes through; the section on writes
  that fail takes up the other case.
\<close>

datatype io_event = ReadFile string | WriteFile string | Exec string

datatype jsonFile = Unparsable string | Parsed packageJson

datatype tsconfigFile = TsUnparsable string | TsParsed "string option"

datatype dirent = FileEnt string | DirEnt string "dirent list"

datatype peerFile = PeerUnparsable | PeerParsed "string option"

record world =
  packageJsonFile :: "jsonFile option"
  srcDir :: "dirent list option"
  sources :: "string \<rightharpoonup> string"
  tsconfigFile :: "tsconfigFile option"
  jestConfigFile :: "string option"
  eslintConfigFile :: "string option"
  babelConfigExists :: bool
  webpackConfigExists :: bool
  nodeModules :: "string \<rightharpoonup> peerFile"
  npmInstallError :: "string option"
  trace :: "io_event list"

definition traced :: "io_event \<Rightarrow> world \<Rightarrow> world" where
  "traced e w = w\<lparr>trace := trace w @ [e]\<rparr>"

text \<open>
  An exception that leaves \<^verbatim>\<open>migrate\<close>'s \<^verbatim>\<open>try\<close> block. Every step returns the
  exception, if one was thrown, together with the instance and the project as they are
  at that moment.
\<close>

datatype error =
    PackageJsonNotFound
  | JsonSyntaxError string
  | ReactNotFound
  | FileNotFound string
  | WriteFailed string

type_synonym step = "error option \<times> tool \<times> world"

subsection \<open>\<^verbatim>\<open>analyzeProject\<close>, \<^verbatim>\<open>findReactFiles\<close>, \<^verbatim>\<open>getReactFiles\<close>\<close>

text \<open>\<^verbatim>\<open>/\.(jsx?|tsx?)$/.test(item)\<close>: the name ends in one of the four extensions.\<close>

definition hasReactExtension :: "string \<Rightarrow> bool" where
  "hasReactExtension item =
     (suffix ''.js'' item \<or> suffix ''.jsx'' item \<or> suffix ''.ts'' item \<or> suffix ''.tsx'' item)"

fun entryFiles :: "string \<Rightarrow> dirent \<Rightarrow> string list" where
  "entryFiles dir (DirEnt item sub) =
     (if \<not> prefix ''.'' item \<and> item \<noteq> ''node_modules''
      then concat (map (entryFiles (pathJoin dir item)) sub)
      else [])"
| "entryFiles dir (FileEnt item) = (if hasReactExtension item then [pathJoin dir item] else [])"

definition getReactFiles :: "string \<Rightarrow> dirent list \<Rightarrow> string list" where
  "getReactFiles dir items = concat (map (entryFiles dir) items)"

definition findReactFiles :: "tool \<Rightarrow> world \<Rightarrow> tool" where
  "findReactFiles t w =
     (case srcDir w of
        None \<Rightarrow> pushIssue ''src directory not found'' t
      | Some items \<Rightarrow> t\<lparr>reactFiles := getReactFiles (pathJoin (projectRoot t) ''src'') items\<rparr>)"

definition packageJsonPath :: "tool \<Rightarrow> string" where
  "packageJsonPath t = pathJoin (projectRoot t) ''package.json''"

definition analyzeProject :: "tool \<Rightarrow> world \<Rightarrow> step" where
  "analyzeProject t w =
     (case packageJsonFile w of
        None \<Rightarrow> (Some PackageJsonNotFound, t, w)
      | Some (Unparsable msg) \<Rightarrow>
          (Some (JsonSyntaxError msg), t, traced (ReadFile (packageJsonPath t)) w)
      | Some (Parsed pj) \<Rightarrow>
          (let w1 = traced (ReadFile (packageJsonPath t)) w in
           if \<not> truthy (currentReactVersion pj) then (Some ReactNotFound, t, w1)
           else (None, findReactFiles t w1, w1)))"

subsection \<open>\<^verbatim>\<open>updateDependencies\<close>\<close>

definition updateDependencies :: "tool \<Rightarrow> world \<Rightarrow> step" where
  "updateDependencies t w =
     (case packageJsonFile w of
        None \<Rightarrow> (Some (FileNotFound (packageJsonPath t)), t, w)
      | Some (Unparsable msg) \<Rightarrow>
          (Some (JsonSyntaxError msg), t, traced (ReadFile (packageJsonPath t)) w)
      | Some (Parsed pj) \<Rightarrow>
          (let w1 = traced (ReadFile (packageJsonPath t)) w;
               pj' = updatedManifest (targetVersion t) pj
           in if \<not> dryRun (options t) then
                (let w2 = traced (WriteFile (packageJsonPath t))
                            (w1\<lparr>packageJsonFile := Some (Parsed pj')\<rparr>);
                     t2 = pushFix ''Updated package.json with new React versions'' t;
                     w3 = traced (Exec ''npm install'') w2
                 in case npmInstallError w3 of
                      None \<Rightarrow> (None, pushFix ''Installed updated dependencies'' t2, w3)
                    | Some msg \<Rightarrow>
                        (None, pushIssue (''Failed to install dependencies: '' @ msg) t2, w3))
              else
                (None,
                 pushFix ''Would update package.json with new React versions (dry run)'' t,
                 w1)))"

subsection \<open>\<^verbatim>\<open>transformFile\<close> and \<^verbatim>\<open>transformCode\<close>\<close>

definition transformFile :: "string \<Rightarrow> tool \<Rightarrow> world \<Rightarrow> step" where
  "transformFile filePath t w =
     (case sources w filePath of
        None \<Rightarrow> (Some (FileNotFound filePath), t, w)
      | Some content \<Rightarrow>
          (let w1 = traced (ReadFile filePath) w;
               fileName = basename filePath;
               (transformedContent, t1) = applyRules content fileName t
           in if transformedContent \<noteq> content \<and> \<not> dryRun (options t) then
                (None, pushFix (''Transformed '' @ fileName) t1,
                 traced (WriteFile filePath)
                   (w1\<lparr>sources := (sources w1)(filePath \<mapsto> transformedContent)\<rparr>))
              else if transformedContent \<noteq> content then
                (None, pushFix (''Would transform '' @ fileName @ '' (dry run)'') t1, w1)
              else (None, t1, w1)))"

fun transformFiles :: "string list \<Rightarrow> tool \<Rightarrow> world \<Rightarrow> step" where
  "transformFiles [] t w = (None, t, w)"
| "transformFiles (filePath # rest) t w =
     (case transformFile filePath t w of
        (Some e, t', w') \<Rightarrow> (Some e, t', w')
      | (None, t', w') \<Rightarrow> transformFiles rest t' w')"

definition transformCode :: "tool \<Rightarrow> world \<Rightarrow> step" where
  "transformCode t w = transformFiles (reactFiles t) t w"

subsection \<open>\<^verbatim>\<open>updateConfiguration\<close>\<close>

abbreviation DQ :: char where "DQ \<equiv> CHR 0x22"

definition updateTsConfig :: "tool \<Rightarrow> world \<Rightarrow> tool \<times> world" where
  "updateTsConfig t w =
     (case tsconfigFile w of
        None \<Rightarrow> (t, w)
      | Some (TsUnparsable msg) \<Rightarrow>
          (pushIssue (''Failed to update tsconfig.json: '' @ msg) t,
           traced (ReadFile (pathJoin (projectRoot t) ''tsconfig.json'')) w)
      | Some (TsParsed jsx) \<Rightarrow>
          (let w1 = traced (ReadFile (pathJoin (projectRoot t) ''tsconfig.json'')) w;
               (jsx1, t1) =
                 (if jsGe (targetVersion t) ''17''
                  then (Some ''react-jsx'',
                        pushFix ''Updated tsconfig.json with new JSX transform'' t)
                  else (jsx, t))
           in if \<not> dryRun (options t)
              then (t1, traced (WriteFile (pathJoin (projectRoot t) ''tsconfig.json''))
                          (w1\<lparr>tsconfigFile := Some (TsParsed jsx1)\<rparr>))
              else (t1, w1)))"

definition updateJestConfig :: "tool \<Rightarrow> world \<Rightarrow> tool \<times> world" where
  "updateJestConfig t w =
     (case jestConfigFile w of
        None \<Rightarrow> (t, w)
      | Some jestConfigContent \<Rightarrow>
          (let w1 = traced (ReadFile (pathJoin (projectRoot t) ''jest.config.js'')) w;
               t1 = (if jsGe (targetVersion t) ''18'' then
                       (let ta = (if \<not> strIncludes jestConfigContent ''setupFilesAfterEnv''
                                  then pushIssue
                                    ''Consider adding setupFilesAfterEnv for React 18 testing setup'' t
                                  else t)
                        in if \<not> strIncludes jestConfigContent ''testEnvironment''
                           then pushIssue (''Ensure testEnvironment is set to '' @ [DQ] @
                                  ''jsdom'' @ [DQ] @ '' for React testing'') ta
                           else ta)
                     else t)
           in (pushIssue ''Review Jest configuration for React testing compatibility'' t1, w1)))"

definition updateEslintConfig :: "tool \<Rightarrow> world \<Rightarrow> tool \<times> world" where
  "updateEslintConfig t w =
     (case eslintConfigFile w of
        None \<Rightarrow> (t, w)
      | Some eslintContent \<Rightarrow>
          (let w1 = traced (ReadFile (pathJoin (projectRoot t) ''.eslintrc.js'')) w in
           if \<not> strIncludes eslintContent ''react''
           then (pushIssue ''Add React plugin to ESLint configuration'' t, w1)
           else
             (let t1 = (if \<not> strIncludes eslintContent ([DQ] @ ''version'' @ [DQ])
                        then pushIssue (''Add '' @ [DQ] @ ''react'' @ [DQ] @ '': { '' @ [DQ] @
                               ''version'' @ [DQ] @ '': '' @ [DQ] @ targetVersion t @ [DQ] @
                               '' } to ESLint settings'') t
                        else t)
              in if jsGe (targetVersion t) ''17'' \<and> \<not> strIncludes eslintContent ''jsx-runtime''
                 then (pushIssue (''Consider adding '' @ [DQ] @ ''react/jsx-uses-react'' @ [DQ] @
                         '': '' @ [DQ] @ ''off'' @ [DQ] @ '' and '' @ [DQ] @
                         ''react/react-in-jsx-scope'' @ [DQ] @ '': '' @ [DQ] @ ''off'' @ [DQ] @
                         '' for new JSX transform'') t1, w1)
                 else (t1, w1))))"

definition checkBabelConfig :: "tool \<Rightarrow> world \<Rightarrow> tool" where
  "checkBabelConfig t w =
     (if babelConfigExists w \<and> jsGe (targetVersion t) ''17''
      then pushIssue (''Update Babel React preset to use automatic JSX runtime: {'' @ [DQ] @
             ''runtime'' @ [DQ] @ '': '' @ [DQ] @ ''automatic'' @ [DQ] @ ''}'') t
      else t)"

definition checkWebpackConfig :: "tool \<Rightarrow> world \<Rightarrow> tool" where
  "checkWebpackConfig t w =
     (if webpackConfigExists w then
        (let t1 = pushIssue ''Review webpack configuration for React compatibility'' t
         in if jsGe (targetVersion t) ''18''
            then pushIssue
              ''Ensure webpack supports React 18 features like Suspense and concurrent rendering'' t1
            else t1)
      else t)"

definition updateConfiguration :: "tool \<Rightarrow> world \<Rightarrow> tool \<times> world" where
  "updateConfiguration t w =
     (let (t1, w1) = updateTsConfig t w;
          (t2, w2) = updateJestConfig t1 w1;
          (t3, w3) = updateEslintConfig t2 w2;
          t4 = checkBabelConfig t3 w3
      in (checkWebpackConfig t4 w3, w3))"

subsection \<open>\<^verbatim>\<open>migrate\<close> and the command line\<close>

text \<open>
  \<^verbatim>\<open>migrate\<close> stores its arguments in the instance and runs the phases inside one
  \<^verbatim>\<open>try\<close> block; an exception ends the run (the \<^verbatim>\<open>catch\<close> clause prints it and exits
  with status 1). The report is printed only. The result is the exception, if any, with
  the instance and the project as the run leaves them.
\<close>

definition migrate :: "string \<Rightarrow> string \<Rightarrow> MigrationOptions \<Rightarrow> tool \<Rightarrow> world \<Rightarrow> step" where
  "migrate tv projectPath opts t0 w =
     (let t = t0\<lparr>targetVersion := tv, projectRoot := projectPath, options := opts\<rparr> in
      case analyzeProject t w of
        (Some e, t1, w1) \<Rightarrow> (Some e, t1, w1)
      | (None, t1, w1) \<Rightarrow>
          (case (if \<not> skipDeps (options t1) then updateDependencies t1 w1 else (None, t1, w1)) of
             (Some e, t2, w2) \<Rightarrow> (Some e, t2, w2)
           | (None, t2, w2) \<Rightarrow>
               (if \<not> depsOnly (options t2) then
                  (case transformCode t2 w2 of
                     (Some e, t3, w3) \<Rightarrow> (Some e, t3, w3)
                   | (None, t3, w3) \<Rightarrow>
                       (case updateConfiguration t3 w3 of (t4, w4) \<Rightarrow> (None, t4, w4)))
                else (None, t2, w2))))"

text \<open>
  A fresh instance, as \<^verbatim>\<open>new ReactMigrationTool()\<close> makes it in the working
  directory \<open>cwd\<close>.
\<close>

definition newTool :: "string \<Rightarrow> tool" where
  "newTool cwd =
     \<lparr>targetVersion = ''18'', projectRoot = cwd, issues = [], fixes' = [], reactFiles = [],
      options = \<lparr>dryRun = False, verbose = False, skipDeps = False, depsOnly = False\<rparr>\<rparr>"

text \<open>
  The default command validates the target version before it creates the instance; the
  \<^verbatim>\<open>check\<close> command runs \<^verbatim>\<open>migrate\<close> with the dry-run option and does not validate.
  The result is the exit status of the process and the project as the run leaves it.
\<close>

datatype exit = ExitSuccess | ExitFailure

definition exitOf :: "step \<Rightarrow> exit \<times> world" where
  "exitOf r = (case r of (None, t, w) \<Rightarrow> (ExitSuccess, w) | (Some e, t, w) \<Rightarrow> (ExitFailure, w))"

definition cliMigrate :: "string \<Rightarrow> string \<Rightarrow> string \<Rightarrow> MigrationOptions \<Rightarrow> world \<Rightarrow> exit \<times> world" where
  "cliMigrate cwd tv projectPath opts w =
     (if tv \<notin> set [''17'', ''18'', ''19''] then (ExitFailure, w)
      else exitOf (migrate tv projectPath opts (newTool cwd) w))"

definition cliCheck :: "string \<Rightarrow> string \<Rightarrow> string \<Rightarrow> world \<Rightarrow> exit \<times> world" where
  "cliCheck cwd tv projectPath w =
     exitOf (migrate tv projectPath
       \<lparr>dryRun = True, verbose = False, skipDeps = False, depsOnly = False\<rparr>
       (newTool cwd) w)"


section \<open>Writes that fail\<close>

text \<open>
  In the definitions above every \<^verbatim>\<open>writeFileSync\<close> goes through. The tool calls it in
  three places, all of them in a real run only: \<^verbatim>\<open>updateDependencies\<close> and
  \<^verbatim>\<open>transformFile\<close> call it unguarded, so that an error it throws leaves \<^verbatim>\<open>migrate\<close>'s
  \<^verbatim>\<open>try\<close> block, and \<^verbatim>\<open>updateTsConfig\<close> calls it inside its own \<^verbatim>\<open>try\<close> block, whose
  \<^verbatim>\<open>catch\<close> clause turns the error into an issue entry.

  What a write will do is given by the path: \<open>None\<close> when it goes through, otherwise the
  message of the error thrown. A write that throws leaves the file as it was; the call is
  recorded in the trace all the same. The definitions below are those of
  \<^verbatim>\<open>updateDependencies\<close>, \<^verbatim>\<open>transformFile\<close>, \<^verbatim>\<open>transformCode\<close>, \<^verbatim>\<open>updateTsConfig\<close>,
  \<^verbatim>\<open>updateConfiguration\<close> and \<^verbatim>\<open>migrate\<close> with the outcome of each write taken from it.
  Where the write goes through, or is not attempted because the run is a dry run, each of
  them is its counterpart above (lemmas \<open>updateDependenciesW_eq\<close> to \<open>migrateW_eq\<close>).
\<close>

type_synonym writes = "string \<Rightarrow> string option"

definition updateDependenciesW :: "writes \<Rightarrow> tool \<Rightarrow> world \<Rightarrow> step" where
  "updateDependenciesW ws t w =
     (case packageJsonFile w of
        None \<Rightarrow> (Some (FileNotFound (packageJsonPath t)), t, w)
      | Some (Unparsable msg) \<Rightarrow>
          (Some (JsonSyntaxError msg), t, traced (ReadFile (packageJsonPath t)) w)
      | Some (Parsed pj) \<Rightarrow>
          (let w1 = traced (ReadFile (packageJsonPath t)) w;
               pj' = updatedManifest (targetVersion t) pj
           in if \<not> dryRun (options t) then
                (case ws (packageJsonPath t) of
                   Some err \<Rightarrow>
                     (Some (WriteFailed err), t, traced (WriteFile (packageJsonPath t)) w1)
                 | None \<Rightarrow>
                     (let w2 = traced (WriteFile (packageJsonPath t))
                                 (w1\<lparr>packageJsonFile := Some (Parsed pj')\<rparr>);
                          t2 = pushFix ''Updated package.json with new React versions'' t;
                          w3 = traced (Exec ''npm install'') w2
                      in case npmInstallError w3 of
                           None \<Rightarrow> (None, pushFix ''Installed updated dependencies'' t2, w3)
                         | Some msg \<Rightarrow>
                             (None,
                              pushIssue (''Failed to install dependencies: '' @ msg) t2, w3)))
              else
                (None,
                 pushFix ''Would update package.json with new React versions (dry run)'' t,
                 w1)))"

definition transformFileW :: "writes \<Rightarrow> string \<Rightarrow> tool \<Rightarrow> world \<Rightarrow> step" where
  "transformFileW ws filePath t w =
     (case sources w filePath of
        None \<Rightarrow> (Some (FileNotFound filePath), t, w)
      | Some content \<Rightarrow>
          (let w1 = traced (ReadFile filePath) w;
               fileName = basename filePath;
               (transformedContent, t1) = applyRules content fileName t
           in if transformedContent \<noteq> content \<and> \<not> dryRun (options t) then
                (case ws filePath of
                   Some err \<Rightarrow> (Some (WriteFailed err), t1, traced (WriteFile filePath) w1)
                 | None \<Rightarrow>
                     (None, pushFix (''Transformed '' @ fileName) t1,
                      traced (WriteFile filePath)
                        (w1\<lparr>sources := (sources w1)(filePath \<mapsto> transformedContent)\<rparr>)))
              else if transformedContent \<noteq> content then
                (None, pushFix (''Would transform '' @ fileName @ '' (dry run)'') t1, w1)
              else (None, t1, w1)))"

fun transformFilesW :: "writes \<Rightarrow> string list \<Rightarrow> tool \<Rightarrow> world \<Rightarrow> step" where
  "transformFilesW ws [] t w = (None, t, w)"
| "transformFilesW ws (filePath # rest) t w =
     (case transformFileW ws filePath t w of
        (Some e, t', w') \<Rightarrow> (Some e, t', w')
      | (None, t', w') \<Rightarrow> transformFilesW ws rest t' w')"

definition transformCodeW :: "writes \<Rightarrow> tool \<Rightarrow> world \<Rightarrow> step" where
  "transformCodeW ws t w = transformFilesW ws (reactFiles t) t w"

definition updateTsConfigW :: "writes \<Rightarrow> tool \<Rightarrow> world \<Rightarrow> tool \<times> world" where
  "updateTsConfigW ws t w =
     (case tsconfigFile w of
        None \<Rightarrow> (t, w)
      | Some (TsUnparsable msg) \<Rightarrow>
          (pushIssue (''Failed to update tsconfig.json: '' @ msg) t,
           traced (ReadFile (pathJoin (projectRoot t) ''tsconfig.json'')) w)
      | Some (TsParsed jsx) \<Rightarrow>
          (let w1 = traced (ReadFile (pathJoin (projectRoot t) ''tsconfig.json'')) w;
               (jsx1, t1) =
                 (if jsGe (targetVersion t) ''17''
                  then (Some ''react-jsx'',
                        pushFix ''Updated tsconfig.json with new JSX transform'' t)
                  else (jsx, t))
           in if \<not> dryRun (options t)
              then (case ws (pathJoin (projectRoot t) ''tsconfig.json'') of
                      Some err \<Rightarrow>
                        (pushIssue (''Failed to update tsconfig.json: '' @ err) t1,
                         traced (WriteFile (pathJoin (projectRoot t) ''tsconfig.json'')) w1)
                    | None \<Rightarrow>
                        (t1, traced (WriteFile (pathJoin (projectRoot t) ''tsconfig.json''))
                               (w1\<lparr>tsconfigFile := Some (TsParsed jsx1)\<rparr>)))
              else (t1, w1)))"

definition updateConfigurationW :: "writes \<Rightarrow> tool \<Rightarrow> world \<Rightarrow> tool \<times> world" where
  "updateConfigurationW ws t w =
     (let (t1, w1) = updateTsConfigW ws t w;
          (t2, w2) = updateJestConfig t1 w1;
          (t3, w3) = updateEslintConfig t2 w2;
          t4 = checkBabelConfig t3 w3
      in (checkWebpackConfig t4 w3, w3))"

definition migrateW ::
  "writes \<Rightarrow> string \<Rightarrow> string \<Rightarrow> MigrationOptions \<Rightarrow> tool \<Rightarrow> world \<Rightarrow> step" where
  "migrateW ws tv projectPath opts t0 w =
     (let t = t0\<lparr>targetVersion := tv, projectRoot := projectPath, options := opts\<rparr> in
      case analyzeProject t w of
        (Some e, t1, w1) \<Rightarrow> (Some e, t1, w1)
      | (None, t1, w1) \<Rightarrow>
          (case (if \<not> skipDeps (options t1) then updateDependenciesW ws t1 w1
                 else (None, t1, w1)) of
             (Some e, t2, w2) \<Rightarrow> (Some e, t2, w2)
           | (None, t2, w2) \<Rightarrow>
               (if \<not> depsOnly (options t2) then
                  (case transformCodeW ws t2 w2 of
                     (Some e, t3, w3) \<Rightarrow> (Some e, t3, w3)
                   | (None, t3, w3) \<Rightarrow>
                       (case updateConfigurationW ws t3 w3 of (t4, w4) \<Rightarrow> (None, t4, w4)))
                else (None, t2, w2))))"

section \<open>The extended variant: peer-dependency analysis\<close>

text \<open>
  The second variant of the tool calls \<^verbatim>\<open>analyzePeerDependencies\<close> at the start of
  \<^verbatim>\<open>updateDependencies\<close>; the rest of that method is the same as in the first variant.
\<close>

subsection \<open>\<^verbatim>\<open>parseInt\<close>\<close>

text \<open>
  A JavaScript number that \<^verbatim>\<open>parseInt\<close> can return: \<^verbatim>\<open>NaN\<close>, an integer-valued
  double (\<open>-0\<close> and \<open>0\<close> are one value for \<^verbatim>\<open>===\<close>), or an infinity. \<open>toDouble\<close>
  rounds a natural number to the nearest double, ties to even; the result is \<open>None\<close>
  when it is beyond the largest finite double.
\<close>

datatype number = NaN | Finite int | PosInfinity | NegInfinity

fun bitlen :: "nat \<Rightarrow> nat" where
  "bitlen n = (if n = 0 then 0 else Suc (bitlen (n div 2)))"

declare bitlen.simps [simp del]

definition toDouble :: "nat \<Rightarrow> nat option" where
  "toDouble n =
     (if n < 2 ^ 53 then Some n
      else
        (let e = bitlen n - 53;
             q = n div 2 ^ e;
             r = n mod 2 ^ e;
             h = 2 ^ (e - 1);
             m = (if h < r \<or> (r = h \<and> odd q) then q + 1 else q) * 2 ^ e
         in if m < 2 ^ 1024 then Some m else None))"

definition digitOf :: "char \<Rightarrow> nat option" where
  "digitOf c =
     (let n = (of_char c :: nat) in
      if 48 \<le> n \<and> n \<le> 57 then Some (n - 48)
      else if 97 \<le> n \<and> n \<le> 122 then Some (n - 87)
      else if 65 \<le> n \<and> n \<le> 90 then Some (n - 55)
      else None)"

definition radixDigit :: "nat \<Rightarrow> char \<Rightarrow> nat option" where
  "radixDigit R c = (case digitOf c of None \<Rightarrow> None | Some d \<Rightarrow> if d < R then Some d else None)"

definition digitsValue :: "nat \<Rightarrow> string \<Rightarrow> nat" where
  "digitsValue R z = foldl (\<lambda>acc c. acc * R + (case radixDigit R c of None \<Rightarrow> 0 | Some d \<Rightarrow> d)) 0 z"

text \<open>
  \<^verbatim>\<open>parseInt(s)\<close> without a radix: leading white space is skipped, a sign is read, a
  prefix \<^verbatim>\<open>0x\<close> or \<^verbatim>\<open>0X\<close> selects radix 16, and the longest run of digits is the
  value; with no digit the result is \<^verbatim>\<open>NaN\<close>.
\<close>

definition parseInt :: "string \<Rightarrow> number" where
  "parseInt s =
     (let s1 = dropWhile isSpace s;
          (neg, s2) = (case s1 of
                         [] \<Rightarrow> (False, [])
                       | c # r \<Rightarrow> if c = CHR ''-'' then (True, r)
                                 else if c = CHR ''+'' then (False, r)
                                 else (False, s1));
          (R, s3) = (case s2 of
                       a # b # r \<Rightarrow> if a = CHR ''0'' \<and> (b = CHR ''x'' \<or> b = CHR ''X'')
                                     then (16, r) else (10, s2)
                     | _ \<Rightarrow> (10, s2));
          z = takeWhile (\<lambda>c. radixDigit R c \<noteq> None) s3
      in if z = [] then NaN
         else case toDouble (digitsValue R z) of
                None \<Rightarrow> if neg then NegInfinity else PosInfinity
              | Some m \<Rightarrow> Finite (if neg then - int m else int m))"

text \<open>\<^verbatim>\<open>a === b\<close> on numbers: \<^verbatim>\<open>NaN\<close> equals nothing, not even itself.\<close>

definition strictEq :: "number \<Rightarrow> number \<Rightarrow> bool" where
  "strictEq a b = (a \<noteq> NaN \<and> b \<noteq> NaN \<and> a = b)"

subsection \<open>\<^verbatim>\<open>isVersionCompatible\<close>\<close>

text \<open>
  \<^verbatim>\<open>version.replace(/[\^~]/, '')\<close> removes the first \<^verbatim>\<open>^\<close> or \<^verbatim>\<open>~\<close> wherever it
  stands; \<^verbatim>\<open>v.split('.')[0] || '0'\<close> is the text before the first dot, or \<^verbatim>\<open>'0'\<close> when
  that text is empty.
\<close>

definition majorOf :: "string \<Rightarrow> number" where
  "majorOf version =
     (let v = replaceFirst (Cls (OneOf ''^~'')) (\<lambda>m c. []) version;
          seg = takeWhile (\<lambda>c. c \<noteq> CHR ''.'') v
      in parseInt (if seg = [] then ''0'' else seg))"

definition isVersionCompatible :: "string \<Rightarrow> string \<Rightarrow> bool" where
  "isVersionCompatible version1 version2 = strictEq (majorOf version1) (majorOf version2)"

text \<open>
  The compatibility check as the specification words it: one leading \<^verbatim>\<open>^\<close> or \<^verbatim>\<open>~\<close> is
  stripped, the major number is the leading integer before the first dot, and a
  non-numeric or missing version has major 0.
\<close>

definition specMajor :: "string \<Rightarrow> nat" where
  "specMajor version =
     (let v = (case version of
                 [] \<Rightarrow> []
               | c # r \<Rightarrow> if c = CHR ''^'' \<or> c = CHR ''~'' then r else version);
          seg = takeWhile (\<lambda>c. c \<noteq> CHR ''.'') v;
          ds = takeWhile (\<lambda>c. radixDigit 10 c \<noteq> None) seg
      in if ds = [] then 0 else digitsValue 10 ds)"

definition specCompatible :: "string \<Rightarrow> string \<Rightarrow> bool" where
  "specCompatible version1 version2 = (specMajor version1 = specMajor version2)"

subsection \<open>\<^verbatim>\<open>analyzePeerDependencies\<close>\<close>

text \<open>\<^verbatim>\<open>{...dependencies, ...devDependencies}\<close>: later entries overwrite, new keys go last.\<close>

definition spread :: "depmap \<Rightarrow> depmap option \<Rightarrow> depmap" where
  "spread base sec =
     (case sec of None \<Rightarrow> base | Some m \<Rightarrow> fold (\<lambda>(k, v) acc. AList.update k v acc) m base)"

definition allDeps :: "packageJson \<Rightarrow> depmap" where
  "allDeps pj = spread (spread [] (dependencies pj)) (devDependencies pj)"

definition conflictLine :: "string \<Rightarrow> string \<Rightarrow> string \<Rightarrow> string" where
  "conflictLine pkg peerReactVersion reactVersion =
     pkg @ '' requires React '' @ peerReactVersion @ '' but we'' @ [SQ] @
     ''re upgrading to '' @ reactVersion"

text \<open>
  One round of the loop over the names of all dependencies: the list of conflicts found
  so far and the project (whose trace grows with each manifest read). A manifest that
  does not exist is skipped; one that cannot be parsed throws inside the \<^verbatim>\<open>try\<close>
  block, and the empty \<^verbatim>\<open>catch\<close> clause skips it as well.
\<close>

definition peerCheck :: "tool \<Rightarrow> string \<Rightarrow> string list \<times> world \<Rightarrow> string list \<times> world" where
  "peerCheck t pkg cw =
     (case cw of (conflicts, w) \<Rightarrow>
        if strIncludes pkg ''react'' \<and> pkg \<noteq> ''react'' \<and> pkg \<noteq> ''react-dom'' then
          (case nodeModules w pkg of
             None \<Rightarrow> (conflicts, w)
           | Some f \<Rightarrow>
               (let w1 = traced (ReadFile (pathJoin (pathJoin (pathJoin (projectRoot t)
                            ''node_modules'') pkg) ''package.json'')) w
                in case f of
                     PeerUnparsable \<Rightarrow> (conflicts, w1)
                   | PeerParsed None \<Rightarrow> (conflicts, w1)
                   | PeerParsed (Some peerReactVersion) \<Rightarrow>
                       (if peerReactVersion \<noteq> [] \<and>
                           \<not> isVersionCompatible (''^'' @ targetVersion t) peerReactVersion
                        then (conflicts @
                                [conflictLine pkg peerReactVersion (''^'' @ targetVersion t)], w1)
                        else (conflicts, w1))))
        else (conflicts, w))"

definition analyzePeerDependencies :: "packageJson \<Rightarrow> tool \<Rightarrow> world \<Rightarrow> tool \<times> world" where
  "analyzePeerDependencies pj t w =
     (case fold (peerCheck t) (map fst (allDeps pj)) ([], w) of
        (conflicts, w1) \<Rightarrow>
          (if conflicts \<noteq> [] then
             (t\<lparr>issues := issues t @ [''Peer dependency conflicts detected:''] @
                            map (\<lambda>conflict. ''  - '' @ conflict) conflicts\<rparr>, w1)
           else (t, w1)))"

text \<open>\<^verbatim>\<open>updateDependencies\<close> of the extended variant.\<close>

definition updateDependenciesExt :: "tool \<Rightarrow> world \<Rightarrow> step" where
  "updateDependenciesExt t w =
     (case packageJsonFile w of
        None \<Rightarrow> (Some (FileNotFound (packageJsonPath t)), t, w)
      | Some (Unparsable msg) \<Rightarrow>
          (Some (JsonSyntaxError msg), t, traced (ReadFile (packageJsonPath t)) w)
      | Some (Parsed pj) \<Rightarrow>
          (case analyzePeerDependencies pj t (traced (ReadFile (packageJsonPath t)) w) of
             (ta, w1) \<Rightarrow>
               (let pj' = updatedManifest (targetVersion ta) pj
                in if \<not> dryRun (options ta) then
                     (let w2 = traced (WriteFile (packageJsonPath ta))
                                 (w1\<lparr>packageJsonFile := Some (Parsed pj')\<rparr>);
                          t2 = pushFix ''Updated package.json with new React versions'' ta;
                          w3 = traced (Exec ''npm install'') w2
                      in case npmInstallError w3 of
                           None \<Rightarrow> (None, pushFix ''Installed updated dependencies'' t2, w3)
                         | Some msg \<Rightarrow>
                             (None,
                              pushIssue (''Failed to install dependencies: '' @ msg) t2, w3))
                   else
                     (None,
                      pushFix ''Would update package.json with new React versions (dry run)'' ta,
                      w1))))"


section \<open>Properties of the dependency resolver\<close>

lemma entry_simps: "entry None k = None" "entry (Some m) k = map_of m k"
  by (simp_all add: entry_def)

lemma truthy_simps: "truthy None = False" "truthy (Some s) = (s \<noteq> [])"
  by (simp_all add: truthy_def)

lemma keys_simps: "keys None = {}" "keys (Some m) = fst ` set m"
  by (simp_all add: keys_def)

lemma entry_assign:
  "entry (assign sec k v) k' =
     (if sec = None then None else if k' = k then Some v else entry sec k')"
  by (cases sec) (simp_all add: entry_def assign_def update_conv')

lemma entry_in_keys: "entry sec k \<noteq> None \<longleftrightarrow> k \<in> keys sec"
  by (cases sec) (auto simp: entry_def keys_def map_of_eq_None_iff)

lemma truthy_in_keys: "truthy (entry sec k) \<Longrightarrow> k \<in> keys sec"
  using entry_in_keys [of sec k] by (auto simp: truthy_def split: option.splits)

lemma keys_assign: "truthy (entry sec k) \<Longrightarrow> keys (assign sec k v) = keys sec"
  using truthy_in_keys [of sec k]
  by (cases sec) (auto simp: assign_def keys_def dom_update)

lemma assign_None: "assign sec k v = None \<longleftrightarrow> sec = None"
  by (cases sec) (simp_all add: assign_def)

lemma truthy_not_None: "truthy (entry sec k) \<Longrightarrow> sec \<noteq> None"
  by (cases sec) (simp_all add: entry_def truthy_def)

lemma updateRelated_deps:
  "entry (dependencies (updateRelated (p, v) pj)) k =
     (if k = p \<and> truthy (entry (dependencies pj) p) then Some v else entry (dependencies pj) k)"
  by (auto simp: updateRelated_def Let_def entry_assign dest: truthy_not_None)

lemma updateRelated_dev:
  "entry (devDependencies (updateRelated (p, v) pj)) k =
     (if k = p \<and> truthy (entry (devDependencies pj) p) then Some v
      else entry (devDependencies pj) k)"
  by (auto simp: updateRelated_def Let_def entry_assign dest: truthy_not_None)

lemma updateRelated_shape:
  "keys (dependencies (updateRelated pv pj)) = keys (dependencies pj) \<and>
   keys (devDependencies (updateRelated pv pj)) = keys (devDependencies pj) \<and>
   (dependencies (updateRelated pv pj) = None \<longleftrightarrow> dependencies pj = None) \<and>
   (devDependencies (updateRelated pv pj) = None \<longleftrightarrow> devDependencies pj = None)"
  by (cases pv) (auto simp: updateRelated_def Let_def keys_assign assign_None)

lemma fold_updateRelated_shape:
  "keys (dependencies (fold updateRelated l pj)) = keys (dependencies pj) \<and>
   keys (devDependencies (fold updateRelated l pj)) = keys (devDependencies pj) \<and>
   (dependencies (fold updateRelated l pj) = None \<longleftrightarrow> dependencies pj = None) \<and>
   (devDependencies (fold updateRelated l pj) = None \<longleftrightarrow> devDependencies pj = None)"
proof (induction l arbitrary: pj)
  case Nil
  show ?case by simp
next
  case (Cons pv l)
  show ?case using Cons.IH [of "updateRelated pv pj"] updateRelated_shape [of pv pj] by simp
qed

lemma fold_updateRelated_deps:
  "distinct (map fst l) \<Longrightarrow>
   entry (dependencies (fold updateRelated l pj)) k =
     (case map_of l k of
        None \<Rightarrow> entry (dependencies pj) k
      | Some v \<Rightarrow> if truthy (entry (dependencies pj) k) then Some v
                  else entry (dependencies pj) k)"
proof (induction l arbitrary: pj)
  case Nil
  show ?case by simp
next
  case (Cons pv l)
  obtain p v where pv: "pv = (p, v)" by (cases pv)
  have d: "distinct (map fst l)" and np: "p \<notin> fst ` set l" using Cons.prems pv by auto
  have m: "map_of l p = None" using np by (simp add: map_of_eq_None_iff)
  show ?case
    using Cons.IH [OF d, of "updateRelated (p, v) pj"] m
    by (auto simp: pv updateRelated_deps split: option.splits)
qed

lemma fold_updateRelated_dev:
  "distinct (map fst l) \<Longrightarrow>
   entry (devDependencies (fold updateRelated l pj)) k =
     (case map_of l k of
        None \<Rightarrow> entry (devDependencies pj) k
      | Some v \<Rightarrow> if truthy (entry (devDependencies pj) k) then Some v
                  else entry (devDependencies pj) k)"
proof (induction l arbitrary: pj)
  case Nil
  show ?case by simp
next
  case (Cons pv l)
  obtain p v where pv: "pv = (p, v)" by (cases pv)
  have d: "distinct (map fst l)" and np: "p \<notin> fst ` set l" using Cons.prems pv by auto
  have m: "map_of l p = None" using np by (simp add: map_of_eq_None_iff)
  show ?case
    using Cons.IH [OF d, of "updateRelated (p, v) pj"] m
    by (auto simp: pv updateRelated_dev split: option.splits)
qed

lemma related_distinct: "distinct (map fst (getReactRelatedPackages tv))"
  by (simp add: getReactRelatedPackages_def)

lemma core_not_related:
  "map_of (getReactRelatedPackages tv) ''react'' = None"
  "map_of (getReactRelatedPackages tv) ''react-dom'' = None"
  by (simp_all add: getReactRelatedPackages_def)

lemma updateCore_deps:
  "entry (dependencies (updateCore tv pj)) k =
     (if (k = ''react'' \<or> k = ''react-dom'') \<and> truthy (entry (dependencies pj) k)
      then Some (''^'' @ tv) else entry (dependencies pj) k)"
  by (cases "dependencies pj")
    (auto simp: updateCore_def Let_def assign_def entry_simps truthy_simps update_conv')

lemma updateCore_dev: "devDependencies (updateCore tv pj) = devDependencies pj"
  by (simp add: updateCore_def Let_def)

lemma updateCore_shape:
  "keys (dependencies (updateCore tv pj)) = keys (dependencies pj) \<and>
   (dependencies (updateCore tv pj) = None \<longleftrightarrow> dependencies pj = None)"
  by (auto simp: updateCore_def Let_def keys_assign assign_None entry_assign)

lemma updatedManifest_deps:
  "entry (dependencies (updatedManifest tv pj)) k =
     (if truthy (entry (dependencies pj) k)
      then (if k = ''react'' \<or> k = ''react-dom'' then Some (''^'' @ tv)
            else case map_of (getReactRelatedPackages tv) k of
                   None \<Rightarrow> entry (dependencies pj) k
                 | Some v \<Rightarrow> Some v)
      else entry (dependencies pj) k)"
  unfolding updatedManifest_def fold_updateRelated_deps [OF related_distinct] updateCore_deps
  using core_not_related [of tv]
  by (auto simp: truthy_def split: option.splits)

lemma updatedManifest_dev:
  "entry (devDependencies (updatedManifest tv pj)) k =
     (case map_of (getReactRelatedPackages tv) k of
        None \<Rightarrow> entry (devDependencies pj) k
      | Some v \<Rightarrow> if truthy (entry (devDependencies pj) k) then Some v
                  else entry (devDependencies pj) k)"
  unfolding updatedManifest_def fold_updateRelated_dev [OF related_distinct] updateCore_dev
  by simp

lemma updatedManifest_shape:
  "keys (dependencies (updatedManifest tv pj)) = keys (dependencies pj) \<and>
   keys (devDependencies (updatedManifest tv pj)) = keys (devDependencies pj) \<and>
   (dependencies (updatedManifest tv pj) = None \<longleftrightarrow> dependencies pj = None) \<and>
   (devDependencies (updatedManifest tv pj) = None \<longleftrightarrow> devDependencies pj = None)"
  unfolding updatedManifest_def
  using fold_updateRelated_shape [of "getReactRelatedPackages tv" "updateCore tv pj"]
    updateCore_shape [of tv pj]
  by (simp add: updateCore_dev)


section \<open>Properties of the matcher\<close>


lemma replaceFrom_no_match: "\<not> regexTest r s \<Longrightarrow> replaceFrom r f 0 s = s"
  by (induction s) (auto split: option.splits)

lemma replaceAll_no_match: "\<not> regexTest r s \<Longrightarrow> replaceAll r f s = s"
  by (simp add: replaceAll_def replaceFrom_no_match)

text \<open>The words a regular expression matches.\<close>

fun lang :: "regex \<Rightarrow> string set" where
  "lang (Lit l) = {l}"
| "lang (Cls k) = {[x] | x. cmatch k x}"
| "lang (Star k) = {p. \<forall>x \<in> set p. cmatch k x}"
| "lang (Plus k) = {p. p \<noteq> [] \<and> (\<forall>x \<in> set p. cmatch k x)}"
| "lang (LazyStar k) = {p. \<forall>x \<in> set p. cmatch k x}"
| "lang (Seq a b) = {p @ q | p q. p \<in> lang a \<and> q \<in> lang b}"
| "lang (Alt a b) = lang a \<union> lang b"
| "lang (Group i r) = lang r"

lemma set_greedy: "set (greedy k s) = {r. \<exists>p. s = p @ r \<and> (\<forall>x \<in> set p. cmatch k x)}"
proof (induction s)
  case Nil
  show ?case by auto
next
  case (Cons a s)
  show ?case
  proof (cases "cmatch k a")
    case True
    have "{r. \<exists>p. a # s = p @ r \<and> (\<forall>x \<in> set p. cmatch k x)} =
          {r. \<exists>p. s = p @ r \<and> (\<forall>x \<in> set p. cmatch k x)} \<union> {a # s}"
      (is "?L = ?R")
    proof
      show "?L \<subseteq> ?R"
      proof
        fix r assume "r \<in> ?L"
        then obtain p where p: "a # s = p @ r" "\<forall>x \<in> set p. cmatch k x" by auto
        show "r \<in> ?R"
        proof (cases p)
          case Nil then show ?thesis using p by simp
        next
          case (Cons b p') then show ?thesis using p by auto
        qed
      qed
      show "?R \<subseteq> ?L"
      proof
        fix r assume "r \<in> ?R"
        then consider p where "s = p @ r" "\<forall>x \<in> set p. cmatch k x" | "r = a # s" by auto
        then show "r \<in> ?L"
        proof cases
          case 1
          then have "a # s = (a # p) @ r \<and> (\<forall>x \<in> set (a # p). cmatch k x)" using True by simp
          then show ?thesis by blast
        next
          case 2
          then have "a # s = [] @ r \<and> (\<forall>x \<in> set ([]::string). cmatch k x)" by simp
          then show ?thesis by blast
        qed
      qed
    qed
    then show ?thesis using Cons True by simp
  next
    case False
    have "{r. \<exists>p. a # s = p @ r \<and> (\<forall>x \<in> set p. cmatch k x)} = {a # s}" (is "?L = ?R")
    proof
      show "?L \<subseteq> ?R"
      proof
        fix r assume "r \<in> ?L"
        then obtain p where p: "a # s = p @ r" "\<forall>x \<in> set p. cmatch k x" by auto
        show "r \<in> ?R"
        proof (cases p)
          case Nil then show ?thesis using p by simp
        next
          case (Cons b p') then show ?thesis using p False by auto
        qed
      qed
      show "?R \<subseteq> ?L" by auto
    qed
    then show ?thesis using False by simp
  qed
qed

lemma set_lazy: "set (lazy k s) = set (greedy k s)"
  by (induction s) auto

lemma bt_lang:
  "fst ` set (bt r s c) = {s'. \<exists>m. m \<in> lang r \<and> s = m @ s'}"
proof (induction r arbitrary: s c)
  case (Lit l)
  show ?case by (auto simp: prefix_def image_iff)
next
  case (Cls k)
  show ?case by (cases s) (auto simp: image_iff)
next
  case (Star k)
  show ?case by (auto simp: set_greedy image_iff)
next
  case (Plus k)
  show ?case
  proof (cases s)
    case Nil then show ?thesis by auto
  next
    case (Cons a s')
    show ?thesis
    proof (cases "cmatch k a")
      case False
      then show ?thesis using Cons by (auto simp: Cons_eq_append_conv)
    next
      case True
      have "fst ` set (bt (Plus k) s c) = set (greedy k s')"
        using Cons True by (auto simp: image_iff)
      also have "\<dots> = {s''. \<exists>m. m \<in> lang (Plus k) \<and> s = m @ s''}"
      proof (rule set_eqI, rule iffI)
        fix r assume "r \<in> set (greedy k s')"
        then obtain p where "s' = p @ r" "\<forall>x \<in> set p. cmatch k x" by (auto simp: set_greedy)
        then have "a # p \<in> lang (Plus k) \<and> s = (a # p) @ r" using Cons True by simp
        then show "r \<in> {s''. \<exists>m. m \<in> lang (Plus k) \<and> s = m @ s''}" by blast
      next
        fix r assume "r \<in> {s''. \<exists>m. m \<in> lang (Plus k) \<and> s = m @ s''}"
        then obtain m where m: "m \<noteq> []" "\<forall>x \<in> set m. cmatch k x" "s = m @ r" by auto
        then obtain b m' where "m = b # m'" by (cases m) auto
        then have "s' = m' @ r \<and> (\<forall>x \<in> set m'. cmatch k x)" using m Cons by auto
        then show "r \<in> set (greedy k s')" by (auto simp: set_greedy)
      qed
      finally show ?thesis .
    qed
  qed
next
  case (LazyStar k)
  show ?case by (auto simp: set_lazy set_greedy image_iff)
next
  case (Seq a b)
  have "fst ` set (bt (Seq a b) s c) =
        (\<Union>(s', c') \<in> set (bt a s c). fst ` set (bt b s' c'))"
    by (auto simp: image_iff)
  also have "\<dots> = (\<Union>(s', c') \<in> set (bt a s c). {s''. \<exists>m. m \<in> lang b \<and> s' = m @ s''})"
    using Seq.IH(2) by simp
  also have "\<dots> = {s''. \<exists>s' \<in> fst ` set (bt a s c). \<exists>m. m \<in> lang b \<and> s' = m @ s''}"
    by force
  also have "\<dots> = {s''. \<exists>m. m \<in> lang (Seq a b) \<and> s = m @ s''}"
    unfolding Seq.IH(1) by auto (metis append.assoc)+
  finally show ?case .
next
  case (Alt a b)
  show ?case using Alt.IH [of s c] by (auto simp: image_Un)
next
  case (Group i r)
  have "fst ` set (bt (Group i r) s c) = fst ` set (bt r s c)"
    by (auto simp: image_iff) force+
  then show ?case using Group.IH by simp
qed

lemma matchHere_lang: "matchHere r s \<noteq> None \<longleftrightarrow> (\<exists>m rest. m \<in> lang r \<and> s = m @ rest)"
proof -
  have "matchHere r s \<noteq> None \<longleftrightarrow> bt r s [] \<noteq> []"
    by (auto simp: matchHere_def split: list.splits)
  also have "\<dots> \<longleftrightarrow> fst ` set (bt r s []) \<noteq> {}" by simp
  also have "\<dots> \<longleftrightarrow> (\<exists>m rest. m \<in> lang r \<and> s = m @ rest)"
    unfolding bt_lang by auto
  finally show ?thesis .
qed

lemma regexTest_lang:
  "regexTest r s \<longleftrightarrow> (\<exists>pre m rest. m \<in> lang r \<and> s = pre @ m @ rest)"
proof (induction s)
  case Nil
  have "(\<exists>m rest. m \<in> lang r \<and> [] = m @ rest) \<longleftrightarrow>
        (\<exists>pre m rest. m \<in> lang r \<and> [] = pre @ m @ rest)" by auto
  then show ?case using matchHere_lang [of r "[]"] by (simp del: not_None_eq)
next
  case (Cons a s)
  show ?case
  proof
    assume "regexTest r (a # s)"
    then consider "matchHere r (a # s) \<noteq> None" | "regexTest r s" by auto
    then show "\<exists>pre m rest. m \<in> lang r \<and> a # s = pre @ m @ rest"
    proof cases
      case 1
      then obtain m rest where "m \<in> lang r" "a # s = [] @ m @ rest"
        using matchHere_lang [of r "a # s"] by auto
      then show ?thesis by blast
    next
      case 2
      then obtain pre m rest where "m \<in> lang r" "s = pre @ m @ rest" using Cons by blast
      then have "m \<in> lang r \<and> a # s = (a # pre) @ m @ rest" by simp
      then show ?thesis by blast
    qed
  next
    assume "\<exists>pre m rest. m \<in> lang r \<and> a # s = pre @ m @ rest"
    then obtain pre m rest where h: "m \<in> lang r" "a # s = pre @ m @ rest" by blast
    show "regexTest r (a # s)"
    proof (cases pre)
      case Nil
      then have "\<exists>m rest. m \<in> lang r \<and> a # s = m @ rest" using h by auto
      then show ?thesis using matchHere_lang [of r "a # s"] by (simp del: not_None_eq)
    next
      case (Cons b pre')
      then have "s = pre' @ m @ rest" using h by simp
      then show ?thesis using h Cons.IH by (auto simp del: not_None_eq)
    qed
  qed
qed

subsection \<open>Substitution of a literal\<close>


lemma replaceFrom_skip:
  "n \<le> length s \<Longrightarrow> replaceFrom r f n s = replaceFrom r f 0 (drop n s)"
proof (induction s arbitrary: n)
  case Nil
  then show ?case by simp
next
  case (Cons x xs)
  show ?case
  proof (cases n)
    case 0 then show ?thesis by simp
  next
    case (Suc k)
    then have "k \<le> length xs" using Cons.prems by simp
    then show ?thesis using Cons.IH [of k] Suc by simp
  qed
qed

lemma matchHere_Lit:
  "matchHere (Lit l) s = (if prefix l s then Some (length l, []) else None)"
  by (auto simp: matchHere_def prefix_def)

lemma replaceAll_Lit_Nil: "l \<noteq> [] \<Longrightarrow> replaceAll (Lit l) f [] = []"
  by (simp add: replaceAll_def matchHere_Lit)

lemma replaceAll_Lit_Cons:
  assumes "l \<noteq> []"
  shows "replaceAll (Lit l) f (x # xs) =
     (if prefix l (x # xs) then f l [] @ replaceAll (Lit l) f (drop (length l) (x # xs))
      else x # replaceAll (Lit l) f xs)"
proof (cases "prefix l (x # xs)")
  case False
  then show ?thesis by (simp add: replaceAll_def matchHere_Lit)
next
  case True
  then obtain k where k: "length l = Suc k" using assms by (cases l) auto
  have "length l \<le> length (x # xs)" using True by (rule prefix_length_le)
  then have le: "k \<le> length xs" using k by simp
  have tk: "take (length l) (x # xs) = l" using True by (auto simp: prefix_def)
  have "replaceAll (Lit l) f (x # xs) = f l [] @ replaceFrom (Lit l) f k xs"
    using True k tk by (simp add: replaceAll_def matchHere_Lit)
  also have "\<dots> = f l [] @ replaceFrom (Lit l) f 0 (drop k xs)"
    using replaceFrom_skip [OF le] by simp
  finally show ?thesis using True k by (simp add: replaceAll_def)
qed

text \<open>
  A literal substitution whose replacement begins with the character \<open>h\<close>: a prefix of
  the output that does not contain \<open>h\<close> was copied from the input.
\<close>

lemma subst_pull:
  assumes "l \<noteq> []" and "f l [] = h # t"
  shows "replaceAll (Lit l) f s = a @ v \<Longrightarrow> h \<notin> set a \<Longrightarrow>
         \<exists>s'. s = a @ s' \<and> replaceAll (Lit l) f s' = v"
proof (induction a arbitrary: s)
  case Nil
  then show ?case by simp
next
  case (Cons y a)
  show ?case
  proof (cases s)
    case Nil
    then show ?thesis using Cons.prems assms by (simp add: replaceAll_Lit_Nil)
  next
    case (Cons x xs)
    have np: "\<not> prefix l (x # xs)"
    proof
      assume "prefix l (x # xs)"
      then have "replaceAll (Lit l) f s = (h # t) @ replaceAll (Lit l) f (drop (length l) (x # xs))"
        using Cons assms by (simp add: replaceAll_Lit_Cons)
      then show False using Cons.prems by simp
    qed
    then have "x = y" "replaceAll (Lit l) f xs = a @ v"
      using Cons.prems(1) Cons assms(1) by (simp_all add: replaceAll_Lit_Cons)
    then obtain s' where "xs = a @ s'" "replaceAll (Lit l) f s' = v"
      using Cons.IH [of xs] Cons.prems(2) by auto
    then show ?thesis using Cons \<open>x = y\<close> by simp
  qed
qed

text \<open>
  A prefix \<open>a\<close> of the output with which the replacement text is incompatible (neither
  is a prefix of the other) starts with a copied character.
\<close>

lemma subst_pull_head:
  assumes "l \<noteq> []" and "\<not> prefix (f l []) (c # a)" and "\<not> prefix (c # a) (f l [])"
    and "replaceAll (Lit l) f s = (c # a) @ v"
  shows "\<exists>s'. s = c # s' \<and> replaceAll (Lit l) f s' = a @ v"
proof (cases s)
  case Nil
  then show ?thesis using assms by (simp add: replaceAll_Lit_Nil)
next
  case (Cons x xs)
  have np: "\<not> prefix l (x # xs)"
  proof
    assume "prefix l (x # xs)"
    then have "f l [] @ replaceAll (Lit l) f (drop (length l) (x # xs)) = (c # a) @ v"
      using Cons assms(1,4) by (simp add: replaceAll_Lit_Cons)
    then have "prefix (f l []) (c # a) \<or> prefix (c # a) (f l [])"
      by (metis append_eq_append_conv2 prefixI)
    then show False using assms(2,3) by simp
  qed
  then show ?thesis using assms(1,4) Cons by (simp add: replaceAll_Lit_Cons)
qed

text \<open>
  If neither the pattern nor the replacement contains the character \<open>d\<close>, then the first
  \<open>d\<close> of the output was copied from the first \<open>d\<close> of the input, and the text before it
  is empty in the output only if it is empty in the input.
\<close>

lemma subst_pull_until:
  assumes "l \<noteq> []" and "d \<notin> set l" and "d \<notin> set (f l [])" and "f l [] \<noteq> []"
  shows "replaceAll (Lit l) f u = a @ d # rest \<Longrightarrow> d \<notin> set a \<Longrightarrow>
   \<exists>a' rest'. u = a' @ d # rest' \<and> d \<notin> set a' \<and> (a \<noteq> [] \<longrightarrow> a' \<noteq> [])"
proof (induction "length u" arbitrary: u a rule: less_induct)
  case less
  show ?case
  proof (cases u)
    case Nil
    then show ?thesis using less.prems assms(1) by (simp add: replaceAll_Lit_Nil)
  next
    case (Cons x xs)
    show ?thesis
    proof (cases "prefix l (x # xs)")
      case True
      then obtain u' where u': "u = l @ u'"
        using Cons by (auto simp: prefix_def)
      have "drop (length l) (x # xs) = u'" using u' Cons by simp
      then have w: "replaceAll (Lit l) f u = f l [] @ replaceAll (Lit l) f u'"
        using True Cons assms(1) by (simp add: replaceAll_Lit_Cons)
      have e: "f l [] @ replaceAll (Lit l) f u' = a @ d # rest"
        using w less.prems(1) by simp
      have "\<exists>a2. a = f l [] @ a2 \<and> replaceAll (Lit l) f u' = a2 @ d # rest"
      proof -
        from e obtain z where
          z: "(f l [] = a @ z \<and> z @ replaceAll (Lit l) f u' = d # rest) \<or>
              (f l [] @ z = a \<and> replaceAll (Lit l) f u' = z @ d # rest)"
          unfolding append_eq_append_conv2 by blast
        show ?thesis
        proof (cases "f l [] = a @ z \<and> z @ replaceAll (Lit l) f u' = d # rest")
          case True
          show ?thesis
          proof (cases z)
            case Nil
            then show ?thesis using True by auto
          next
            case (Cons z1 zs)
            then have "z1 = d" using True by simp
            then have "d \<in> set (f l [])" using True Cons by simp
            then show ?thesis using assms(3) by simp
          qed
        next
          case False
          then show ?thesis using z by auto
        qed
      qed
      then obtain a2 where a2: "a = f l [] @ a2"
          "replaceAll (Lit l) f u' = a2 @ d # rest" by blast
      have "length u' < length u" using u' assms(1) by simp
      moreover have "d \<notin> set a2" using less.prems(2) a2 by simp
      ultimately obtain a' rest' where "u' = a' @ d # rest'" "d \<notin> set a'"
        using less.hyps [of u' a2] a2(2) by blast
      then have "u = (l @ a') @ d # rest' \<and> d \<notin> set (l @ a') \<and> l @ a' \<noteq> []"
        using u' assms(1,2) by simp
      then show ?thesis by blast
    next
      case False
      then have w: "x # replaceAll (Lit l) f xs = a @ d # rest"
        using less.prems(1) Cons assms(1) by (simp add: replaceAll_Lit_Cons)
      show ?thesis
      proof (cases a)
        case Nil
        then have "x = d" using w by simp
        then have "u = [] @ d # xs \<and> d \<notin> set ([]::string)" using Cons by simp
        then show ?thesis using Nil by blast
      next
        case (Cons y a2)
        then have xy: "x = y" and r: "replaceAll (Lit l) f xs = a2 @ d # rest"
          using w by simp_all
        have "length xs < length u" using \<open>u = x # xs\<close> by simp
        moreover have "d \<notin> set a2" using less.prems(2) Cons by simp
        ultimately obtain a' rest' where "xs = a' @ d # rest'" "d \<notin> set a'"
          using less.hyps [of xs a2] r by blast
        then have "u = (x # a') @ d # rest' \<and> d \<notin> set (x # a') \<and> x # a' \<noteq> []"
          using \<open>u = x # xs\<close> xy less.prems(2) Cons by simp
        then show ?thesis by blast
      qed
    qed
  qed
qed

subsection \<open>The lifecycle rule\<close>


lemma lang_Seq_Lit: "m \<in> lang (Seq (Lit l) r) \<longleftrightarrow> (\<exists>q. m = l @ q \<and> q \<in> lang r)"
  by auto

lemma lang_Seq_Star:
  "m \<in> lang (Seq (Star k) r) \<longleftrightarrow>
   (\<exists>p q. m = p @ q \<and> (\<forall>x \<in> set p. cmatch k x) \<and> q \<in> lang r)"
  by auto

lemma lang_Seq_Plus:
  "m \<in> lang (Seq (Plus k) r) \<longleftrightarrow>
   (\<exists>p q. m = p @ q \<and> p \<noteq> [] \<and> (\<forall>x \<in> set p. cmatch k x) \<and> q \<in> lang r)"
  by auto

lemma lang_Lit: "m \<in> lang (Lit l) \<longleftrightarrow> m = l"
  by simp

lemma lang_receiveProps:
  "m \<in> lang receivePropsRegex \<longleftrightarrow>
   (\<exists>ws args. m = ''componentWillReceiveProps'' @ ws @ ''('' @ args @ '')'' \<and>
      (\<forall>x \<in> set ws. isSpace x) \<and> args \<noteq> [] \<and> CHR '')'' \<notin> set args)"
proof -
  have "m \<in> lang receivePropsRegex \<longleftrightarrow>
     (\<exists>q. m = ''componentWillReceiveProps'' @ q \<and>
       (\<exists>ws q2. q = ws @ q2 \<and> (\<forall>x \<in> set ws. cmatch Space x) \<and>
         (\<exists>q3. q2 = ''('' @ q3 \<and>
           (\<exists>args q4. q3 = args @ q4 \<and> args \<noteq> [] \<and>
              (\<forall>x \<in> set args. cmatch (NoneOf '')'') x) \<and> q4 = '')''))))"
    unfolding receivePropsRegex_def lang_Seq_Lit lang_Seq_Star lang_Seq_Plus lang_Lit ..
  also have "\<dots> \<longleftrightarrow>
     (\<exists>ws args. m = ''componentWillReceiveProps'' @ ws @ ''('' @ args @ '')'' \<and>
        (\<forall>x \<in> set ws. cmatch Space x) \<and> args \<noteq> [] \<and>
        (\<forall>x \<in> set args. cmatch (NoneOf '')'') x))"
    by blast
  also have "\<dots> \<longleftrightarrow>
     (\<exists>ws args. m = ''componentWillReceiveProps'' @ ws @ ''('' @ args @ '')'' \<and>
        (\<forall>x \<in> set ws. isSpace x) \<and> args \<noteq> [] \<and> CHR '')'' \<notin> set args)"
    by (simp only: cmatch.simps) (metis empty_iff empty_set set_ConsD list.set_intros(1))
  finally show ?thesis .
qed


lemma receiveProps_match_iff:
  "matchHere receivePropsRegex u \<noteq> None \<longleftrightarrow>
   (\<exists>ws args rest. u = ''componentWillReceiveProps'' @ ws @ ''('' @ args @ '')'' @ rest \<and>
      (\<forall>x \<in> set ws. isSpace x) \<and> args \<noteq> [] \<and> CHR '')'' \<notin> set args)"
proof
  assume "matchHere receivePropsRegex u \<noteq> None"
  then obtain m rest where "m \<in> lang receivePropsRegex" "u = m @ rest"
    unfolding matchHere_lang by blast
  then obtain ws args where md: "m = ''componentWillReceiveProps'' @ ws @ ''('' @ args @ '')''"
      and p: "\<forall>x \<in> set ws. isSpace x" "args \<noteq> []" "CHR '')'' \<notin> set args"
    unfolding lang_receiveProps by blast
  have "u = ''componentWillReceiveProps'' @ ws @ ''('' @ args @ '')'' @ rest"
    unfolding \<open>u = m @ rest\<close> md by (simp only: append_assoc)
  then have "u = ''componentWillReceiveProps'' @ ws @ ''('' @ args @ '')'' @ rest \<and>
      (\<forall>x \<in> set ws. isSpace x) \<and> args \<noteq> [] \<and> CHR '')'' \<notin> set args"
    using p by blast
  then show "\<exists>ws args rest. u = ''componentWillReceiveProps'' @ ws @ ''('' @ args @ '')'' @ rest \<and>
      (\<forall>x \<in> set ws. isSpace x) \<and> args \<noteq> [] \<and> CHR '')'' \<notin> set args"
    by blast
next
  assume "\<exists>ws args rest. u = ''componentWillReceiveProps'' @ ws @ ''('' @ args @ '')'' @ rest \<and>
      (\<forall>x \<in> set ws. isSpace x) \<and> args \<noteq> [] \<and> CHR '')'' \<notin> set args"
  then obtain ws args rest where
    d: "u = ''componentWillReceiveProps'' @ ws @ ''('' @ args @ '')'' @ rest"
      "\<forall>x \<in> set ws. isSpace x" "args \<noteq> []" "CHR '')'' \<notin> set args"
    by blast
  let ?m = "''componentWillReceiveProps'' @ ws @ ''('' @ args @ '')''"
  have "?m \<in> lang receivePropsRegex" unfolding lang_receiveProps using d(2,3,4) by blast
  moreover have "u = ?m @ rest" using d(1) by (simp only: append_assoc)
  ultimately show "matchHere receivePropsRegex u \<noteq> None" unfolding matchHere_lang by blast
qed

lemma receiveProps_match_prefix:
  assumes "matchHere receivePropsRegex u \<noteq> None"
  shows "prefix ''componentWillReceiveProps'' u"
proof -
  from assms obtain ws args rest where
    "u = ''componentWillReceiveProps'' @ ws @ ''('' @ args @ '')'' @ rest"
    unfolding receiveProps_match_iff by blast
  then show ?thesis by (rule prefixI)
qed

lemma receiveProps_no_match_head:
  assumes "c \<noteq> CHR ''c''"
  shows "matchHere receivePropsRegex (c # u) = None"
proof (rule ccontr)
  assume "matchHere receivePropsRegex (c # u) \<noteq> None"
  then have "prefix ''componentWillReceiveProps'' (c # u)" by (rule receiveProps_match_prefix)
  then show False using assms by simp
qed

lemma receiveProps_no_match_did:
  "matchHere receivePropsRegex (CHR ''c'' # CHR ''o'' # CHR ''m'' # CHR ''p'' # CHR ''o'' #
     CHR ''n'' # CHR ''e'' # CHR ''n'' # CHR ''t'' # CHR ''D'' # u) = None"
proof (rule ccontr)
  assume "matchHere receivePropsRegex (CHR ''c'' # CHR ''o'' # CHR ''m'' # CHR ''p'' # CHR ''o'' #
     CHR ''n'' # CHR ''e'' # CHR ''n'' # CHR ''t'' # CHR ''D'' # u) \<noteq> None"
  then have "prefix ''componentWillReceiveProps'' (CHR ''c'' # CHR ''o'' # CHR ''m'' # CHR ''p'' #
     CHR ''o'' # CHR ''n'' # CHR ''e'' # CHR ''n'' # CHR ''t'' # CHR ''D'' # u)"
    by (rule receiveProps_match_prefix)
  then show False by simp
qed

lemma receiveProps_skip_did:
  "regexTest receivePropsRegex (''componentDidMount'' @ w) = regexTest receivePropsRegex w"
  by (simp add: receiveProps_no_match_head receiveProps_no_match_did del: not_None_eq)

lemma regexTest_drop: "regexTest r (drop n s) \<Longrightarrow> regexTest r s"
proof (induction s arbitrary: n)
  case Nil
  then show ?case by simp
next
  case (Cons x xs)
  then show ?case by (cases n) (auto simp del: not_None_eq)
qed

lemma regexTest_here: "matchHere r s \<noteq> None \<Longrightarrow> regexTest r s"
  by (cases s) (auto simp del: not_None_eq)


lemma willMount_step:
  "prefix ''componentWillMount'' (x # xs) \<Longrightarrow>
     replaceAll (Lit ''componentWillMount'') (\<lambda>m c. ''componentDidMount'') (x # xs) =
     ''componentDidMount'' @
     replaceAll (Lit ''componentWillMount'') (\<lambda>m c. ''componentDidMount'') (drop 18 (x # xs))"
  "\<not> prefix ''componentWillMount'' (x # xs) \<Longrightarrow>
     replaceAll (Lit ''componentWillMount'') (\<lambda>m c. ''componentDidMount'') (x # xs) =
     x # replaceAll (Lit ''componentWillMount'') (\<lambda>m c. ''componentDidMount'') xs"
proof -
  have len: "length ''componentWillMount'' = 18" by simp
  have ne: "''componentWillMount'' \<noteq> []" by simp
  note E = replaceAll_Lit_Cons [OF ne, of "\<lambda>m c. ''componentDidMount''" x xs]
  show "prefix ''componentWillMount'' (x # xs) \<Longrightarrow>
     replaceAll (Lit ''componentWillMount'') (\<lambda>m c. ''componentDidMount'') (x # xs) =
     ''componentDidMount'' @
     replaceAll (Lit ''componentWillMount'') (\<lambda>m c. ''componentDidMount'') (drop 18 (x # xs))"
    using E unfolding len by (simp only: if_True)
  show "\<not> prefix ''componentWillMount'' (x # xs) \<Longrightarrow>
     replaceAll (Lit ''componentWillMount'') (\<lambda>m c. ''componentDidMount'') (x # xs) =
     x # replaceAll (Lit ''componentWillMount'') (\<lambda>m c. ''componentDidMount'') xs"
    using E by (simp only: if_False)
qed


lemma willMount_name_pull:
  assumes "replaceAll (Lit ''componentWillMount'') (\<lambda>m c. ''componentDidMount'') s =
           ''componentWillReceiveProps'' @ v"
  shows "\<exists>s'. s = ''componentWillReceiveProps'' @ s' \<and>
           replaceAll (Lit ''componentWillMount'') (\<lambda>m c. ''componentDidMount'') s' = v"
proof -
  let ?f = "replaceAll (Lit ''componentWillMount'') (\<lambda>m c. ''componentDidMount'')"
  have ne: "''componentWillMount'' \<noteq> []" by simp
  have hd: "(\<lambda>m c. ''componentDidMount'') ''componentWillMount'' [] =
            CHR ''c'' # ''omponentDidMount''" by simp
  have e1: "?f s = (CHR ''c'' # ''omponentW'') @ (''illReceiveProps'' @ v)" using assms by simp
  have n1: "\<not> prefix ((\<lambda>m c. ''componentDidMount'') ''componentWillMount'' [])
              (CHR ''c'' # ''omponentW'')" by simp
  have n2: "\<not> prefix (CHR ''c'' # ''omponentW'')
              ((\<lambda>m c. ''componentDidMount'') ''componentWillMount'' [])" by simp
  from subst_pull_head [OF ne n1 n2 e1]
  obtain s1 where s1: "s = CHR ''c'' # s1" "?f s1 = ''omponentW'' @ (''illReceiveProps'' @ v)"
    by blast
  have e2: "?f s1 = ''omponentWillRe'' @ (''ceiveProps'' @ v)" using s1(2) by simp
  have c2: "CHR ''c'' \<notin> set ''omponentWillRe''" by simp
  from subst_pull [OF ne hd e2 c2]
  obtain s2 where s2: "s1 = ''omponentWillRe'' @ s2" "?f s2 = ''ceiveProps'' @ v" by blast
  have e3: "?f s2 = (CHR ''c'' # ''e'') @ (''iveProps'' @ v)" using s2(2) by simp
  have n3: "\<not> prefix ((\<lambda>m c. ''componentDidMount'') ''componentWillMount'' [])
              (CHR ''c'' # ''e'')" by simp
  have n4: "\<not> prefix (CHR ''c'' # ''e'')
              ((\<lambda>m c. ''componentDidMount'') ''componentWillMount'' [])" by simp
  from subst_pull_head [OF ne n3 n4 e3]
  obtain s3 where s3: "s2 = CHR ''c'' # s3" "?f s3 = ''e'' @ (''iveProps'' @ v)" by blast
  have e4: "?f s3 = ''eiveProps'' @ v" using s3(2) by simp
  have c4: "CHR ''c'' \<notin> set ''eiveProps''" by simp
  from subst_pull [OF ne hd e4 c4]
  obtain s4 where s4: "s3 = ''eiveProps'' @ s4" "?f s4 = v" by blast
  have "s = ''componentWillReceiveProps'' @ s4" using s1(1) s2(1) s3(1) s4(1) by simp
  then show ?thesis using s4(2) by blast
qed

lemma isSpace_not_c: "isSpace x \<Longrightarrow> x \<noteq> CHR ''c''"
  by (auto simp: isSpace_def)

lemma willMount_match_pull:
  assumes "matchHere receivePropsRegex
             (replaceAll (Lit ''componentWillMount'') (\<lambda>m c. ''componentDidMount'') s) \<noteq> None"
  shows "matchHere receivePropsRegex s \<noteq> None"
proof -
  let ?f = "replaceAll (Lit ''componentWillMount'') (\<lambda>m c. ''componentDidMount'')"
  have ne: "''componentWillMount'' \<noteq> []" by simp
  have hd: "(\<lambda>m c. ''componentDidMount'') ''componentWillMount'' [] =
            CHR ''c'' # ''omponentDidMount''" by simp
  from assms obtain ws args rest where
    d: "?f s = ''componentWillReceiveProps'' @ ws @ ''('' @ args @ '')'' @ rest"
       "\<forall>x \<in> set ws. isSpace x" "args \<noteq> []" "CHR '')'' \<notin> set args"
    unfolding receiveProps_match_iff by blast
  obtain s1 where s1: "s = ''componentWillReceiveProps'' @ s1"
      "?f s1 = ws @ ''('' @ args @ '')'' @ rest"
    using willMount_name_pull [OF d(1)] by blast
  have e2: "?f s1 = (ws @ ''('') @ (args @ '')'' @ rest)" using s1(2) by simp
  have c2: "CHR ''c'' \<notin> set (ws @ ''('')" using d(2) isSpace_not_c by auto
  from subst_pull [OF ne hd e2 c2]
  obtain s2 where s2: "s1 = (ws @ ''('') @ s2" "?f s2 = args @ '')'' @ rest" by blast
  have e3: "?f s2 = args @ CHR '')'' # rest" using s2(2) by simp
  have p1: "CHR '')'' \<notin> set ''componentWillMount''" by simp
  have p2: "CHR '')'' \<notin> set ((\<lambda>m c. ''componentDidMount'') ''componentWillMount'' [])" by simp
  have p3: "(\<lambda>m c. ''componentDidMount'') ''componentWillMount'' [] \<noteq> []" by simp
  from subst_pull_until [OF ne p1 p2 p3 e3 d(4)] d(3)
  obtain args' rest' where a: "s2 = args' @ CHR '')'' # rest'" "CHR '')'' \<notin> set args'"
      "args' \<noteq> []"
    by blast
  have "s = ''componentWillReceiveProps'' @ ws @ ''('' @ args' @ '')'' @ rest'"
    unfolding s1(1) s2(1) a(1) by simp
  then have "\<exists>ws args rest. s = ''componentWillReceiveProps'' @ ws @ ''('' @ args @ '')'' @ rest \<and>
      (\<forall>x \<in> set ws. isSpace x) \<and> args \<noteq> [] \<and> CHR '')'' \<notin> set args"
    using d(2) a(2,3) by blast
  then show ?thesis unfolding receiveProps_match_iff .
qed

lemma willMount_test_pull:
  "regexTest receivePropsRegex
     (replaceAll (Lit ''componentWillMount'') (\<lambda>m c. ''componentDidMount'') s) \<Longrightarrow>
   regexTest receivePropsRegex s"
proof (induction "length s" arbitrary: s rule: less_induct)
  case less
  let ?f = "replaceAll (Lit ''componentWillMount'') (\<lambda>m c. ''componentDidMount'')"
  show ?case
  proof (cases s)
    case Nil
    then show ?thesis using less.prems by (simp add: replaceAll_Lit_Nil)
  next
    case (Cons x xs)
    show ?thesis
    proof (cases "prefix ''componentWillMount'' (x # xs)")
      case True
      have "?f s = ''componentDidMount'' @ ?f (drop 18 s)"
        unfolding Cons by (rule willMount_step(1) [OF True])
      then have "regexTest receivePropsRegex (?f (drop 18 s))"
        using less.prems receiveProps_skip_did by simp
      moreover have "length (drop 18 s) < length s" using Cons by simp
      ultimately have "regexTest receivePropsRegex (drop 18 s)" using less.hyps by blast
      then show ?thesis by (rule regexTest_drop)
    next
      case False
      have e: "?f s = x # ?f xs" unfolding Cons by (rule willMount_step(2) [OF False])
      have "regexTest receivePropsRegex (x # ?f xs)" using less.prems e by (simp only:)
      then consider "matchHere receivePropsRegex (x # ?f xs) \<noteq> None"
        | "regexTest receivePropsRegex (?f xs)"
        unfolding regexTest.simps by blast
      then show ?thesis
      proof cases
        case 1
        then have "matchHere receivePropsRegex (?f s) \<noteq> None" unfolding e .
        then have "matchHere receivePropsRegex s \<noteq> None" by (rule willMount_match_pull)
        then show ?thesis by (rule regexTest_here)
      next
        case 2
        have "length xs < length s" using Cons by simp
        then have "regexTest receivePropsRegex xs" using less.hyps [of xs] 2 by blast
        then show ?thesis unfolding Cons regexTest.simps by blast
      qed
    qed
  qed
qed

section \<open>Properties of the peer-dependency check\<close>

lemma matchHere_Cls:
  "matchHere (Cls k) s = (case s of [] \<Rightarrow> None | x # xs \<Rightarrow> if cmatch k x then Some (1, []) else None)"
  by (cases s) (auto simp: matchHere_def)

lemma replaceFirst_Cls_skip:
  "\<forall>x \<in> set a. \<not> cmatch k x \<Longrightarrow>
   replaceFirst (Cls k) f (a @ b) = a @ replaceFirst (Cls k) f b"
  by (induction a) (auto simp: matchHere_Cls)

lemma replaceFirst_Cls_hit:
  "cmatch k x \<Longrightarrow> replaceFirst (Cls k) f (x # b) = f [x] [] @ b"
  by (simp add: matchHere_Cls)

lemma replaceFirst_Cls_Cons_miss:
  "\<not> cmatch k x \<Longrightarrow> replaceFirst (Cls k) f (x # b) = x # replaceFirst (Cls k) f b"
  by (simp add: matchHere_Cls)

lemma digit_facts:
  assumes "radixDigit 10 c \<noteq> None"
  shows "c \<noteq> CHR ''.''" "c \<noteq> CHR ''^''" "c \<noteq> CHR ''~''" "\<not> isSpace c"
    "c \<noteq> CHR ''-''" "c \<noteq> CHR ''+''" "c \<noteq> CHR ''x''" "c \<noteq> CHR ''X''"
  using assms
  by (auto simp: radixDigit_def digitOf_def isSpace_def Let_def split: if_splits option.splits)

lemma parseInt_leading_digits:
  assumes "ds \<noteq> []" and "\<forall>c \<in> set ds. radixDigit 10 c \<noteq> None"
    and "digitsValue 10 ds < 2 ^ 53"
    and "Y = [] \<or> (radixDigit 10 (hd Y) = None \<and> hd Y \<noteq> CHR ''x'' \<and> hd Y \<noteq> CHR ''X'')"
  shows "parseInt (ds @ Y) = Finite (int (digitsValue 10 ds))"
proof -
  obtain d ds' where ds: "ds = d # ds'" using assms(1) by (cases ds) auto
  have d: "radixDigit 10 d \<noteq> None" using assms(2) ds by simp
  have 1: "dropWhile isSpace (ds @ Y) = ds @ Y" using digit_facts(4) [OF d] ds by simp
  have 2: "(case ds @ Y of [] \<Rightarrow> (False, []) | c # r \<Rightarrow> if c = CHR ''-'' then (True, r)
             else if c = CHR ''+'' then (False, r) else (False, ds @ Y)) = (False, ds @ Y)"
    using digit_facts(5,6) [OF d] ds by simp
  have 3: "(case ds @ Y of a # b # r \<Rightarrow> if a = CHR ''0'' \<and> (b = CHR ''x'' \<or> b = CHR ''X'')
              then (16::nat, r) else (10, ds @ Y) | _ \<Rightarrow> (10, ds @ Y)) = (10, ds @ Y)"
  proof (cases "ds' @ Y")
    case Nil
    then show ?thesis using ds by simp
  next
    case (Cons b r)
    have "b \<noteq> CHR ''x'' \<and> b \<noteq> CHR ''X''"
    proof (cases ds')
      case Nil
      then have "Y = b # r" using Cons by simp
      then show ?thesis using assms(4) by auto
    next
      case (Cons b' r')
      then have "b' = b" using \<open>ds' @ Y = b # r\<close> by simp
      then have "radixDigit 10 b \<noteq> None" using assms(2) ds Cons by simp
      then show ?thesis using digit_facts(7,8) by blast
    qed
    then show ?thesis using ds Cons by simp
  qed
  have 4: "takeWhile (\<lambda>c. radixDigit 10 c \<noteq> None) (ds @ Y) = ds"
  proof (cases Y)
    case Nil
    then show ?thesis using assms(2) by simp
  next
    case (Cons y ys)
    then have "radixDigit 10 y = None" using assms(4) by simp
    then show ?thesis using assms(2) Cons by (simp add: takeWhile_append2)
  qed
  show ?thesis
    unfolding parseInt_def 1 Let_def 2 3 prod.case 4
    using assms(1,3) by (simp add: toDouble_def)
qed

lemma replaceFirst_Cls_head:
  "s = [] \<or> \<not> cmatch k (hd s) \<Longrightarrow>
   \<exists>X. replaceFirst (Cls k) f s = X \<and> (if s = [] then X = [] else X \<noteq> [] \<and> hd X = hd s)"
  by (cases s) (auto simp: matchHere_Cls)

lemma majorOf_leading_digits:
  assumes "p = [] \<or> p = ''^'' \<or> p = ''~''"
    and "ds \<noteq> []" and "\<forall>c \<in> set ds. radixDigit 10 c \<noteq> None"
    and "digitsValue 10 ds < 2 ^ 53"
    and "rest = [] \<or> (radixDigit 10 (hd rest) = None \<and> hd rest \<notin> set ''^~xX'')"
  shows "majorOf (p @ ds @ rest) = Finite (int (digitsValue 10 ds))"
proof -
  let ?k = "OneOf ''^~''"
  let ?f = "\<lambda>(m::string) (c::caps). []::string"
  let ?ok = "\<lambda>X. X = [] \<or> (radixDigit 10 (hd X) = None \<and> hd X \<noteq> CHR ''x'' \<and> hd X \<noteq> CHR ''X'')"
  have nd: "\<forall>x \<in> set ds. \<not> cmatch ?k x" using assms(3) digit_facts(2,3) by auto
  have nodot: "\<forall>x \<in> set ds. x \<noteq> CHR ''.''" using assms(3) digit_facts(1) by auto
  have rest_ok: "?ok rest" using assms(5) by auto
  have "\<exists>X. replaceFirst (Cls ?k) ?f (p @ ds @ rest) = ds @ X \<and> ?ok X"
  proof -
    have tail: "\<exists>X. replaceFirst (Cls ?k) ?f (ds @ rest) = ds @ X \<and> ?ok X"
    proof -
      have "rest = [] \<or> \<not> cmatch ?k (hd rest)" using assms(5) by auto
      from replaceFirst_Cls_head [OF this, of ?f]
      obtain X where X: "replaceFirst (Cls ?k) ?f rest = X"
          "if rest = [] then X = [] else X \<noteq> [] \<and> hd X = hd rest" by blast
      have "?ok X" using X(2) rest_ok by (cases "rest = []") auto
      then show ?thesis using replaceFirst_Cls_skip [OF nd, of ?f rest] X(1) by simp
    qed
    from assms(1) consider "p = []" | "p = ''^''" | "p = ''~''" by blast
    then show ?thesis
    proof cases
      case 1
      then show ?thesis using tail by simp
    next
      case 2
      have "replaceFirst (Cls ?k) ?f (p @ ds @ rest) = ds @ rest"
        unfolding 2 by (simp add: matchHere_Cls)
      then show ?thesis using rest_ok by blast
    next
      case 3
      have "replaceFirst (Cls ?k) ?f (p @ ds @ rest) = ds @ rest"
        unfolding 3 by (simp add: matchHere_Cls)
      then show ?thesis using rest_ok by blast
    qed
  qed
  then obtain X where X: "replaceFirst (Cls ?k) ?f (p @ ds @ rest) = ds @ X" "?ok X" by blast
  define Y where "Y = takeWhile (\<lambda>c. c \<noteq> CHR ''.'') X"
  have seg: "takeWhile (\<lambda>c. c \<noteq> CHR ''.'') (ds @ X) = ds @ Y"
    using nodot by (simp add: Y_def takeWhile_append2)
  have "?ok Y"
  proof (cases X)
    case Nil
    then show ?thesis by (simp add: Y_def)
  next
    case (Cons y ys)
    then show ?thesis using X(2) by (cases "y = CHR ''.''") (auto simp: Y_def)
  qed
  then have "parseInt (ds @ Y) = Finite (int (digitsValue 10 ds))"
    by (rule parseInt_leading_digits [OF assms(2,3,4)])
  then show ?thesis
    unfolding majorOf_def X(1) Let_def seg using assms(2) by simp
qed

lemma majorOf_nonnumeric:
  assumes "p = [] \<or> p = ''^'' \<or> p = ''~''"
    and "radixDigit 10 c = None" and "\<not> isSpace c" and "c \<notin> set ''+-.^~''"
  shows "majorOf (p @ c # rest) = NaN"
proof -
  let ?k = "OneOf ''^~''"
  let ?f = "\<lambda>(m::string) (c::caps). []::string"
  have nc: "\<not> cmatch ?k c" using assms(4) by auto
  have "\<exists>X. replaceFirst (Cls ?k) ?f (p @ c # rest) = c # X"
  proof -
    from assms(1) consider "p = []" | "p = ''^''" | "p = ''~''" by blast
    then show ?thesis
    proof cases
      case 1
      then show ?thesis using replaceFirst_Cls_Cons_miss [OF nc, of ?f rest] by simp
    next
      case 2
      show ?thesis unfolding 2 by (simp add: matchHere_Cls)
    next
      case 3
      show ?thesis unfolding 3 by (simp add: matchHere_Cls)
    qed
  qed
  then obtain X where X: "replaceFirst (Cls ?k) ?f (p @ c # rest) = c # X" by blast
  define Y where "Y = takeWhile (\<lambda>c. c \<noteq> CHR ''.'') X"
  have cdot: "c \<noteq> CHR ''.''" using assms(4) by auto
  have seg: "takeWhile (\<lambda>c. c \<noteq> CHR ''.'') (c # X) = c # Y" using cdot by (simp add: Y_def)
  have c0: "c \<noteq> CHR ''0''" using assms(2) by (auto simp: radixDigit_def digitOf_def)
  have 1: "dropWhile isSpace (c # Y) = c # Y" using assms(3) by simp
  have 2: "(case c # Y of [] \<Rightarrow> (False, []) | c' # r \<Rightarrow> if c' = CHR ''-'' then (True, r)
             else if c' = CHR ''+'' then (False, r) else (False, c # Y)) = (False, c # Y)"
    using assms(4) by auto
  have 3: "(case c # Y of a # b # r \<Rightarrow> if a = CHR ''0'' \<and> (b = CHR ''x'' \<or> b = CHR ''X'')
              then (16::nat, r) else (10, c # Y) | _ \<Rightarrow> (10, c # Y)) = (10, c # Y)"
    using c0 by (cases Y) auto
  have 4: "takeWhile (\<lambda>c. radixDigit 10 c \<noteq> None) (c # Y) = []" using assms(2) by simp
  have "parseInt (c # Y) = NaN"
    unfolding parseInt_def 1 Let_def 2 3 prod.case 4 by simp
  then show ?thesis
    unfolding majorOf_def X Let_def seg by simp
qed

lemma keys_spread: "fst ` set (spread base sec) = fst ` set base \<union> keys sec"
proof (cases sec)
  case None
  then show ?thesis by (simp add: spread_def keys_def)
next
  case (Some m)
  have "fst ` set (fold (\<lambda>(k, v) acc. AList.update k v acc) m base) = fst ` set base \<union> fst ` set m"
    for base
  proof (induction m arbitrary: base)
    case Nil
    show ?case by simp
  next
    case (Cons kv m)
    obtain k v where kv: "kv = (k, v)" by (cases kv)
    show ?case using Cons [of "AList.update k v base"] kv by (auto simp: dom_update)
  qed
  then show ?thesis using Some by (simp add: spread_def keys_def)
qed

lemma keys_allDeps:
  "set (map fst (allDeps pj)) = keys (dependencies pj) \<union> keys (devDependencies pj)"
  by (simp add: allDeps_def keys_spread)

lemma peerCheck_frame:
  "nodeModules (snd (peerCheck t pkg (cs, w))) = nodeModules w \<and>
   packageJsonFile (snd (peerCheck t pkg (cs, w))) = packageJsonFile w \<and>
   npmInstallError (snd (peerCheck t pkg (cs, w))) = npmInstallError w \<and>
   set cs \<subseteq> set (fst (peerCheck t pkg (cs, w)))"
  by (auto simp: peerCheck_def traced_def Let_def split: option.splits peerFile.splits)

lemma fold_peerCheck_frame:
  "nodeModules (snd (fold (peerCheck t) names (cs, w))) = nodeModules w \<and>
   packageJsonFile (snd (fold (peerCheck t) names (cs, w))) = packageJsonFile w \<and>
   npmInstallError (snd (fold (peerCheck t) names (cs, w))) = npmInstallError w \<and>
   set cs \<subseteq> set (fst (fold (peerCheck t) names (cs, w)))"
proof (induction names arbitrary: cs w)
  case Nil
  show ?case by simp
next
  case (Cons n names)
  obtain cs' w' where s: "peerCheck t n (cs, w) = (cs', w')" by (cases "peerCheck t n (cs, w)")
  show ?case using Cons.IH [of cs' w'] peerCheck_frame [of t n cs w] s by auto
qed

lemma peerCheck_hit:
  assumes "strIncludes pkg ''react''" "pkg \<noteq> ''react''" "pkg \<noteq> ''react-dom''"
    and "nodeModules w pkg = Some (PeerParsed (Some peer))" "peer \<noteq> []"
    and "\<not> isVersionCompatible (''^'' @ targetVersion t) peer"
  shows "conflictLine pkg peer (''^'' @ targetVersion t) \<in> set (fst (peerCheck t pkg (cs, w)))"
  using assms by (simp add: peerCheck_def Let_def)

lemma fold_peerCheck_hit:
  assumes "strIncludes pkg ''react''" "pkg \<noteq> ''react''" "pkg \<noteq> ''react-dom''"
    and "peer \<noteq> []" "\<not> isVersionCompatible (''^'' @ targetVersion t) peer"
  shows "pkg \<in> set names \<Longrightarrow> nodeModules w pkg = Some (PeerParsed (Some peer)) \<Longrightarrow>
     conflictLine pkg peer (''^'' @ targetVersion t) \<in> set (fst (fold (peerCheck t) names (cs, w)))"
proof (induction names arbitrary: cs w)
  case Nil
  then show ?case by simp
next
  case (Cons n names)
  obtain cs' w' where s: "peerCheck t n (cs, w) = (cs', w')" by (cases "peerCheck t n (cs, w)")
  have nm: "nodeModules w' pkg = Some (PeerParsed (Some peer))"
    using peerCheck_frame [of t n cs w] s Cons.prems(2) by simp
  show ?case
  proof (cases "n = pkg")
    case True
    have "conflictLine pkg peer (''^'' @ targetVersion t) \<in> set cs'"
      using peerCheck_hit [OF assms(1,2,3) Cons.prems(2) assms(4,5), of cs] s True by simp
    then show ?thesis using fold_peerCheck_frame [of t names cs' w'] s by auto
  next
    case False
    then have "pkg \<in> set names" using Cons.prems(1) by simp
    then show ?thesis using Cons.IH [OF _ nm, of cs'] s by simp
  qed
qed

lemma majorOf_missing:
  assumes "p = [] \<or> p = ''^'' \<or> p = ''~''" and "rest = [] \<or> hd rest = CHR ''.''"
  shows "majorOf (p @ rest) = Finite 0"
proof -
  let ?k = "OneOf ''^~''"
  let ?f = "\<lambda>(m::string) (c::caps). []::string"
  have tail: "takeWhile (\<lambda>c. c \<noteq> CHR ''.'') (replaceFirst (Cls ?k) ?f rest) = []"
  proof (cases rest)
    case Nil
    then show ?thesis by (simp add: matchHere_Cls)
  next
    case (Cons r rs)
    then have r: "r = CHR ''.''" using assms(2) by simp
    have "replaceFirst (Cls ?k) ?f (CHR ''.'' # rs) = CHR ''.'' # replaceFirst (Cls ?k) ?f rs"
      by (rule replaceFirst_Cls_Cons_miss) simp
    then show ?thesis using Cons r by simp
  qed
  have direct: "takeWhile (\<lambda>c. c \<noteq> CHR ''.'') rest = []"
    using assms(2) by (cases rest) auto
  have seg: "takeWhile (\<lambda>c. c \<noteq> CHR ''.'') (replaceFirst (Cls ?k) ?f (p @ rest)) = []"
  proof -
    from assms(1) consider "p = []" | "p = ''^''" | "p = ''~''" by blast
    then show ?thesis
    proof cases
      case 1
      then show ?thesis using tail by simp
    next
      case 2
      have "replaceFirst (Cls ?k) ?f (p @ rest) = rest" unfolding 2 by (simp add: matchHere_Cls)
      then show ?thesis using direct by simp
    next
      case 3
      have "replaceFirst (Cls ?k) ?f (p @ rest) = rest" unfolding 3 by (simp add: matchHere_Cls)
      then show ?thesis using direct by simp
    qed
  qed
  have zero: "parseInt ''0'' = Finite 0"
    by (simp add: parseInt_def isSpace_def radixDigit_def digitOf_def digitsValue_def toDouble_def)
  show ?thesis unfolding majorOf_def Let_def seg using zero by simp
qed

section \<open>Manifests that hold the core packages only\<close>

lemma fold_updateRelated_untouched:
  "\<forall>pv \<in> set ps. \<not> truthy (entry (dependencies pj) (fst pv)) \<and>
                   \<not> truthy (entry (devDependencies pj) (fst pv)) \<Longrightarrow>
   fold updateRelated ps pj = pj"
  by (induction ps) (auto simp: updateRelated_def split: prod.splits)

lemma updatedManifest_core_only:
  assumes "dependencies pj = Some m" and "fst ` set m \<subseteq> {''react'', ''react-dom''}"
    and "devDependencies pj = None"
  shows "updatedManifest tv pj = updateCore tv pj"
proof -
  have k: "keys (dependencies (updateCore tv pj)) = fst ` set m"
    using updateCore_shape [of tv pj] assms(1) by (simp add: keys_simps)
  have d: "devDependencies (updateCore tv pj) = None"
    using updateCore_dev [of tv pj] assms(3) by simp
  have "\<forall>pv \<in> set (getReactRelatedPackages tv).
          \<not> truthy (entry (dependencies (updateCore tv pj)) (fst pv)) \<and>
          \<not> truthy (entry (devDependencies (updateCore tv pj)) (fst pv))"
  proof
    fix pv assume pv: "pv \<in> set (getReactRelatedPackages tv)"
    have "''react'' \<notin> fst ` set (getReactRelatedPackages tv)"
      "''react-dom'' \<notin> fst ` set (getReactRelatedPackages tv)"
      using core_not_related [of tv] by (simp_all add: map_of_eq_None_iff)
    then have "fst pv \<noteq> ''react'' \<and> fst pv \<noteq> ''react-dom''" using pv by force
    then have "fst pv \<notin> keys (dependencies (updateCore tv pj))" using k assms(2) by auto
    then have "\<not> truthy (entry (dependencies (updateCore tv pj)) (fst pv))"
      using truthy_in_keys by blast
    then show "\<not> truthy (entry (dependencies (updateCore tv pj)) (fst pv)) \<and>
          \<not> truthy (entry (devDependencies (updateCore tv pj)) (fst pv))"
      using d by (simp add: entry_simps truthy_simps)
  qed
  then show ?thesis unfolding updatedManifest_def by (rule fold_updateRelated_untouched)
qed

section \<open>A dry run next to a real run\<close>

text \<open>
  Two entries of the fix log say the same, one of a real run and one of a dry run: they
  are the same text, or the dry run's entry is the \<^verbatim>\<open>Would ...\<close> form of the real run's.
\<close>

definition equivEntry :: "string \<Rightarrow> string \<Rightarrow> bool" where
  "equivEntry real dry =
     (real = dry \<or>
      (real = ''Updated package.json with new React versions'' \<and>
       dry = ''Would update package.json with new React versions (dry run)'') \<or>
      (prefix ''Transformed '' real \<and>
       dry = ''Would transform '' @ drop 12 real @ '' (dry run)''))"

text \<open>
  A real run and a dry run at the same point of the migration: the instances agree but for
  the dry-run option and the logs; past the given prefixes the fix logs match entry by
  entry and the issue logs are the same.
\<close>

definition sim :: "string list \<Rightarrow> string list \<Rightarrow> string list \<Rightarrow> string list \<Rightarrow> tool \<Rightarrow> tool \<Rightarrow> bool" where
  "sim fr fd ir idr tr td =
     (targetVersion tr = targetVersion td \<and> projectRoot tr = projectRoot td \<and>
      reactFiles tr = reactFiles td \<and>
      \<not> dryRun (options tr) \<and> dryRun (options td) \<and>
      (\<exists>F F'. fixes' tr = fr @ F \<and> fixes' td = fd @ F' \<and> list_all2 equivEntry F F') \<and>
      (\<exists>I. issues tr = ir @ I \<and> issues td = idr @ I))"

lemma equivEntry_refl: "equivEntry e e"
  by (simp add: equivEntry_def)

lemma equivEntry_transformed:
  "equivEntry (''Transformed '' @ fileName) (''Would transform '' @ fileName @ '' (dry run)'')"
  by (simp add: equivEntry_def)

lemma sim_pushFix:
  assumes "sim fr fd ir idr tr td" and "equivEntry a b"
  shows "sim fr fd ir idr (pushFix a tr) (pushFix b td)"
proof -
  from assms(1) obtain F F' where F: "fixes' tr = fr @ F" "fixes' td = fd @ F'"
      "list_all2 equivEntry F F'" unfolding sim_def by blast
  have "fixes' (pushFix a tr) = fr @ (F @ [a])" "fixes' (pushFix b td) = fd @ (F' @ [b])"
    "list_all2 equivEntry (F @ [a]) (F' @ [b])"
    using F assms(2) by (simp_all add: pushFix_def list_all2_appendI)
  then have "\<exists>G G'. fixes' (pushFix a tr) = fr @ G \<and> fixes' (pushFix b td) = fd @ G' \<and>
      list_all2 equivEntry G G'" by blast
  then show ?thesis using assms(1) unfolding sim_def by (simp add: pushFix_def)
qed

lemma sim_pushFix_same: "sim fr fd ir idr tr td \<Longrightarrow> sim fr fd ir idr (pushFix e tr) (pushFix e td)"
  by (rule sim_pushFix) (simp_all add: equivEntry_refl)

lemma sim_pushIssue:
  assumes "sim fr fd ir idr tr td"
  shows "sim fr fd ir idr (pushIssue e tr) (pushIssue e td)"
proof -
  from assms obtain I where I: "issues tr = ir @ I" "issues td = idr @ I"
    unfolding sim_def by blast
  have "issues (pushIssue e tr) = ir @ (I @ [e])" "issues (pushIssue e td) = idr @ (I @ [e])"
    using I by (simp_all add: pushIssue_def)
  then have "\<exists>J. issues (pushIssue e tr) = ir @ J \<and> issues (pushIssue e td) = idr @ J" by blast
  then show ?thesis using assms unfolding sim_def by (simp add: pushIssue_def)
qed

lemma sim_fields:
  assumes "sim fr fd ir idr tr td"
  shows "targetVersion tr = targetVersion td" "projectRoot tr = projectRoot td"
    "reactFiles tr = reactFiles td" "\<not> dryRun (options tr)" "dryRun (options td)"
  using assms by (simp_all add: sim_def)

lemma render_sim:
  "sim fr fd ir idr tr td \<Longrightarrow>
   fst (transformReactDOMRender c fn tr) = fst (transformReactDOMRender c fn td) \<and>
   sim fr fd ir idr (snd (transformReactDOMRender c fn tr)) (snd (transformReactDOMRender c fn td))"
  by (simp add: transformReactDOMRender_def Let_def sim_pushFix_same)

lemma lifecycle_sim:
  "sim fr fd ir idr tr td \<Longrightarrow>
   fst (transformLifecycleMethods c fn tr) = fst (transformLifecycleMethods c fn td) \<and>
   sim fr fd ir idr (snd (transformLifecycleMethods c fn tr)) (snd (transformLifecycleMethods c fn td))"
  by (simp add: transformLifecycleMethods_def Let_def sim_pushFix_same)

lemma events_sim:
  "sim fr fd ir idr tr td \<Longrightarrow>
   fst (transformEventHandlers c fn tr) = fst (transformEventHandlers c fn td) \<and>
   sim fr fd ir idr (snd (transformEventHandlers c fn tr)) (snd (transformEventHandlers c fn td))"
  by (simp add: transformEventHandlers_def sim_pushIssue)

lemma propTypes_sim:
  "sim fr fd ir idr tr td \<Longrightarrow>
   fst (transformPropTypes c fn tr) = fst (transformPropTypes c fn td) \<and>
   sim fr fd ir idr (snd (transformPropTypes c fn tr)) (snd (transformPropTypes c fn td))"
  by (simp add: transformPropTypes_def Let_def sim_pushFix_same)

lemma reactFC_sim:
  "sim fr fd ir idr tr td \<Longrightarrow>
   fst (transformReactFC c fn tr) = fst (transformReactFC c fn td) \<and>
   sim fr fd ir idr (snd (transformReactFC c fn tr)) (snd (transformReactFC c fn td))"
  by (simp add: transformReactFC_def sim_pushIssue)

lemma applyRules_sim:
  assumes "sim fr fd ir idr tr td"
  shows "fst (applyRules c fn tr) = fst (applyRules c fn td) \<and>
         sim fr fd ir idr (snd (applyRules c fn tr)) (snd (applyRules c fn td))"
proof -
  define r1 where "r1 = (if jsGe (targetVersion tr) ''18'' then transformReactDOMRender c fn tr else (c, tr))"
  define d1 where "d1 = (if jsGe (targetVersion td) ''18'' then transformReactDOMRender c fn td else (c, td))"
  have s1: "fst r1 = fst d1 \<and> sim fr fd ir idr (snd r1) (snd d1)"
    using assms render_sim [OF assms, of c fn] sim_fields(1) [OF assms]
    by (simp add: r1_def d1_def)
  define r2 where "r2 = transformLifecycleMethods (fst r1) fn (snd r1)"
  define d2 where "d2 = transformLifecycleMethods (fst d1) fn (snd d1)"
  have s2: "fst r2 = fst d2 \<and> sim fr fd ir idr (snd r2) (snd d2)"
    using s1 lifecycle_sim [of fr fd ir idr "snd r1" "snd d1" "fst d1" fn]
    by (simp add: r2_def d2_def)
  define r3 where "r3 = transformEventHandlers (fst r2) fn (snd r2)"
  define d3 where "d3 = transformEventHandlers (fst d2) fn (snd d2)"
  have s3: "fst r3 = fst d3 \<and> sim fr fd ir idr (snd r3) (snd d3)"
    using s2 events_sim [of fr fd ir idr "snd r2" "snd d2" "fst d2" fn]
    by (simp add: r3_def d3_def)
  define r4 where "r4 = transformPropTypes (fst r3) fn (snd r3)"
  define d4 where "d4 = transformPropTypes (fst d3) fn (snd d3)"
  have s4: "fst r4 = fst d4 \<and> sim fr fd ir idr (snd r4) (snd d4)"
    using s3 propTypes_sim [of fr fd ir idr "snd r3" "snd d3" "fst d3" fn]
    by (simp add: r4_def d4_def)
  have s5: "fst (transformReactFC (fst r4) fn (snd r4)) = fst (transformReactFC (fst d4) fn (snd d4)) \<and>
      sim fr fd ir idr (snd (transformReactFC (fst r4) fn (snd r4)))
        (snd (transformReactFC (fst d4) fn (snd d4)))"
    using s4 reactFC_sim [of fr fd ir idr "snd r4" "snd d4" "fst d4" fn] by simp
  have er: "applyRules c fn tr = transformReactFC (fst r4) fn (snd r4)"
    by (simp add: applyRules_def Let_def split_def r1_def r2_def r3_def r4_def)
  have ed: "applyRules c fn td = transformReactFC (fst d4) fn (snd d4)"
    by (simp add: applyRules_def Let_def split_def d1_def d2_def d3_def d4_def)
  show ?thesis unfolding er ed using s5 .
qed

text \<open>Two projects that differ at most in the record of the calls made.\<close>

definition sameDisk :: "world \<Rightarrow> world \<Rightarrow> bool" where
  "sameDisk w w' = (w' = w\<lparr>trace := trace w'\<rparr>)"

lemma sameDisk_refl: "sameDisk w w"
  by (simp add: sameDisk_def)

lemma sameDisk_trans: "sameDisk w w' \<Longrightarrow> sameDisk w' w'' \<Longrightarrow> sameDisk w w''"
  unfolding sameDisk_def by (metis world.update_convs(11) world.surjective world.select_convs)

lemma sameDisk_traced: "sameDisk w (traced e w)"
  by (simp add: sameDisk_def traced_def)

lemma sameDisk_fields:
  assumes "sameDisk w w'"
  shows "packageJsonFile w' = packageJsonFile w" "srcDir w' = srcDir w" "sources w' = sources w"
    "tsconfigFile w' = tsconfigFile w" "jestConfigFile w' = jestConfigFile w"
    "eslintConfigFile w' = eslintConfigFile w" "babelConfigExists w' = babelConfigExists w"
    "webpackConfigExists w' = webpackConfigExists w" "nodeModules w' = nodeModules w"
    "npmInstallError w' = npmInstallError w"
proof -
  have e: "w' = w\<lparr>trace := trace w'\<rparr>" using assms by (simp add: sameDisk_def)
  show "packageJsonFile w' = packageJsonFile w" by (subst e) simp
  show "srcDir w' = srcDir w" by (subst e) simp
  show "sources w' = sources w" by (subst e) simp
  show "tsconfigFile w' = tsconfigFile w" by (subst e) simp
  show "jestConfigFile w' = jestConfigFile w" by (subst e) simp
  show "eslintConfigFile w' = eslintConfigFile w" by (subst e) simp
  show "babelConfigExists w' = babelConfigExists w" by (subst e) simp
  show "webpackConfigExists w' = webpackConfigExists w" by (subst e) simp
  show "nodeModules w' = nodeModules w" by (subst e) simp
  show "npmInstallError w' = npmInstallError w" by (subst e) simp
qed

text \<open>
  The second project is the first after some calls of \<^verbatim>\<open>readFileSync\<close> and no other
  call: nothing but the trace differs, and the trace has grown by reads only.
\<close>

definition isRead :: "io_event \<Rightarrow> bool" where
  "isRead e = (case e of ReadFile p \<Rightarrow> True | _ \<Rightarrow> False)"

definition readsOnly :: "world \<Rightarrow> world \<Rightarrow> bool" where
  "readsOnly w w' = (\<exists>evs. w' = w\<lparr>trace := trace w @ evs\<rparr> \<and> list_all isRead evs)"

lemma readsOnly_refl: "readsOnly w w"
  unfolding readsOnly_def by (rule exI [of _ "[]"]) simp

lemma readsOnly_traced: "readsOnly w (traced (ReadFile p) w)"
  unfolding readsOnly_def by (rule exI [of _ "[ReadFile p]"]) (simp add: traced_def isRead_def)

lemma readsOnly_trans:
  assumes "readsOnly w w'" and "readsOnly w' w''"
  shows "readsOnly w w''"
proof -
  from assms(1) obtain e1 where 1: "w' = w\<lparr>trace := trace w @ e1\<rparr>" "list_all isRead e1"
    unfolding readsOnly_def by blast
  from assms(2) obtain e2 where 2: "w'' = w'\<lparr>trace := trace w' @ e2\<rparr>" "list_all isRead e2"
    unfolding readsOnly_def by blast
  have "w'' = w\<lparr>trace := trace w @ (e1 @ e2)\<rparr>" by (subst 2(1), subst 1(1), subst 1(1)) simp
  moreover have "list_all isRead (e1 @ e2)" using 1(2) 2(2) by simp
  ultimately show ?thesis unfolding readsOnly_def by blast
qed

lemma readsOnly_sameDisk: "readsOnly w w' \<Longrightarrow> sameDisk w w'"
  unfolding readsOnly_def sameDisk_def by auto

text \<open>The configuration files of two projects are the same.\<close>

definition sameConfig :: "world \<Rightarrow> world \<Rightarrow> bool" where
  "sameConfig w w' =
     (tsconfigFile w' = tsconfigFile w \<and> jestConfigFile w' = jestConfigFile w \<and>
      eslintConfigFile w' = eslintConfigFile w \<and> babelConfigExists w' = babelConfigExists w \<and>
      webpackConfigExists w' = webpackConfigExists w)"

lemma sameDisk_sameConfig: "sameDisk w w' \<Longrightarrow> sameConfig w w'"
  using sameDisk_fields [of w w'] by (simp add: sameConfig_def)

subsection \<open>\<^verbatim>\<open>transformFile\<close>\<close>

lemma transformFile_dry:
  "dryRun (options t) \<Longrightarrow> readsOnly w (snd (snd (transformFile f t w)))"
  by (cases "sources w f")
     (simp_all add: transformFile_def Let_def split_def readsOnly_refl readsOnly_traced)

lemma transformFile_real_frame:
  "sameConfig w (snd (snd (transformFile f t w))) \<and>
   (\<forall>g. g \<noteq> f \<longrightarrow> sources (snd (snd (transformFile f t w))) g = sources w g)"
  by (cases "sources w f")
     (simp_all add: transformFile_def Let_def split_def sameConfig_def traced_def)

lemma transformFile_sim:
  assumes "sim fr fd ir idr tr td" and "sources wr f = sources wd f"
  shows "fst (transformFile f tr wr) = fst (transformFile f td wd) \<and>
         sim fr fd ir idr (fst (snd (transformFile f tr wr))) (fst (snd (transformFile f td wd)))"
proof (cases "sources wd f")
  case None
  then show ?thesis using assms by (simp add: transformFile_def)
next
  case (Some content)
  note a = applyRules_sim [OF assms(1), of content "basename f"]
  define cr where "cr = fst (applyRules content (basename f) tr)"
  define t1r where "t1r = snd (applyRules content (basename f) tr)"
  define t1d where "t1d = snd (applyRules content (basename f) td)"
  have c: "fst (applyRules content (basename f) td) = cr" using a by (simp add: cr_def)
  have s: "sim fr fd ir idr t1r t1d" using a by (simp add: t1r_def t1d_def)
  have s': "sim fr fd ir idr (pushFix (''Transformed '' @ basename f) t1r)
      (pushFix (''Would transform '' @ basename f @ '' (dry run)'') t1d)"
    using s equivEntry_transformed by (rule sim_pushFix)
  have r: "transformFile f tr wr =
      (if cr \<noteq> content
       then (None, pushFix (''Transformed '' @ basename f) t1r,
             traced (WriteFile f)
               ((traced (ReadFile f) wr)\<lparr>sources := (sources (traced (ReadFile f) wr))(f \<mapsto> cr)\<rparr>))
       else (None, t1r, traced (ReadFile f) wr))"
    using Some assms(2) sim_fields(4) [OF assms(1)]
    by (simp add: transformFile_def Let_def split_def cr_def t1r_def)
  have d: "transformFile f td wd =
      (if cr \<noteq> content
       then (None, pushFix (''Would transform '' @ basename f @ '' (dry run)'') t1d,
             traced (ReadFile f) wd)
       else (None, t1d, traced (ReadFile f) wd))"
    using Some sim_fields(5) [OF assms(1)] c
    by (simp add: transformFile_def Let_def split_def t1d_def)
  show ?thesis unfolding r d using s s' by simp
qed

subsection \<open>\<^verbatim>\<open>transformCode\<close>\<close>

lemma sameConfig_trans: "sameConfig w w' \<Longrightarrow> sameConfig w' w'' \<Longrightarrow> sameConfig w w''"
  by (simp add: sameConfig_def)

lemma transformFiles_sim:
  assumes "distinct fs" and "sim fr fd ir idr tr td"
    and "\<forall>f \<in> set fs. sources wr f = sources wd f"
  shows "fst (transformFiles fs tr wr) = fst (transformFiles fs td wd) \<and>
         sim fr fd ir idr (fst (snd (transformFiles fs tr wr))) (fst (snd (transformFiles fs td wd))) \<and>
         readsOnly wd (snd (snd (transformFiles fs td wd))) \<and>
         sameConfig wr (snd (snd (transformFiles fs tr wr)))"
  using assms
proof (induction fs arbitrary: tr td wr wd)
  case Nil
  then show ?case by (simp add: readsOnly_refl sameConfig_def)
next
  case (Cons f fs)
  obtain er tr' wr' where r: "transformFile f tr wr = (er, tr', wr')"
    by (cases "transformFile f tr wr")
  obtain ed td' wd' where d: "transformFile f td wd = (ed, td', wd')"
    by (cases "transformFile f td wd")
  have sf: "sources wr f = sources wd f" using Cons.prems(3) by simp
  have e: "er = ed" and s: "sim fr fd ir idr tr' td'"
    using transformFile_sim [OF Cons.prems(2) sf] r d by simp_all
  have dd: "readsOnly wd wd'"
    using transformFile_dry [OF sim_fields(5) [OF Cons.prems(2)], of wd f] d by simp
  have rc: "sameConfig wr wr'" and rs: "\<forall>g. g \<noteq> f \<longrightarrow> sources wr' g = sources wr g"
    using transformFile_real_frame [of wr f tr] r by simp_all
  show ?case
  proof (cases ed)
    case (Some x)
    then show ?thesis using r d e s dd rc by simp
  next
    case None
    have nf: "f \<notin> set fs" and df: "distinct fs" using Cons.prems(1) by simp_all
    have src: "\<forall>g \<in> set fs. sources wr' g = sources wd' g"
    proof
      fix g assume g: "g \<in> set fs"
      then have "g \<noteq> f" using nf by auto
      then have "sources wr' g = sources wr g" using rs by simp
      also have "\<dots> = sources wd g" using Cons.prems(3) g by simp
      also have "\<dots> = sources wd' g"
        using sameDisk_fields(3) [OF readsOnly_sameDisk [OF dd]] by simp
      finally show "sources wr' g = sources wd' g" .
    qed
    note ih = Cons.IH [OF df s src]
    have er': "transformFiles (f # fs) tr wr = transformFiles fs tr' wr'"
      using r e None by simp
    have ed': "transformFiles (f # fs) td wd = transformFiles fs td' wd'"
      using d None by simp
    show ?thesis unfolding er' ed'
      using ih readsOnly_trans [OF dd] sameConfig_trans [OF rc] by blast
  qed
qed

subsection \<open>\<^verbatim>\<open>updateConfiguration\<close>\<close>

lemma updateTsConfig_sim:
  assumes "sim fr fd ir idr tr td" and "tsconfigFile wr = tsconfigFile wd"
  shows "sim fr fd ir idr (fst (updateTsConfig tr wr)) (fst (updateTsConfig td wd))"
proof (cases "tsconfigFile wd")
  case None
  then show ?thesis using assms by (simp add: updateTsConfig_def)
next
  case (Some c)
  show ?thesis
  proof (cases c)
    case (TsUnparsable msg)
    then show ?thesis using assms Some sim_pushIssue [OF assms(1)]
      by (simp add: updateTsConfig_def)
  next
    case (TsParsed jsx)
    then show ?thesis
      using assms Some sim_pushFix_same [OF assms(1)] sim_fields [OF assms(1)]
      by (simp add: updateTsConfig_def Let_def)
  qed
qed

lemma updateTsConfig_dry:
  "dryRun (options t) \<Longrightarrow> readsOnly w (snd (updateTsConfig t w))"
  by (simp add: updateTsConfig_def Let_def split_def readsOnly_refl readsOnly_traced
      split: option.splits tsconfigFile.splits)

lemma updateTsConfig_frame:
  "jestConfigFile (snd (updateTsConfig t w)) = jestConfigFile w \<and>
   eslintConfigFile (snd (updateTsConfig t w)) = eslintConfigFile w \<and>
   babelConfigExists (snd (updateTsConfig t w)) = babelConfigExists w \<and>
   webpackConfigExists (snd (updateTsConfig t w)) = webpackConfigExists w"
  by (simp add: updateTsConfig_def Let_def split_def traced_def
      split: option.splits tsconfigFile.splits)

lemma updateJestConfig_sim:
  assumes "sim fr fd ir idr tr td" and "jestConfigFile wr = jestConfigFile wd"
  shows "sim fr fd ir idr (fst (updateJestConfig tr wr)) (fst (updateJestConfig td wd))"
proof (cases "jestConfigFile wd")
  case None
  then show ?thesis using assms by (simp add: updateJestConfig_def)
next
  case (Some c)
  then show ?thesis
    using assms sim_fields(1) [OF assms(1)]
    by (simp add: updateJestConfig_def Let_def sim_pushIssue)
qed

lemma updateJestConfig_reads: "readsOnly w (snd (updateJestConfig t w))"
  by (simp add: updateJestConfig_def Let_def readsOnly_refl readsOnly_traced
      split: option.splits)

lemma updateEslintConfig_sim:
  assumes "sim fr fd ir idr tr td" and "eslintConfigFile wr = eslintConfigFile wd"
  shows "sim fr fd ir idr (fst (updateEslintConfig tr wr)) (fst (updateEslintConfig td wd))"
proof (cases "eslintConfigFile wd")
  case None
  then show ?thesis using assms by (simp add: updateEslintConfig_def)
next
  case (Some c)
  then show ?thesis
    using assms sim_fields(1) [OF assms(1)]
    by (simp add: updateEslintConfig_def Let_def sim_pushIssue)
qed

lemma updateEslintConfig_reads: "readsOnly w (snd (updateEslintConfig t w))"
  by (simp add: updateEslintConfig_def Let_def readsOnly_refl readsOnly_traced
      split: option.splits)

lemma checkBabelConfig_sim:
  assumes "sim fr fd ir idr tr td" and "babelConfigExists wr = babelConfigExists wd"
  shows "sim fr fd ir idr (checkBabelConfig tr wr) (checkBabelConfig td wd)"
  using assms sim_fields(1) [OF assms(1)] by (simp add: checkBabelConfig_def sim_pushIssue)

lemma checkWebpackConfig_sim:
  assumes "sim fr fd ir idr tr td" and "webpackConfigExists wr = webpackConfigExists wd"
  shows "sim fr fd ir idr (checkWebpackConfig tr wr) (checkWebpackConfig td wd)"
  using assms sim_fields(1) [OF assms(1)]
  by (simp add: checkWebpackConfig_def Let_def sim_pushIssue)

lemma updateConfiguration_sim:
  assumes "sim fr fd ir idr tr td" and "sameConfig wr wd"
  shows "sim fr fd ir idr (fst (updateConfiguration tr wr)) (fst (updateConfiguration td wd)) \<and>
         readsOnly wd (snd (updateConfiguration td wd))"
proof -
  define r1 where "r1 = updateTsConfig tr wr"
  define d1 where "d1 = updateTsConfig td wd"
  define r2 where "r2 = updateJestConfig (fst r1) (snd r1)"
  define d2 where "d2 = updateJestConfig (fst d1) (snd d1)"
  define r3 where "r3 = updateEslintConfig (fst r2) (snd r2)"
  define d3 where "d3 = updateEslintConfig (fst d2) (snd d2)"
  have c: "tsconfigFile wr = tsconfigFile wd" "jestConfigFile wr = jestConfigFile wd"
    "eslintConfigFile wr = eslintConfigFile wd" "babelConfigExists wr = babelConfigExists wd"
    "webpackConfigExists wr = webpackConfigExists wd"
    using assms(2) by (simp_all add: sameConfig_def)
  have s1: "sim fr fd ir idr (fst r1) (fst d1)"
    unfolding r1_def d1_def using assms(1) c(1) by (rule updateTsConfig_sim)
  have r1: "readsOnly wd (snd d1)"
    unfolding d1_def using sim_fields(5) [OF assms(1)] by (rule updateTsConfig_dry)
  have f1r: "jestConfigFile (snd r1) = jestConfigFile wr"
    "eslintConfigFile (snd r1) = eslintConfigFile wr"
    "babelConfigExists (snd r1) = babelConfigExists wr"
    "webpackConfigExists (snd r1) = webpackConfigExists wr"
    unfolding r1_def using updateTsConfig_frame [of tr wr] by simp_all
  have f1d: "jestConfigFile (snd d1) = jestConfigFile wd"
    "eslintConfigFile (snd d1) = eslintConfigFile wd"
    "babelConfigExists (snd d1) = babelConfigExists wd"
    "webpackConfigExists (snd d1) = webpackConfigExists wd"
    unfolding d1_def using updateTsConfig_frame [of td wd] by simp_all
  have s2: "sim fr fd ir idr (fst r2) (fst d2)"
    unfolding r2_def d2_def using s1 by (rule updateJestConfig_sim) (simp add: f1r f1d c)
  have r2: "readsOnly (snd d1) (snd d2)" unfolding d2_def by (rule updateJestConfig_reads)
  have k2r: "sameDisk (snd r1) (snd r2)"
    unfolding r2_def by (rule readsOnly_sameDisk [OF updateJestConfig_reads])
  have k2d: "sameDisk (snd d1) (snd d2)" using r2 by (rule readsOnly_sameDisk)
  have s3: "sim fr fd ir idr (fst r3) (fst d3)"
    unfolding r3_def d3_def using s2
    by (rule updateEslintConfig_sim)
       (simp add: sameDisk_fields(6) [OF k2r] sameDisk_fields(6) [OF k2d] f1r f1d c)
  have r3: "readsOnly (snd d2) (snd d3)" unfolding d3_def by (rule updateEslintConfig_reads)
  have k3r: "sameDisk (snd r2) (snd r3)"
    unfolding r3_def by (rule readsOnly_sameDisk [OF updateEslintConfig_reads])
  have k3d: "sameDisk (snd d2) (snd d3)" using r3 by (rule readsOnly_sameDisk)
  have b: "babelConfigExists (snd r3) = babelConfigExists (snd d3)"
    by (simp add: sameDisk_fields(7) [OF k3r] sameDisk_fields(7) [OF k3d]
        sameDisk_fields(7) [OF k2r] sameDisk_fields(7) [OF k2d] f1r f1d c)
  have wp: "webpackConfigExists (snd r3) = webpackConfigExists (snd d3)"
    by (simp add: sameDisk_fields(8) [OF k3r] sameDisk_fields(8) [OF k3d]
        sameDisk_fields(8) [OF k2r] sameDisk_fields(8) [OF k2d] f1r f1d c)
  have s4: "sim fr fd ir idr (checkBabelConfig (fst r3) (snd r3)) (checkBabelConfig (fst d3) (snd d3))"
    using s3 b by (rule checkBabelConfig_sim)
  have s5: "sim fr fd ir idr
      (checkWebpackConfig (checkBabelConfig (fst r3) (snd r3)) (snd r3))
      (checkWebpackConfig (checkBabelConfig (fst d3) (snd d3)) (snd d3))"
    using s4 wp by (rule checkWebpackConfig_sim)
  have er: "updateConfiguration tr wr =
      (checkWebpackConfig (checkBabelConfig (fst r3) (snd r3)) (snd r3), snd r3)"
    by (simp add: updateConfiguration_def Let_def split_def r1_def r2_def r3_def)
  have ed: "updateConfiguration td wd =
      (checkWebpackConfig (checkBabelConfig (fst d3) (snd d3)) (snd d3), snd d3)"
    by (simp add: updateConfiguration_def Let_def split_def d1_def d2_def d3_def)
  have kd: "readsOnly wd (snd d3)"
    using readsOnly_trans [OF readsOnly_trans [OF r1 r2] r3] .
  show ?thesis unfolding er ed using s5 kd by simp
qed

text \<open>
  The phases of \<^verbatim>\<open>migrate\<close> that follow the update of the dependencies:
  \<^verbatim>\<open>transformCode\<close> and \<^verbatim>\<open>updateConfiguration\<close>, unless \<^verbatim>\<open>depsOnly\<close> is set.
\<close>

definition codePhases :: "tool \<Rightarrow> world \<Rightarrow> step" where
  "codePhases t w =
     (if \<not> depsOnly (options t) then
        (case transformCode t w of
           (Some e, t3, w3) \<Rightarrow> (Some e, t3, w3)
         | (None, t3, w3) \<Rightarrow>
             (case updateConfiguration t3 w3 of (t4, w4) \<Rightarrow> (None, t4, w4)))
      else (None, t, w))"

text \<open>
  Whether a real run gets as far as running the installer: the dependencies are not
  skipped and \<^verbatim>\<open>analyzeProject\<close> finds \<^verbatim>\<open>react\<close> in a manifest that parses.
\<close>

definition installRuns :: "MigrationOptions \<Rightarrow> world \<Rightarrow> bool" where
  "installRuns opts w =
     (\<not> skipDeps opts \<and>
      (case packageJsonFile w of
         Some (Parsed pj) \<Rightarrow> truthy (currentReactVersion pj)
       | _ \<Rightarrow> False))"

lemma migrate_codePhases:
  "migrate tv root opts t0 w =
     (let t = t0\<lparr>targetVersion := tv, projectRoot := root, options := opts\<rparr> in
      case analyzeProject t w of
        (Some e, t1, w1) \<Rightarrow> (Some e, t1, w1)
      | (None, t1, w1) \<Rightarrow>
          (case (if \<not> skipDeps (options t1) then updateDependencies t1 w1 else (None, t1, w1)) of
             (Some e, t2, w2) \<Rightarrow> (Some e, t2, w2)
           | (None, t2, w2) \<Rightarrow> codePhases t2 w2))"
  unfolding migrate_def codePhases_def by (rule refl)

lemma codePhases_sim:
  assumes "sim fr fd ir idr tr td" and "depsOnly (options tr) = depsOnly (options td)"
    and "distinct (reactFiles td)" and "sources wr = sources wd" and "sameConfig wr wd"
  shows "fst (codePhases tr wr) = fst (codePhases td wd) \<and>
         sim fr fd ir idr (fst (snd (codePhases tr wr))) (fst (snd (codePhases td wd))) \<and>
         readsOnly wd (snd (snd (codePhases td wd)))"
proof (cases "depsOnly (options td)")
  case True
  then show ?thesis using assms by (simp add: codePhases_def readsOnly_refl)
next
  case False
  have fs: "reactFiles tr = reactFiles td" using sim_fields(3) [OF assms(1)] .
  obtain er tr3 wr3 where r: "transformFiles (reactFiles td) tr wr = (er, tr3, wr3)"
    by (cases "transformFiles (reactFiles td) tr wr")
  obtain ed td3 wd3 where d: "transformFiles (reactFiles td) td wd = (ed, td3, wd3)"
    by (cases "transformFiles (reactFiles td) td wd")
  have src: "\<forall>f \<in> set (reactFiles td). sources wr f = sources wd f" using assms(4) by simp
  note T = transformFiles_sim [OF assms(3) assms(1) src]
  have e: "er = ed" and s: "sim fr fd ir idr tr3 td3" and dd: "readsOnly wd wd3"
    and rc: "sameConfig wr wr3"
    using T r d by simp_all
  show ?thesis
  proof (cases ed)
    case (Some x)
    then show ?thesis using False assms(2) fs r d e s dd
      by (simp add: codePhases_def transformCode_def)
  next
    case None
    have c3: "sameConfig wr3 wd3"
      using rc assms(5) sameDisk_sameConfig [OF readsOnly_sameDisk [OF dd]]
      by (simp add: sameConfig_def)
    note U = updateConfiguration_sim [OF s c3]
    have er': "codePhases tr wr =
        (None, fst (updateConfiguration tr3 wr3), snd (updateConfiguration tr3 wr3))"
      using False assms(2) fs r e None by (simp add: codePhases_def transformCode_def split_def)
    have ed': "codePhases td wd =
        (None, fst (updateConfiguration td3 wd3), snd (updateConfiguration td3 wd3))"
      using False d None by (simp add: codePhases_def transformCode_def split_def)
    show ?thesis unfolding er' ed' using U readsOnly_trans [OF dd] by simp
  qed
qed

lemma sim_start:
  assumes "targetVersion tr = targetVersion td" "projectRoot tr = projectRoot td"
    "reactFiles tr = reactFiles td" "\<not> dryRun (options tr)" "dryRun (options td)"
    "fixes' tr = fr" "fixes' td = fd" "issues tr = ir" "issues td = idr"
  shows "sim fr fd ir idr tr td"
  unfolding sim_def using assms by simp

lemma sim_logs:
  assumes "sim fr fd ir idr tr td"
  shows "\<exists>F F' I. fixes' tr = fr @ F \<and> fixes' td = fd @ F' \<and> list_all2 equivEntry F F' \<and>
           issues tr = ir @ I \<and> issues td = idr @ I"
  using assms unfolding sim_def by blast

lemma findReactFiles_fields:
  "targetVersion (findReactFiles t w) = targetVersion t"
  "projectRoot (findReactFiles t w) = projectRoot t"
  "options (findReactFiles t w) = options t"
  "fixes' (findReactFiles t w) = fixes' t"
  "issues (findReactFiles t w) =
     issues t @ (if srcDir w = None then [''src directory not found''] else [])"
  "reactFiles (findReactFiles t w) =
     (case srcDir w of None \<Rightarrow> reactFiles t
      | Some items \<Rightarrow> getReactFiles (pathJoin (projectRoot t) ''src'') items)"
  by (simp_all add: findReactFiles_def pushIssue_def split: option.splits)

lemma analyzeProject_fails:
  assumes "\<not> (\<exists>pj. packageJsonFile w = Some (Parsed pj) \<and> truthy (currentReactVersion pj))"
    and "projectRoot t1 = projectRoot t2"
  shows "\<exists>e w'. analyzeProject t1 w = (Some e, t1, w') \<and> analyzeProject t2 w = (Some e, t2, w') \<and>
           readsOnly w w'"
proof (cases "packageJsonFile w")
  case None
  then show ?thesis by (simp add: analyzeProject_def readsOnly_refl)
next
  case (Some j)
  show ?thesis
  proof (cases j)
    case (Unparsable msg)
    then show ?thesis using Some assms(2)
      by (simp add: analyzeProject_def packageJsonPath_def readsOnly_traced)
  next
    case (Parsed pj)
    then have "\<not> truthy (currentReactVersion pj)" using assms(1) Some by simp
    then show ?thesis using Some Parsed assms(2)
      by (simp add: analyzeProject_def packageJsonPath_def readsOnly_traced Let_def)
  qed
qed

lemma migrate_dry_real:
  assumes "distinct (reactFiles (findReactFiles (t\<lparr>projectRoot := root\<rparr>) w))"
  shows
    "fst (migrate tv root (opts\<lparr>dryRun := True\<rparr>) t w) =
       fst (migrate tv root (opts\<lparr>dryRun := False\<rparr>) t w) \<and>
     readsOnly w (snd (snd (migrate tv root (opts\<lparr>dryRun := True\<rparr>) t w))) \<and>
     (\<exists>Fr Fd.
        fixes' (fst (snd (migrate tv root (opts\<lparr>dryRun := False\<rparr>) t w))) = fixes' t @ Fr \<and>
        fixes' (fst (snd (migrate tv root (opts\<lparr>dryRun := True\<rparr>) t w))) = fixes' t @ Fd \<and>
        list_all2 equivEntry
          (if installRuns opts w \<and> npmInstallError w = None
           then remove1 ''Installed updated dependencies'' Fr else Fr) Fd) \<and>
     (\<exists>Ir Id.
        issues (fst (snd (migrate tv root (opts\<lparr>dryRun := False\<rparr>) t w))) = issues t @ Ir \<and>
        issues (fst (snd (migrate tv root (opts\<lparr>dryRun := True\<rparr>) t w))) = issues t @ Id \<and>
        Id = (case npmInstallError w of
                None \<Rightarrow> Ir
              | Some msg \<Rightarrow>
                  if installRuns opts w
                  then remove1 (''Failed to install dependencies: '' @ msg) Ir else Ir))"
proof -
  define t0r where "t0r = t\<lparr>targetVersion := tv, projectRoot := root, options := opts\<lparr>dryRun := False\<rparr>\<rparr>"
  define t0d where "t0d = t\<lparr>targetVersion := tv, projectRoot := root, options := opts\<lparr>dryRun := True\<rparr>\<rparr>"
  define R where "R = migrate tv root (opts\<lparr>dryRun := False\<rparr>) t w"
  define D where "D = migrate tv root (opts\<lparr>dryRun := True\<rparr>) t w"
  define UPD where "UPD = ''Updated package.json with new React versions''"
  define WOULD where "WOULD = ''Would update package.json with new React versions (dry run)''"
  define INST where "INST = ''Installed updated dependencies''"
  define FAIL where "FAIL = (\<lambda>msg. ''Failed to install dependencies: '' @ msg)"
  define A where "A = (if srcDir w = None then [''src directory not found''] else [])"
  have Rm: "R = (case analyzeProject t0r w of
        (Some e, t1, w1) \<Rightarrow> (Some e, t1, w1)
      | (None, t1, w1) \<Rightarrow>
          (case (if \<not> skipDeps (options t1) then updateDependencies t1 w1 else (None, t1, w1)) of
             (Some e, t2, w2) \<Rightarrow> (Some e, t2, w2)
           | (None, t2, w2) \<Rightarrow> codePhases t2 w2))"
    unfolding R_def t0r_def migrate_codePhases Let_def by (rule refl)
  have Dm: "D = (case analyzeProject t0d w of
        (Some e, t1, w1) \<Rightarrow> (Some e, t1, w1)
      | (None, t1, w1) \<Rightarrow>
          (case (if \<not> skipDeps (options t1) then updateDependencies t1 w1 else (None, t1, w1)) of
             (Some e, t2, w2) \<Rightarrow> (Some e, t2, w2)
           | (None, t2, w2) \<Rightarrow> codePhases t2 w2))"
    unfolding D_def t0d_def migrate_codePhases Let_def by (rule refl)
  have key: "fst D = fst R \<and> readsOnly w (snd (snd D)) \<and>
     (\<exists>Fr Fd. fixes' (fst (snd R)) = fixes' t @ Fr \<and> fixes' (fst (snd D)) = fixes' t @ Fd \<and>
        list_all2 equivEntry
          (if installRuns opts w \<and> npmInstallError w = None then remove1 INST Fr else Fr) Fd) \<and>
     (\<exists>Ir Id. issues (fst (snd R)) = issues t @ Ir \<and> issues (fst (snd D)) = issues t @ Id \<and>
        Id = (case npmInstallError w of None \<Rightarrow> Ir
              | Some msg \<Rightarrow> if installRuns opts w then remove1 (FAIL msg) Ir else Ir))"
  proof (cases "\<exists>pj. packageJsonFile w = Some (Parsed pj) \<and> truthy (currentReactVersion pj)")
    case False
    have pr: "projectRoot t0r = projectRoot t0d" by (simp add: t0r_def t0d_def)
    from analyzeProject_fails [OF False pr] obtain e w' where
      a: "analyzeProject t0r w = (Some e, t0r, w')" "analyzeProject t0d w = (Some e, t0d, w')"
        "readsOnly w w'" by blast
    have R': "R = (Some e, t0r, w')" unfolding Rm a by simp
    have D': "D = (Some e, t0d, w')" unfolding Dm a by simp
    have ni: "\<not> installRuns opts w"
      using False by (auto simp: installRuns_def split: option.splits jsonFile.splits)
    have f: "fixes' t0r = fixes' t @ []" "fixes' t0d = fixes' t @ []"
      "issues t0r = issues t @ []" "issues t0d = issues t @ []"
      by (simp_all add: t0r_def t0d_def)
    have 1: "\<exists>Fr Fd. fixes' t0r = fixes' t @ Fr \<and> fixes' t0d = fixes' t @ Fd \<and>
        list_all2 equivEntry
          (if installRuns opts w \<and> npmInstallError w = None then remove1 INST Fr else Fr) Fd"
      using f(1,2) ni by (intro exI [of _ "[]"]) simp
    have 2: "\<exists>Ir Id. issues t0r = issues t @ Ir \<and> issues t0d = issues t @ Id \<and>
        Id = (case npmInstallError w of None \<Rightarrow> Ir
              | Some msg \<Rightarrow> if installRuns opts w then remove1 (FAIL msg) Ir else Ir)"
      using f(3,4) ni by (intro exI [of _ "[]"]) (simp split: option.splits)
    show ?thesis unfolding R' D' using a(3) 1 2 by simp
  next
    case True
    then obtain pj where pj: "packageJsonFile w = Some (Parsed pj)"
      "truthy (currentReactVersion pj)" by blast
    define w1 where "w1 = traced (ReadFile (pathJoin root ''package.json'')) w"
    define t1r where "t1r = findReactFiles t0r w1"
    define t1d where "t1d = findReactFiles t0d w1"
    have ar: "analyzeProject t0r w = (None, t1r, w1)"
      using pj by (simp add: analyzeProject_def Let_def packageJsonPath_def t0r_def t1r_def w1_def)
    have ad: "analyzeProject t0d w = (None, t1d, w1)"
      using pj by (simp add: analyzeProject_def Let_def packageJsonPath_def t0d_def t1d_def w1_def)
    have d1: "readsOnly w w1" unfolding w1_def by (rule readsOnly_traced)
    have k1: "sameDisk w w1" using d1 by (rule readsOnly_sameDisk)
    have sd: "srcDir w1 = srcDir w" using sameDisk_fields(2) [OF k1] .
    have fr: "targetVersion t1r = tv" "projectRoot t1r = root"
      "options t1r = opts\<lparr>dryRun := False\<rparr>" "fixes' t1r = fixes' t" "issues t1r = issues t @ A"
      by (simp_all add: t1r_def findReactFiles_fields t0r_def A_def sd)
    have fd: "targetVersion t1d = tv" "projectRoot t1d = root"
      "options t1d = opts\<lparr>dryRun := True\<rparr>" "fixes' t1d = fixes' t" "issues t1d = issues t @ A"
      by (simp_all add: t1d_def findReactFiles_fields t0d_def A_def sd)
    have files: "reactFiles t1r = reactFiles t1d"
      "reactFiles t1d = reactFiles (findReactFiles (t\<lparr>projectRoot := root\<rparr>) w)"
      by (simp_all add: t1r_def t1d_def findReactFiles_fields t0r_def t0d_def sd
          split: option.splits)
    have dist: "distinct (reactFiles t1d)" using assms files(2) by simp
    show ?thesis
    proof (cases "skipDeps opts")
      case True
      have ni: "\<not> installRuns opts w" using True by (simp add: installRuns_def)
      have R': "R = codePhases t1r w1" unfolding Rm ar using True fr(3) by simp
      have D': "D = codePhases t1d w1" unfolding Dm ad using True fd(3) by simp
      have s: "sim (fixes' t) (fixes' t) (issues t @ A) (issues t @ A) t1r t1d"
        by (rule sim_start) (simp_all add: fr fd files(1))
      have dO: "depsOnly (options t1r) = depsOnly (options t1d)" by (simp add: fr fd)
      note C = codePhases_sim [OF s dO dist refl, of w1]
      have c: "sameConfig w1 w1" by (simp add: sameConfig_def)
      from C [OF c] have e: "fst R = fst D" and s': "sim (fixes' t) (fixes' t) (issues t @ A)
          (issues t @ A) (fst (snd R)) (fst (snd D))" and dd: "readsOnly w1 (snd (snd D))"
        unfolding R' D' by simp_all
      from sim_logs [OF s'] obtain F F' I where
        l: "fixes' (fst (snd R)) = fixes' t @ F" "fixes' (fst (snd D)) = fixes' t @ F'"
          "list_all2 equivEntry F F'" "issues (fst (snd R)) = (issues t @ A) @ I"
          "issues (fst (snd D)) = (issues t @ A) @ I" by blast
      have 1: "\<exists>Fr Fd. fixes' (fst (snd R)) = fixes' t @ Fr \<and> fixes' (fst (snd D)) = fixes' t @ Fd \<and>
          list_all2 equivEntry
            (if installRuns opts w \<and> npmInstallError w = None then remove1 INST Fr else Fr) Fd"
        using l(1,2,3) ni by (intro exI [of _ F] exI [of _ F']) simp
      have 2: "\<exists>Ir Id. issues (fst (snd R)) = issues t @ Ir \<and> issues (fst (snd D)) = issues t @ Id \<and>
          Id = (case npmInstallError w of None \<Rightarrow> Ir
                | Some msg \<Rightarrow> if installRuns opts w then remove1 (FAIL msg) Ir else Ir)"
        using l(4,5) ni by (intro exI [of _ "A @ I"]) (simp split: option.splits)
      show ?thesis using e readsOnly_trans [OF d1 dd] 1 2 by simp
    next
      case False
      have ir: "installRuns opts w" using False pj by (simp add: installRuns_def)
      have pj1: "packageJsonFile w1 = Some (Parsed pj)" using sameDisk_fields(1) [OF k1] pj by simp
      define w2d where "w2d = traced (ReadFile (pathJoin root ''package.json'')) w1"
      define w2r where "w2r = traced (Exec ''npm install'')
          (traced (WriteFile (pathJoin root ''package.json''))
             ((traced (ReadFile (pathJoin root ''package.json'')) w1)
                \<lparr>packageJsonFile := Some (Parsed (updatedManifest tv pj))\<rparr>))"
      have d2: "readsOnly w1 w2d" unfolding w2d_def by (rule readsOnly_traced)
      have ud: "updateDependencies t1d w1 = (None, pushFix WOULD t1d, w2d)"
        using pj1 by (simp add: updateDependencies_def Let_def packageJsonPath_def fd w2d_def WOULD_def)
      have D': "D = codePhases (pushFix WOULD t1d) w2d" unfolding Dm ad using False fd(3) ud by simp
      have w2r_src: "sources w2r = sources w2d" by (simp add: w2r_def w2d_def traced_def)
      have w2r_cfg: "sameConfig w2r w2d" by (simp add: w2r_def w2d_def traced_def sameConfig_def)
      have w2r_npm: "npmInstallError w2r = npmInstallError w"
        by (simp add: w2r_def w1_def traced_def)
      have distW: "distinct (reactFiles (pushFix WOULD t1d))" using dist by (simp add: pushFix_def)
      show ?thesis
      proof (cases "npmInstallError w")
        case None
        define t2r where "t2r = pushFix INST (pushFix UPD t1r)"
        have ur: "updateDependencies t1r w1 = (None, t2r, w2r)"
          using pj1 None w2r_npm
          by (simp add: updateDependencies_def Let_def packageJsonPath_def fr w2r_def t2r_def
              UPD_def INST_def)
        have R': "R = codePhases t2r w2r" unfolding Rm ar using False fr(3) ur by simp
        have s: "sim (fixes' t @ [UPD, INST]) (fixes' t @ [WOULD]) (issues t @ A) (issues t @ A)
            t2r (pushFix WOULD t1d)"
          by (rule sim_start) (simp_all add: t2r_def pushFix_def fr fd files(1))
        have dO: "depsOnly (options t2r) = depsOnly (options (pushFix WOULD t1d))"
          by (simp add: t2r_def pushFix_def fr fd)
        from codePhases_sim [OF s dO distW w2r_src w2r_cfg]
        have e: "fst R = fst D" and s': "sim (fixes' t @ [UPD, INST]) (fixes' t @ [WOULD])
            (issues t @ A) (issues t @ A) (fst (snd R)) (fst (snd D))"
          and dd: "readsOnly w2d (snd (snd D))"
          unfolding R' D' by simp_all
        from sim_logs [OF s'] obtain F F' I where
          l: "fixes' (fst (snd R)) = (fixes' t @ [UPD, INST]) @ F"
            "fixes' (fst (snd D)) = (fixes' t @ [WOULD]) @ F'"
            "list_all2 equivEntry F F'" "issues (fst (snd R)) = (issues t @ A) @ I"
            "issues (fst (snd D)) = (issues t @ A) @ I" by blast
        have ne: "UPD \<noteq> INST" by (simp add: UPD_def INST_def)
        have eq: "equivEntry UPD WOULD" by (simp add: equivEntry_def UPD_def WOULD_def)
        have la: "list_all2 equivEntry (remove1 INST ([UPD, INST] @ F)) ([WOULD] @ F')"
          using ne eq l(3) by simp
        have 1: "\<exists>Fr Fd. fixes' (fst (snd R)) = fixes' t @ Fr \<and> fixes' (fst (snd D)) = fixes' t @ Fd \<and>
            list_all2 equivEntry
              (if installRuns opts w \<and> npmInstallError w = None then remove1 INST Fr else Fr) Fd"
          using l(1,2) la ir None
          by (intro exI [of _ "[UPD, INST] @ F"] exI [of _ "[WOULD] @ F'"]) simp
        have 2: "\<exists>Ir Id. issues (fst (snd R)) = issues t @ Ir \<and> issues (fst (snd D)) = issues t @ Id \<and>
            Id = (case npmInstallError w of None \<Rightarrow> Ir
                  | Some msg \<Rightarrow> if installRuns opts w then remove1 (FAIL msg) Ir else Ir)"
          using l(4,5) None by (intro exI [of _ "A @ I"]) simp
        show ?thesis
          using e readsOnly_trans [OF d1 readsOnly_trans [OF d2 dd]] 1 2 by simp
      next
        case (Some msg)
        define t2r where "t2r = pushIssue (FAIL msg) (pushFix UPD t1r)"
        have ur: "updateDependencies t1r w1 = (None, t2r, w2r)"
          using pj1 Some w2r_npm
          by (simp add: updateDependencies_def Let_def packageJsonPath_def fr w2r_def t2r_def
              UPD_def FAIL_def)
        have R': "R = codePhases t2r w2r" unfolding Rm ar using False fr(3) ur by simp
        have s: "sim (fixes' t @ [UPD]) (fixes' t @ [WOULD]) (issues t @ A @ [FAIL msg])
            (issues t @ A) t2r (pushFix WOULD t1d)"
          by (rule sim_start) (simp_all add: t2r_def pushFix_def pushIssue_def fr fd files(1))
        have dO: "depsOnly (options t2r) = depsOnly (options (pushFix WOULD t1d))"
          by (simp add: t2r_def pushFix_def pushIssue_def fr fd)
        from codePhases_sim [OF s dO distW w2r_src w2r_cfg]
        have e: "fst R = fst D" and s': "sim (fixes' t @ [UPD]) (fixes' t @ [WOULD])
            (issues t @ A @ [FAIL msg]) (issues t @ A) (fst (snd R)) (fst (snd D))"
          and dd: "readsOnly w2d (snd (snd D))"
          unfolding R' D' by simp_all
        from sim_logs [OF s'] obtain F F' I where
          l: "fixes' (fst (snd R)) = (fixes' t @ [UPD]) @ F"
            "fixes' (fst (snd D)) = (fixes' t @ [WOULD]) @ F'"
            "list_all2 equivEntry F F'" "issues (fst (snd R)) = (issues t @ A @ [FAIL msg]) @ I"
            "issues (fst (snd D)) = (issues t @ A) @ I" by blast
        have eq: "equivEntry UPD WOULD" by (simp add: equivEntry_def UPD_def WOULD_def)
        have la: "list_all2 equivEntry ([UPD] @ F) ([WOULD] @ F')" using eq l(3) by simp
        have 1: "\<exists>Fr Fd. fixes' (fst (snd R)) = fixes' t @ Fr \<and> fixes' (fst (snd D)) = fixes' t @ Fd \<and>
            list_all2 equivEntry
              (if installRuns opts w \<and> npmInstallError w = None then remove1 INST Fr else Fr) Fd"
          using l(1,2) la Some
          by (intro exI [of _ "[UPD] @ F"] exI [of _ "[WOULD] @ F'"]) simp
        have nA: "FAIL msg \<notin> set A" by (simp add: A_def FAIL_def)
        have rm: "remove1 (FAIL msg) (A @ [FAIL msg] @ I) = A @ I"
          using nA by (simp add: remove1_append)
        have 2: "\<exists>Ir Id. issues (fst (snd R)) = issues t @ Ir \<and> issues (fst (snd D)) = issues t @ Id \<and>
            Id = (case npmInstallError w of None \<Rightarrow> Ir
                  | Some msg \<Rightarrow> if installRuns opts w then remove1 (FAIL msg) Ir else Ir)"
          using l(4,5) Some ir rm
          by (intro exI [of _ "A @ [FAIL msg] @ I"] exI [of _ "A @ I"]) simp
        show ?thesis
          using e readsOnly_trans [OF d1 readsOnly_trans [OF d2 dd]] 1 2 by simp
      qed
    qed
  qed
  show ?thesis
    using key unfolding R_def D_def INST_def FAIL_def by simp
qed

subsection \<open>What the rules and the phases leave alone\<close>

text \<open>The second instance is the first but for its logs.\<close>

definition logsOnly :: "tool \<Rightarrow> tool \<Rightarrow> bool" where
  "logsOnly t t' = (t' = t\<lparr>fixes' := fixes' t', issues := issues t'\<rparr>)"

lemma logsOnly_refl: "logsOnly t t"
  by (simp add: logsOnly_def)

lemma logsOnly_fields:
  assumes "logsOnly t t'"
  shows "targetVersion t' = targetVersion t" "projectRoot t' = projectRoot t"
    "reactFiles t' = reactFiles t" "options t' = options t"
proof -
  have e: "t' = t\<lparr>fixes' := fixes' t', issues := issues t'\<rparr>"
    using assms by (simp add: logsOnly_def)
  show "targetVersion t' = targetVersion t" by (subst e) simp
  show "projectRoot t' = projectRoot t" by (subst e) simp
  show "reactFiles t' = reactFiles t" by (subst e) simp
  show "options t' = options t" by (subst e) simp
qed

lemma logsOnly_trans:
  assumes "logsOnly t t'" and "logsOnly t' t''"
  shows "logsOnly t t''"
proof -
  have 1: "t' = t\<lparr>fixes' := fixes' t', issues := issues t'\<rparr>"
    using assms(1) by (simp add: logsOnly_def)
  have 2: "t'' = t'\<lparr>fixes' := fixes' t'', issues := issues t''\<rparr>"
    using assms(2) by (simp add: logsOnly_def)
  have "t'' = t\<lparr>fixes' := fixes' t'', issues := issues t''\<rparr>"
    by (subst 2, subst 1) simp
  then show ?thesis by (simp add: logsOnly_def)
qed

lemma logsOnly_pushFix: "logsOnly t (pushFix e t)"
  by (simp add: logsOnly_def pushFix_def)

lemma logsOnly_pushIssue: "logsOnly t (pushIssue e t)"
  by (simp add: logsOnly_def pushIssue_def)

lemma logsOnly_pushFix2: "logsOnly t t' \<Longrightarrow> logsOnly t (pushFix e t')"
  using logsOnly_trans logsOnly_pushFix by blast

lemma logsOnly_pushIssue2: "logsOnly t t' \<Longrightarrow> logsOnly t (pushIssue e t')"
  using logsOnly_trans logsOnly_pushIssue by blast

lemma render_logsOnly: "logsOnly t (snd (transformReactDOMRender c fn t))"
  by (simp add: transformReactDOMRender_def Let_def logsOnly_refl logsOnly_pushFix)

lemma lifecycle_logsOnly: "logsOnly t (snd (transformLifecycleMethods c fn t))"
  by (simp add: transformLifecycleMethods_def Let_def logsOnly_refl logsOnly_pushFix
      logsOnly_pushFix2)

lemma events_logsOnly: "logsOnly t (snd (transformEventHandlers c fn t))"
  by (simp add: transformEventHandlers_def logsOnly_refl logsOnly_pushIssue)

lemma propTypes_logsOnly: "logsOnly t (snd (transformPropTypes c fn t))"
  by (simp add: transformPropTypes_def Let_def logsOnly_refl logsOnly_pushFix)

lemma reactFC_logsOnly: "logsOnly t (snd (transformReactFC c fn t))"
  by (simp add: transformReactFC_def logsOnly_refl logsOnly_pushIssue)

lemma applyRules_logsOnly: "logsOnly t (snd (applyRules c fn t))"
proof -
  define r1 where "r1 = (if jsGe (targetVersion t) ''18'' then transformReactDOMRender c fn t else (c, t))"
  define r2 where "r2 = transformLifecycleMethods (fst r1) fn (snd r1)"
  define r3 where "r3 = transformEventHandlers (fst r2) fn (snd r2)"
  define r4 where "r4 = transformPropTypes (fst r3) fn (snd r3)"
  have 1: "logsOnly t (snd r1)" by (simp add: r1_def render_logsOnly logsOnly_refl)
  have 2: "logsOnly (snd r1) (snd r2)" unfolding r2_def by (rule lifecycle_logsOnly)
  have 3: "logsOnly (snd r2) (snd r3)" unfolding r3_def by (rule events_logsOnly)
  have 4: "logsOnly (snd r3) (snd r4)" unfolding r4_def by (rule propTypes_logsOnly)
  have 5: "logsOnly (snd r4) (snd (transformReactFC (fst r4) fn (snd r4)))"
    by (rule reactFC_logsOnly)
  have e: "applyRules c fn t = transformReactFC (fst r4) fn (snd r4)"
    by (simp add: applyRules_def Let_def split_def r1_def r2_def r3_def r4_def)
  show ?thesis unfolding e
    using logsOnly_trans [OF logsOnly_trans [OF logsOnly_trans [OF logsOnly_trans [OF 1 2] 3] 4] 5] .
qed

lemma transformFile_logsOnly: "logsOnly t (fst (snd (transformFile f t w)))"
proof (cases "sources w f")
  case None
  then show ?thesis by (simp add: transformFile_def logsOnly_refl)
next
  case (Some content)
  then show ?thesis
    using applyRules_logsOnly [of t content "basename f"]
    by (simp add: transformFile_def Let_def split_def logsOnly_pushFix2)
qed

lemma transformFile_static:
  "targetVersion (fst (snd (transformFile f t w))) = targetVersion t"
  "projectRoot (fst (snd (transformFile f t w))) = projectRoot t"
  "reactFiles (fst (snd (transformFile f t w))) = reactFiles t"
  "options (fst (snd (transformFile f t w))) = options t"
  using logsOnly_fields [OF transformFile_logsOnly [of t f w]] by simp_all

lemma transformFiles_static:
  "targetVersion (fst (snd (transformFiles fs t w))) = targetVersion t \<and>
   projectRoot (fst (snd (transformFiles fs t w))) = projectRoot t \<and>
   reactFiles (fst (snd (transformFiles fs t w))) = reactFiles t \<and>
   options (fst (snd (transformFiles fs t w))) = options t"
proof (induction fs arbitrary: t w)
  case Nil
  show ?case by simp
next
  case (Cons f fs)
  obtain e t' w' where r: "transformFile f t w = (e, t', w')" by (cases "transformFile f t w")
  have s: "targetVersion t' = targetVersion t" "projectRoot t' = projectRoot t"
    "reactFiles t' = reactFiles t" "options t' = options t"
    using transformFile_static [of f t w] r by simp_all
  show ?case
  proof (cases e)
    case None
    then show ?thesis using r s Cons.IH [of t' w'] by simp
  next
    case (Some x)
    then show ?thesis using r s by simp
  qed
qed

lemma updateDependencies_static:
  "targetVersion (fst (snd (updateDependencies t w))) = targetVersion t"
  "projectRoot (fst (snd (updateDependencies t w))) = projectRoot t"
  "reactFiles (fst (snd (updateDependencies t w))) = reactFiles t"
  "options (fst (snd (updateDependencies t w))) = options t"
  by (simp_all add: updateDependencies_def Let_def pushFix_def pushIssue_def
      split: option.splits jsonFile.splits)

subsection \<open>Runs in which no write fails\<close>

lemma updateDependenciesW_eq:
  "dryRun (options t) \<or> ws (packageJsonPath t) = None \<Longrightarrow>
   updateDependenciesW ws t w = updateDependencies t w"
  by (auto simp: updateDependenciesW_def updateDependencies_def Let_def
      split: option.splits jsonFile.splits)

lemma transformFileW_eq:
  "dryRun (options t) \<or> ws f = None \<Longrightarrow> transformFileW ws f t w = transformFile f t w"
  by (auto simp: transformFileW_def transformFile_def Let_def split_def split: option.splits)

lemma transformFilesW_eq:
  "dryRun (options t) \<or> (\<forall>f \<in> set fs. ws f = None) \<Longrightarrow>
   transformFilesW ws fs t w = transformFiles fs t w"
proof (induction fs arbitrary: t w)
  case Nil
  show ?case by simp
next
  case (Cons f fs)
  have e: "transformFileW ws f t w = transformFile f t w"
    using transformFileW_eq [of t ws f w] Cons.prems by auto
  obtain er t' w' where r: "transformFile f t w = (er, t', w')" by (cases "transformFile f t w")
  have o: "options t' = options t" using transformFile_static(4) [of f t w] r by simp
  have "dryRun (options t') \<or> (\<forall>f \<in> set fs. ws f = None)" using Cons.prems o by auto
  then have "transformFilesW ws fs t' w' = transformFiles fs t' w'"
    using Cons.IH [of t' w'] by simp
  then show ?case using e r by (cases er) simp_all
qed

lemma updateTsConfigW_eq:
  "dryRun (options t) \<or> ws (pathJoin (projectRoot t) ''tsconfig.json'') = None \<Longrightarrow>
   updateTsConfigW ws t w = updateTsConfig t w"
  by (auto simp: updateTsConfigW_def updateTsConfig_def Let_def split_def
      split: option.splits tsconfigFile.splits)

lemma updateConfigurationW_eq:
  "dryRun (options t) \<or> ws (pathJoin (projectRoot t) ''tsconfig.json'') = None \<Longrightarrow>
   updateConfigurationW ws t w = updateConfiguration t w"
  by (simp add: updateConfigurationW_def updateConfiguration_def updateTsConfigW_eq)

lemma analyzeProject_ok:
  assumes "analyzeProject t w = (None, t1, w1)"
  shows "t1 = findReactFiles t w1" "readsOnly w w1"
  using assms
  by (auto simp: analyzeProject_def Let_def readsOnly_traced
      split: option.splits jsonFile.splits if_splits)

lemma migrateW_eq:
  assumes "dryRun opts \<or>
     (\<forall>p \<in> insert (pathJoin root ''package.json'') (insert (pathJoin root ''tsconfig.json'')
         (set (reactFiles (findReactFiles (t\<lparr>projectRoot := root\<rparr>) w)))). ws p = None)"
  shows "migrateW ws tv root opts t w = migrate tv root opts t w"
proof -
  define t0 where "t0 = t\<lparr>targetVersion := tv, projectRoot := root, options := opts\<rparr>"
  obtain e1 t1 w1 where a: "analyzeProject t0 w = (e1, t1, w1)" by (cases "analyzeProject t0 w")
  show ?thesis
  proof (cases e1)
    case (Some x)
    then show ?thesis using a by (simp add: migrateW_def migrate_def t0_def [symmetric])
  next
    case None
    note ok = analyzeProject_ok [OF a [unfolded None]]
    have sd: "srcDir w1 = srcDir w" using sameDisk_fields(2) [OF readsOnly_sameDisk [OF ok(2)]] .
    have f1: "options t1 = opts" "projectRoot t1 = root"
      "reactFiles t1 = reactFiles (findReactFiles (t\<lparr>projectRoot := root\<rparr>) w)"
      by (simp_all add: ok(1) findReactFiles_fields t0_def sd split: option.splits)
    have c1: "dryRun (options t1) \<or> ws (packageJsonPath t1) = None"
      using assms f1 by (auto simp: packageJsonPath_def)
    define r2 where "r2 = (if \<not> skipDeps (options t1) then updateDependencies t1 w1
        else (None, t1, w1))"
    have u: "(if \<not> skipDeps (options t1) then updateDependenciesW ws t1 w1 else (None, t1, w1)) = r2"
      using updateDependenciesW_eq [of t1 ws w1] c1 by (simp add: r2_def)
    obtain e2 t2 w2 where r2': "r2 = (e2, t2, w2)" by (cases r2)
    have f2: "options t2 = opts" "projectRoot t2 = root"
      "reactFiles t2 = reactFiles (findReactFiles (t\<lparr>projectRoot := root\<rparr>) w)"
      using r2' f1 updateDependencies_static(2,3,4) [of t1 w1]
      by (auto simp: r2_def split: if_splits)
    have c2: "dryRun (options t2) \<or> (\<forall>f \<in> set (reactFiles t2). ws f = None)"
      using assms f2 by auto
    have tc: "transformCodeW ws t2 w2 = transformCode t2 w2"
      unfolding transformCodeW_def transformCode_def
      using transformFilesW_eq [of t2 "reactFiles t2" ws w2] c2 by simp
    obtain e3 t3 w3 where r3: "transformCode t2 w2 = (e3, t3, w3)" by (cases "transformCode t2 w2")
    have f3: "options t3 = opts" "projectRoot t3 = root"
      using transformFiles_static [of "reactFiles t2" t2 w2] r3 f2
      by (simp_all add: transformCode_def)
    have c3: "dryRun (options t3) \<or> ws (pathJoin (projectRoot t3) ''tsconfig.json'') = None"
      using assms f3 by auto
    have uc: "updateConfigurationW ws t3 w3 = updateConfiguration t3 w3"
      using updateConfigurationW_eq [of t3 ws w3] c3 by simp
    have mW: "migrateW ws tv root opts t w =
        (case r2 of (Some e, t2, w2) \<Rightarrow> (Some e, t2, w2)
         | (None, t2, w2) \<Rightarrow>
             (if \<not> depsOnly (options t2) then
                (case transformCodeW ws t2 w2 of
                   (Some e, t3, w3) \<Rightarrow> (Some e, t3, w3)
                 | (None, t3, w3) \<Rightarrow>
                     (case updateConfigurationW ws t3 w3 of (t4, w4) \<Rightarrow> (None, t4, w4)))
              else (None, t2, w2)))"
      using a None u by (simp add: migrateW_def t0_def [symmetric])
    have m: "migrate tv root opts t w =
        (case r2 of (Some e, t2, w2) \<Rightarrow> (Some e, t2, w2)
         | (None, t2, w2) \<Rightarrow>
             (if \<not> depsOnly (options t2) then
                (case transformCode t2 w2 of
                   (Some e, t3, w3) \<Rightarrow> (Some e, t3, w3)
                 | (None, t3, w3) \<Rightarrow>
                     (case updateConfiguration t3 w3 of (t4, w4) \<Rightarrow> (None, t4, w4)))
              else (None, t2, w2)))"
      using a None by (simp add: migrate_def t0_def [symmetric] r2_def)
    show ?thesis
    proof (cases e2)
      case (Some x)
      then show ?thesis unfolding mW m r2' by simp
    next
      case None
      show ?thesis
      proof (cases e3)
        case (Some x)
        then show ?thesis unfolding mW m r2' using \<open>e2 = None\<close> tc r3 by simp
      next
        case None
        then show ?thesis unfolding mW m r2' using \<open>e2 = None\<close> tc r3 uc by simp
      qed
    qed
  qed
qed

subsection \<open>A dry run only reads\<close>

lemma analyzeProject_reads: "readsOnly w (snd (snd (analyzeProject t w)))"
  by (simp add: analyzeProject_def Let_def readsOnly_refl readsOnly_traced
      split: option.splits jsonFile.splits)

lemma analyzeProject_options: "options (fst (snd (analyzeProject t w))) = options t"
  by (simp add: analyzeProject_def Let_def findReactFiles_fields
      split: option.splits jsonFile.splits)

lemma updateDependencies_dry:
  "dryRun (options t) \<Longrightarrow> readsOnly w (snd (snd (updateDependencies t w)))"
  by (simp add: updateDependencies_def Let_def readsOnly_refl readsOnly_traced
      split: option.splits jsonFile.splits)

lemma transformFiles_dry:
  "dryRun (options t) \<Longrightarrow> readsOnly w (snd (snd (transformFiles fs t w)))"
proof (induction fs arbitrary: t w)
  case Nil
  show ?case by (simp add: readsOnly_refl)
next
  case (Cons f fs)
  obtain e t' w' where r: "transformFile f t w = (e, t', w')" by (cases "transformFile f t w")
  have o: "dryRun (options t')" using transformFile_static(4) [of f t w] r Cons.prems by simp
  have d: "readsOnly w w'" using transformFile_dry [OF Cons.prems, of w f] r by simp
  show ?case
  proof (cases e)
    case None
    then show ?thesis using r readsOnly_trans [OF d Cons.IH [OF o, of w']] by simp
  next
    case (Some x)
    then show ?thesis using r d by simp
  qed
qed

lemma updateConfiguration_dry:
  assumes "dryRun (options t)"
  shows "readsOnly w (snd (updateConfiguration t w))"
proof -
  define d1 where "d1 = updateTsConfig t w"
  define d2 where "d2 = updateJestConfig (fst d1) (snd d1)"
  define d3 where "d3 = updateEslintConfig (fst d2) (snd d2)"
  have 1: "readsOnly w (snd d1)" unfolding d1_def using assms by (rule updateTsConfig_dry)
  have 2: "readsOnly (snd d1) (snd d2)" unfolding d2_def by (rule updateJestConfig_reads)
  have 3: "readsOnly (snd d2) (snd d3)" unfolding d3_def by (rule updateEslintConfig_reads)
  have e: "snd (updateConfiguration t w) = snd d3"
    by (simp add: updateConfiguration_def Let_def split_def d1_def d2_def d3_def)
  show ?thesis unfolding e using readsOnly_trans [OF readsOnly_trans [OF 1 2] 3] .
qed

lemma migrate_reads_dry:
  assumes "dryRun opts"
  shows "readsOnly w (snd (snd (migrate tv root opts t w)))"
proof -
  define t0 where "t0 = t\<lparr>targetVersion := tv, projectRoot := root, options := opts\<rparr>"
  obtain e1 t1 w1 where a: "analyzeProject t0 w = (e1, t1, w1)" by (cases "analyzeProject t0 w")
  have r1: "readsOnly w w1" using analyzeProject_reads [of w t0] a by simp
  have o1: "dryRun (options t1)"
    using analyzeProject_options [of t0 w] a assms by (simp add: t0_def)
  show ?thesis
  proof (cases e1)
    case (Some x)
    then show ?thesis using a r1 by (simp add: migrate_def t0_def [symmetric])
  next
    case None
    define r2 where "r2 = (if \<not> skipDeps (options t1) then updateDependencies t1 w1
        else (None, t1, w1))"
    obtain e2 t2 w2 where r2': "r2 = (e2, t2, w2)" by (cases r2)
    have rd2: "readsOnly w1 w2"
      using r2' updateDependencies_dry [OF o1, of w1]
      by (auto simp: r2_def readsOnly_refl split: if_splits)
    have o2: "dryRun (options t2)"
      using r2' o1 updateDependencies_static(4) [of t1 w1] by (auto simp: r2_def split: if_splits)
    obtain e3 t3 w3 where r3: "transformCode t2 w2 = (e3, t3, w3)" by (cases "transformCode t2 w2")
    have rd3: "readsOnly w2 w3"
      using transformFiles_dry [OF o2, of w2 "reactFiles t2"] r3 by (simp add: transformCode_def)
    have o3: "dryRun (options t3)"
      using transformFiles_static [of "reactFiles t2" t2 w2] r3 o2 by (simp add: transformCode_def)
    have rd4: "readsOnly w3 (snd (updateConfiguration t3 w3))"
      using o3 by (rule updateConfiguration_dry)
    have m: "migrate tv root opts t w =
        (case r2 of (Some e, t2, w2) \<Rightarrow> (Some e, t2, w2)
         | (None, t2, w2) \<Rightarrow>
             (if \<not> depsOnly (options t2) then
                (case transformCode t2 w2 of
                   (Some e, t3, w3) \<Rightarrow> (Some e, t3, w3)
                 | (None, t3, w3) \<Rightarrow>
                     (case updateConfiguration t3 w3 of (t4, w4) \<Rightarrow> (None, t4, w4)))
              else (None, t2, w2)))"
      using a None by (simp add: migrate_def t0_def [symmetric] r2_def)
    have w12: "readsOnly w w2" using readsOnly_trans [OF r1 rd2] .
    have w13: "readsOnly w w3" using readsOnly_trans [OF w12 rd3] .
    have w14: "readsOnly w (snd (updateConfiguration t3 w3))" using readsOnly_trans [OF w13 rd4] .
    show ?thesis
    proof (cases e2)
      case (Some x)
      then show ?thesis unfolding m r2' using w12 by simp
    next
      case None
      show ?thesis
      proof (cases "depsOnly (options t2)")
        case True
        then show ?thesis unfolding m r2' using \<open>e2 = None\<close> w12 by simp
      next
        case False
        show ?thesis
        proof (cases e3)
          case (Some x)
          then show ?thesis unfolding m r2' using \<open>e2 = None\<close> False r3 w13 by simp
        next
          case None
          then show ?thesis unfolding m r2' using \<open>e2 = None\<close> False r3 w14
            by (simp add: split_def)
        qed
      qed
    qed
  qed
qed

subsection \<open>Claims about the manifest update\<close>

text \<open>
  Claim C1 (as amended). For every target version in \<open>{17, 18, 19}\<close> and every manifest
  whose direct dependencies hold \<^verbatim>\<open>react\<close> with a non-empty version range, the updated
  manifest has \<^verbatim>\<open>react\<close> pinned to \<^verbatim>\<open>"^" + targetVersion\<close>, and likewise
  \<^verbatim>\<open>react-dom\<close> when its direct entry is non-empty; a package that is not a key of a
  section before the update is not a key of it afterwards.
\<close>

theorem core_packages_repinned:
  "tv \<in> {''17'', ''18'', ''19''} \<Longrightarrow> truthy (entry (dependencies pj) ''react'') \<Longrightarrow>
   entry (dependencies (updatedManifest tv pj)) ''react'' = Some (''^'' @ tv) \<and>
   (truthy (entry (dependencies pj) ''react-dom'') \<longrightarrow>
      entry (dependencies (updatedManifest tv pj)) ''react-dom'' = Some (''^'' @ tv)) \<and>
   (\<forall>pkg. pkg \<notin> keys (dependencies pj) \<longrightarrow> pkg \<notin> keys (dependencies (updatedManifest tv pj))) \<and>
   (\<forall>pkg. pkg \<notin> keys (devDependencies pj) \<longrightarrow>
      pkg \<notin> keys (devDependencies (updatedManifest tv pj)))"
  by (simp add: updatedManifest_deps updatedManifest_shape)

theorem core_packages_repinned_witness:
  "entry (dependencies (updatedManifest ''19''
      \<lparr>dependencies = Some [(''react'', ''^16.0.0''), (''react-dom'', ''^16.0.0'')],
       devDependencies = None\<rparr>)) ''react'' = Some ''^19'' \<and>
   entry (dependencies (updatedManifest ''19''
      \<lparr>dependencies = Some [(''react'', ''^16.0.0''), (''react-dom'', ''^16.0.0'')],
       devDependencies = None\<rparr>)) ''react-dom'' = Some ''^19'' \<and>
   ''react-router-dom'' \<notin> keys (dependencies (updatedManifest ''19''
      \<lparr>dependencies = Some [(''react'', ''^16.0.0''), (''react-dom'', ''^16.0.0'')],
       devDependencies = None\<rparr>))"
  using core_packages_repinned [of "''19''"
      "\<lparr>dependencies = Some [(''react'', ''^16.0.0''), (''react-dom'', ''^16.0.0'')],
        devDependencies = None\<rparr>"]
  by (simp add: entry_simps truthy_simps keys_simps)

text \<open>
  Claim C1 as stated fails where the entry is present with the empty string as its range:
  the code tests the entry's truthiness, so \<^verbatim>\<open>{"react": ""}\<close> is left alone. The
  manifest below passes the precondition of \<^verbatim>\<open>analyzeProject\<close> through its
  development dependency.
\<close>

theorem empty_react_range_not_repinned:
  "''react'' \<in> keys (dependencies
      \<lparr>dependencies = Some [(''react'', '''')],
       devDependencies = Some [(''react'', ''^16.0.0'')]\<rparr>) \<and>
   entry (dependencies (updatedManifest ''18''
      \<lparr>dependencies = Some [(''react'', '''')],
       devDependencies = Some [(''react'', ''^16.0.0'')]\<rparr>)) ''react'' = Some '''' \<and>
   Some '''' \<noteq> Some (''^'' @ ''18'')"
  by (simp add: updatedManifest_deps entry_simps truthy_simps keys_simps)

text \<open>
  Claim C7. For every manifest and target version, the updated manifest has the same key
  set as the input in both sections (and a missing section stays missing); a value
  differs from the input only at \<^verbatim>\<open>react\<close>, \<^verbatim>\<open>react-dom\<close> or a known related package,
  and only where that package was already a key of the section.
\<close>

theorem manifest_key_sets_preserved:
  "keys (dependencies (updatedManifest tv pj)) = keys (dependencies pj) \<and>
   keys (devDependencies (updatedManifest tv pj)) = keys (devDependencies pj) \<and>
   (dependencies (updatedManifest tv pj) = None \<longleftrightarrow> dependencies pj = None) \<and>
   (devDependencies (updatedManifest tv pj) = None \<longleftrightarrow> devDependencies pj = None) \<and>
   (\<forall>pkg. entry (dependencies (updatedManifest tv pj)) pkg \<noteq> entry (dependencies pj) pkg \<longrightarrow>
      pkg \<in> {''react'', ''react-dom''} \<union> fst ` set (getReactRelatedPackages tv) \<and>
      pkg \<in> keys (dependencies pj)) \<and>
   (\<forall>pkg. entry (devDependencies (updatedManifest tv pj)) pkg \<noteq> entry (devDependencies pj) pkg \<longrightarrow>
      pkg \<in> {''react'', ''react-dom''} \<union> fst ` set (getReactRelatedPackages tv) \<and>
      pkg \<in> keys (devDependencies pj))"
proof -
  have deps: "pkg \<in> {''react'', ''react-dom''} \<union> fst ` set (getReactRelatedPackages tv) \<and>
      pkg \<in> keys (dependencies pj)"
    if "entry (dependencies (updatedManifest tv pj)) pkg \<noteq> entry (dependencies pj) pkg" for pkg
  proof -
    from that have t: "truthy (entry (dependencies pj) pkg)"
      by (auto simp: updatedManifest_deps split: if_splits)
    from that have "pkg = ''react'' \<or> pkg = ''react-dom'' \<or>
        map_of (getReactRelatedPackages tv) pkg \<noteq> None"
      by (auto simp: updatedManifest_deps split: if_splits option.splits)
    then show ?thesis using t truthy_in_keys
      by (auto simp: map_of_eq_None_iff)
  qed
  have dev: "pkg \<in> {''react'', ''react-dom''} \<union> fst ` set (getReactRelatedPackages tv) \<and>
      pkg \<in> keys (devDependencies pj)"
    if "entry (devDependencies (updatedManifest tv pj)) pkg \<noteq> entry (devDependencies pj) pkg" for pkg
  proof -
    from that have t: "truthy (entry (devDependencies pj) pkg)"
      by (auto simp: updatedManifest_dev split: if_splits option.splits)
    from that have "map_of (getReactRelatedPackages tv) pkg \<noteq> None"
      by (auto simp: updatedManifest_dev split: if_splits option.splits)
    then show ?thesis using t truthy_in_keys
      by (auto simp: map_of_eq_None_iff)
  qed
  show ?thesis using updatedManifest_shape [of tv pj] deps dev by blast
qed

theorem manifest_key_sets_preserved_witness:
  "keys (dependencies (updatedManifest ''19''
      \<lparr>dependencies = Some [(''react'', ''^16.0.0''), (''react-router-dom'', ''^5.0.0'')],
       devDependencies = None\<rparr>)) = {''react'', ''react-router-dom''} \<and>
   devDependencies (updatedManifest ''19''
      \<lparr>dependencies = Some [(''react'', ''^16.0.0''), (''react-router-dom'', ''^5.0.0'')],
       devDependencies = None\<rparr>) = None \<and>
   entry (dependencies (updatedManifest ''19''
      \<lparr>dependencies = Some [(''react'', ''^16.0.0''), (''react-router-dom'', ''^5.0.0'')],
       devDependencies = None\<rparr>)) ''react-router-dom'' = Some ''^6.20.0'' \<and>
   ''react-router-dom'' \<in> {''react'', ''react-dom''} \<union> fst ` set (getReactRelatedPackages ''19'')"
proof -
  let ?pj = "\<lparr>dependencies = Some [(''react'', ''^16.0.0''), (''react-router-dom'', ''^5.0.0'')],
       devDependencies = None\<rparr>"
  note T = manifest_key_sets_preserved [of "''19''" ?pj]
  have e: "entry (dependencies (updatedManifest ''19'' ?pj)) ''react-router-dom'' = Some ''^6.20.0''"
    by (simp add: updatedManifest_deps entry_simps truthy_simps getReactRelatedPackages_def
        getReactRouterVersion_def versionMap_def)
  then have ne: "entry (dependencies (updatedManifest ''19'' ?pj)) ''react-router-dom'' \<noteq>
      entry (dependencies ?pj) ''react-router-dom''"
    by (simp add: entry_simps)
  have k: "keys (dependencies ?pj) = {''react'', ''react-router-dom''}"
    by (auto simp: keys_simps)
  from T have 1: "keys (dependencies (updatedManifest ''19'' ?pj)) = keys (dependencies ?pj)"
    by blast
  from T have 2: "devDependencies (updatedManifest ''19'' ?pj) = None"
    by simp
  from T ne have 3: "''react-router-dom'' \<in> {''react'', ''react-dom''} \<union> fst ` set (getReactRelatedPackages ''19'')"
    by blast
  show ?thesis using 1 2 3 e k by presburger
qed

text \<open>
  Claim C9 (as amended). If \<^verbatim>\<open>react\<close> is a development dependency with a non-empty
  version range and is not a direct dependency, \<^verbatim>\<open>analyzeProject\<close> accepts the manifest,
  \<^verbatim>\<open>updateDependencies\<close> works on the manifest so read and writes back the updated one
  unless the run is a dry run, and in the updated manifest the development entries of
  \<^verbatim>\<open>react\<close> and \<^verbatim>\<open>react-dom\<close> are unchanged, while every known related package is
  pinned to its mapped version in each section where it had a non-empty entry.
\<close>

theorem dev_only_react_accepted_not_repinned:
  assumes "packageJsonFile w = Some (Parsed pj)"
    and "truthy (entry (devDependencies pj) ''react'')"
    and "''react'' \<notin> keys (dependencies pj)"
  shows "fst (analyzeProject t w) = None \<and>
    packageJsonFile (snd (snd (updateDependencies t w))) =
      Some (Parsed (if dryRun (options t) then pj else updatedManifest (targetVersion t) pj)) \<and>
    entry (devDependencies (updatedManifest tv pj)) ''react'' =
      entry (devDependencies pj) ''react'' \<and>
    entry (devDependencies (updatedManifest tv pj)) ''react-dom'' =
      entry (devDependencies pj) ''react-dom'' \<and>
    (\<forall>(pkg, version) \<in> set (getReactRelatedPackages tv).
       (truthy (entry (dependencies pj) pkg) \<longrightarrow>
          entry (dependencies (updatedManifest tv pj)) pkg = Some version) \<and>
       (truthy (entry (devDependencies pj) pkg) \<longrightarrow>
          entry (devDependencies (updatedManifest tv pj)) pkg = Some version))"
proof -
  have a: "fst (analyzeProject t w) = None"
    using assms by (simp add: analyzeProject_def currentReactVersion_def Let_def)
  have b: "packageJsonFile (snd (snd (updateDependencies t w))) =
      Some (Parsed (if dryRun (options t) then pj else updatedManifest (targetVersion t) pj))"
    using assms(1)
    by (simp add: updateDependencies_def Let_def traced_def split: option.splits)
  have c: "entry (devDependencies (updatedManifest tv pj)) ''react'' =
      entry (devDependencies pj) ''react''"
    "entry (devDependencies (updatedManifest tv pj)) ''react-dom'' =
      entry (devDependencies pj) ''react-dom''"
    by (simp_all add: updatedManifest_dev core_not_related)
  have d: "(truthy (entry (dependencies pj) pkg) \<longrightarrow>
          entry (dependencies (updatedManifest tv pj)) pkg = Some version) \<and>
       (truthy (entry (devDependencies pj) pkg) \<longrightarrow>
          entry (devDependencies (updatedManifest tv pj)) pkg = Some version)"
    if "(pkg, version) \<in> set (getReactRelatedPackages tv)" for pkg version
  proof -
    have m: "map_of (getReactRelatedPackages tv) pkg = Some version"
      using that related_distinct [of tv] by simp
    then have "pkg \<noteq> ''react''" "pkg \<noteq> ''react-dom''"
      using core_not_related [of tv] by auto
    then show ?thesis using m by (simp add: updatedManifest_deps updatedManifest_dev)
  qed
  show ?thesis using a b c d by blast
qed

theorem dev_only_react_accepted_not_repinned_witness:
  "fst (analyzeProject (newTool ''/app'')
     \<lparr>packageJsonFile = Some (Parsed
        \<lparr>dependencies = Some [(''react-router-dom'', ''^5.0.0'')],
         devDependencies = Some [(''react'', ''^16.8.0''), (''@types/react'', ''^16.9.0'')]\<rparr>),
      srcDir = None, sources = Map.empty, tsconfigFile = None, jestConfigFile = None,
      eslintConfigFile = None, babelConfigExists = False, webpackConfigExists = False,
      nodeModules = Map.empty, npmInstallError = None, trace = []\<rparr>) = None \<and>
   entry (devDependencies (updatedManifest ''18''
        \<lparr>dependencies = Some [(''react-router-dom'', ''^5.0.0'')],
         devDependencies = Some [(''react'', ''^16.8.0''), (''@types/react'', ''^16.9.0'')]\<rparr>))
      ''react'' = Some ''^16.8.0'' \<and>
   entry (devDependencies (updatedManifest ''18''
        \<lparr>dependencies = Some [(''react-router-dom'', ''^5.0.0'')],
         devDependencies = Some [(''react'', ''^16.8.0''), (''@types/react'', ''^16.9.0'')]\<rparr>))
      ''@types/react'' = Some ''^18.0.0'' \<and>
   entry (dependencies (updatedManifest ''18''
        \<lparr>dependencies = Some [(''react-router-dom'', ''^5.0.0'')],
         devDependencies = Some [(''react'', ''^16.8.0''), (''@types/react'', ''^16.9.0'')]\<rparr>))
      ''react-router-dom'' = Some ''^6.8.0''"
proof -
  let ?pj = "\<lparr>dependencies = Some [(''react-router-dom'', ''^5.0.0'')],
         devDependencies = Some [(''react'', ''^16.8.0''), (''@types/react'', ''^16.9.0'')]\<rparr>"
  let ?w = "\<lparr>packageJsonFile = Some (Parsed ?pj),
      srcDir = None, sources = Map.empty, tsconfigFile = None, jestConfigFile = None,
      eslintConfigFile = None, babelConfigExists = False, webpackConfigExists = False,
      nodeModules = Map.empty, npmInstallError = None, trace = []\<rparr>"
  have h1: "packageJsonFile ?w = Some (Parsed ?pj)" by simp
  have h2: "truthy (entry (devDependencies ?pj) ''react'')"
    by (simp add: entry_simps truthy_simps)
  have h3: "''react'' \<notin> keys (dependencies ?pj)" by (simp add: keys_simps)
  note T = dev_only_react_accepted_not_repinned [OF h1 h2 h3, of "newTool ''/app''" "''18''"]
  have r1: "(''@types/react'', ''^18.0.0'') \<in> set (getReactRelatedPackages ''18'')"
    by (simp add: getReactRelatedPackages_def getTypesVersion_def versionMap_def)
  have r2: "(''react-router-dom'', ''^6.8.0'') \<in> set (getReactRelatedPackages ''18'')"
    by (simp add: getReactRelatedPackages_def getReactRouterVersion_def versionMap_def)
  have t1: "truthy (entry (devDependencies ?pj) ''@types/react'')"
    by (simp add: entry_simps truthy_simps)
  have t2: "truthy (entry (dependencies ?pj) ''react-router-dom'')"
    by (simp add: entry_simps truthy_simps)
  from T have a: "fst (analyzeProject (newTool ''/app'') ?w) = None" by blast
  from T have b: "entry (devDependencies (updatedManifest ''18'' ?pj)) ''react'' =
      entry (devDependencies ?pj) ''react''" by blast
  from T r1 t1 have c: "entry (devDependencies (updatedManifest ''18'' ?pj)) ''@types/react'' =
      Some ''^18.0.0''" by blast
  from T r2 t2 have d: "entry (dependencies (updatedManifest ''18'' ?pj)) ''react-router-dom'' =
      Some ''^6.8.0''" by blast
  have e: "entry (devDependencies ?pj) ''react'' = Some ''^16.8.0''"
    by (simp add: entry_simps)
  show ?thesis using a b c d e by simp
qed

text \<open>
  Claim C9 as stated fails where the development entry of \<^verbatim>\<open>react\<close> is the empty
  string: \<^verbatim>\<open>react\<close> appears only in \<^verbatim>\<open>devDependencies\<close>, and \<^verbatim>\<open>analyzeProject\<close>
  throws \<^verbatim>\<open>React not found in dependencies\<close>.
\<close>

theorem dev_react_empty_range_rejected:
  "''react'' \<in> keys (devDependencies \<lparr>dependencies = None, devDependencies = Some [(''react'', '''')]\<rparr>) \<and>
   ''react'' \<notin> keys (dependencies \<lparr>dependencies = None, devDependencies = Some [(''react'', '''')]\<rparr>) \<and>
   fst (analyzeProject (newTool ''/app'')
     \<lparr>packageJsonFile = Some (Parsed
        \<lparr>dependencies = None, devDependencies = Some [(''react'', '''')]\<rparr>),
      srcDir = None, sources = Map.empty, tsconfigFile = None, jestConfigFile = None,
      eslintConfigFile = None, babelConfigExists = False, webpackConfigExists = False,
      nodeModules = Map.empty, npmInstallError = None, trace = []\<rparr>) = Some ReactNotFound"
  by (simp add: keys_simps analyzeProject_def currentReactVersion_def entry_simps truthy_simps
      Let_def)


section \<open>Claims about the rewrite pipeline\<close>

lemma strIncludes_Cons:
  "strIncludes (x # xs) pat = (prefix pat (x # xs) \<or> strIncludes xs pat)"
  "strIncludes [] pat = (pat = [])"
  by (simp_all add: strIncludes_def sublist_Cons_right)

lemmas rule_defs =
  applyRules_def transformReactDOMRender_def transformLifecycleMethods_def
  transformEventHandlers_def transformPropTypes_def transformReactFC_def

lemmas eval_defs =
  strIncludes_Cons matchHere_def isSpace_def replaceAll_def replaceString_def cap_def
  pushFix_def pushIssue_def renderRegex_def elementRegex_def receivePropsRegex_def
  importReactRegex_def renderReplacement_def importReactDOM_def importRender_def
  importCreateRoot_def importPropTypes_def jsGe_def newTool_def

text \<open>
  Scenario A of the specification: the default import of the renderer and one render call
  whose container is \<^verbatim>\<open>document.getElementById('root')\<close>.
\<close>

definition scenarioA :: string where
  "scenarioA =
     ''import ReactDOM from 'react-dom'' @ [SQ] @ '';'' @ [NL] @
     ''ReactDOM.render(<App/>, document.getElementById('root'' @ [SQ] @ ''))''"

text \<open>
  Claim C4 (the code departs from it). With target version 17 the pipeline leaves Scenario A
  as it is. With target version 18 the import is rewritten and one fix entry is appended,
  but the call is not replaced by the two statements for its element and its container:
  the pattern takes as container the text up to the first closing parenthesis,
  \<^verbatim>\<open>document.getElementById('root'\<close>, and not the text up to the matching one,
  \<^verbatim>\<open>document.getElementById('root')\<close>. The parenthesis that belongs to the container ends
  up after the element, and both statements are left unbalanced.
\<close>

theorem render_call_container_cut_at_first_parenthesis:
  "applyRules scenarioA ''index.js'' ((newTool ''/app'')\<lparr>targetVersion := ''17''\<rparr>) =
     (scenarioA, (newTool ''/app'')\<lparr>targetVersion := ''17''\<rparr>) \<and>
   applyRules scenarioA ''index.js'' ((newTool ''/app'')\<lparr>targetVersion := ''18''\<rparr>) =
     (''import { createRoot } from 'react-dom/client'' @ [SQ] @ '';'' @ [NL] @
      ''const root = createRoot(document.getElementById('root'' @ [SQ] @ '');'' @ [NL] @
      ''root.render(<App/>))'',
      (newTool ''/app'')\<lparr>targetVersion := ''18'',
         fixes' := [''index.js: Updated ReactDOM.render to createRoot API'']\<rparr>) \<and>
   upToMatching 0 (''document.getElementById('root'' @ [SQ] @ ''))'') =
     Some (''document.getElementById('root'' @ [SQ] @ '')'') \<and>
   fst (applyRules scenarioA ''index.js'' ((newTool ''/app'')\<lparr>targetVersion := ''18''\<rparr>)) \<noteq>
     ''import { createRoot } from 'react-dom/client'' @ [SQ] @ '';'' @ [NL] @
     ''const root = createRoot(document.getElementById('root'' @ [SQ] @ ''));'' @ [NL] @
     ''root.render(<App/>)''"
proof -
  have 1: "applyRules scenarioA ''index.js'' ((newTool ''/app'')\<lparr>targetVersion := ''17''\<rparr>) =
     (scenarioA, (newTool ''/app'')\<lparr>targetVersion := ''17''\<rparr>)"
    by (simp add: scenarioA_def rule_defs eval_defs)
  have 2: "applyRules scenarioA ''index.js'' ((newTool ''/app'')\<lparr>targetVersion := ''18''\<rparr>) =
     (''import { createRoot } from 'react-dom/client'' @ [SQ] @ '';'' @ [NL] @
      ''const root = createRoot(document.getElementById('root'' @ [SQ] @ '');'' @ [NL] @
      ''root.render(<App/>))'',
      (newTool ''/app'')\<lparr>targetVersion := ''18'',
         fixes' := [''index.js: Updated ReactDOM.render to createRoot API'']\<rparr>)"
    by (simp add: scenarioA_def rule_defs eval_defs)
  have 3: "upToMatching 0 (''document.getElementById('root'' @ [SQ] @ ''))'') =
     Some (''document.getElementById('root'' @ [SQ] @ '')'')"
    by simp
  show ?thesis unfolding 2 using 1 3 by simp
qed

text \<open>
  Claim C5 (the code departs from it). A second pass is to find nothing left to do for
  rules 1, 2 and 4. On \<^verbatim>\<open>componentWillReceiveProps()\<close> the first pass reports the
  replacement of \<^verbatim>\<open>componentWillReceiveProps\<close> and replaces nothing, so the name is still
  there for the second pass, which returns the same text and appends the same fix entry
  once more.
\<close>

theorem second_pass_reports_receiveProps_again:
  "applyRules ''componentWillReceiveProps()'' ''App.js'' (newTool ''/app'') =
     (''componentWillReceiveProps()'',
      (newTool ''/app'')\<lparr>fixes' :=
         [''App.js: Replaced componentWillReceiveProps with componentDidUpdate'']\<rparr>) \<and>
   applyRules ''componentWillReceiveProps()'' ''App.js''
     ((newTool ''/app'')\<lparr>fixes' :=
         [''App.js: Replaced componentWillReceiveProps with componentDidUpdate'']\<rparr>) =
     (''componentWillReceiveProps()'',
      (newTool ''/app'')\<lparr>fixes' :=
         [''App.js: Replaced componentWillReceiveProps with componentDidUpdate'',
          ''App.js: Replaced componentWillReceiveProps with componentDidUpdate'']\<rparr>)"
  by (simp add: rule_defs eval_defs)

text \<open>
  Claim C6. For a file whose content holds no pattern that any rule recognises,
  \<^verbatim>\<open>transformFile\<close> leaves the instance as it is (no fix and no issue entry, so neither
  \<^verbatim>\<open>Transformed\<close> nor \<^verbatim>\<open>Would transform\<close>) and leaves the project as it is but for
  the record of the read: nothing is written, and the content is returned as it was.
\<close>

theorem unrecognised_file_untouched:
  assumes "\<not> recognised content" and "sources w filePath = Some content"
  shows "applyRules content (basename filePath) t = (content, t) \<and>
         transformFile filePath t w = (None, t, traced (ReadFile filePath) w)"
proof -
  have a: "applyRules content (basename filePath) t = (content, t)"
    using assms(1) by (simp add: recognised_def rule_defs)
  show ?thesis using a assms(2) by (simp add: transformFile_def Let_def)
qed

definition plainWorld :: world where
  "plainWorld =
     \<lparr>packageJsonFile = Some (Parsed
        \<lparr>dependencies = Some [(''react'', ''^16.0.0'')], devDependencies = None\<rparr>),
      srcDir = Some [FileEnt ''util.js''],
      sources = [''/app/src/util.js'' \<mapsto> ''export const answer = 42;''],
      tsconfigFile = None, jestConfigFile = None, eslintConfigFile = None,
      babelConfigExists = False, webpackConfigExists = False,
      nodeModules = Map.empty, npmInstallError = None, trace = []\<rparr>"

theorem unrecognised_file_untouched_witness:
  "transformFile ''/app/src/util.js'' (newTool ''/app'') plainWorld =
     (None, newTool ''/app'', traced (ReadFile ''/app/src/util.js'') plainWorld)"
proof -
  have h1: "\<not> recognised ''export const answer = 42;''"
    by (simp add: recognised_def strIncludes_Cons renderRegex_def matchHere_def)
  have h2: "sources plainWorld ''/app/src/util.js'' = Some ''export const answer = 42;''"
    by (simp add: plainWorld_def)
  from unrecognised_file_untouched [OF h1 h2, of "newTool ''/app''"]
  show ?thesis by simp
qed

text \<open>
  Claim C10. For content that contains \<^verbatim>\<open>componentWillReceiveProps\<close> but in which the
  pattern of the replacement (the name, optional white space, and a parenthesised
  non-empty argument list) has no match, \<^verbatim>\<open>transformLifecycleMethods\<close> returns what the
  other two substitutions alone produce, so the content itself when neither of their
  names occurs, and the fix log it leaves is the one it found with the entry
  \<^verbatim>\<open>Replaced componentWillReceiveProps with componentDidUpdate\<close> for the file appended
  (after the entry for \<^verbatim>\<open>componentWillMount\<close> and before the one for
  \<^verbatim>\<open>componentWillUpdate\<close>, where those names occur); nothing else of the instance changes.
\<close>

theorem receiveProps_logged_but_unchanged:
  assumes "strIncludes content ''componentWillReceiveProps''"
    and "\<not> regexTest receivePropsRegex content"
  shows "transformLifecycleMethods content fileName t =
     ((let tr1 = (if strIncludes content ''componentWillMount''
                  then replaceAll (Lit ''componentWillMount'') (\<lambda>m c. ''componentDidMount'') content
                  else content)
       in if strIncludes content ''componentWillUpdate''
          then replaceAll (Lit ''componentWillUpdate'') (\<lambda>m c. ''componentDidUpdate'') tr1
          else tr1),
      t\<lparr>fixes' := fixes' t @
           (if strIncludes content ''componentWillMount''
            then [fileName @ '': Replaced componentWillMount with componentDidMount''] else []) @
           [fileName @ '': Replaced componentWillReceiveProps with componentDidUpdate''] @
           (if strIncludes content ''componentWillUpdate''
            then [fileName @ '': Replaced componentWillUpdate with componentDidUpdate'']
            else [])\<rparr>) \<and>
   (\<not> strIncludes content ''componentWillMount'' \<and> \<not> strIncludes content ''componentWillUpdate''
      \<longrightarrow> transformLifecycleMethods content fileName t =
            (content,
             t\<lparr>fixes' := fixes' t @
                [fileName @ '': Replaced componentWillReceiveProps with componentDidUpdate'']\<rparr>))"
proof -
  let ?g = "\<lambda>(m::string) (c::caps). ''componentDidUpdate(prevProps)''"
  have a: "replaceAll receivePropsRegex ?g content = content"
    using assms(2) by (rule replaceAll_no_match)
  have "\<not> regexTest receivePropsRegex
          (replaceAll (Lit ''componentWillMount'') (\<lambda>m c. ''componentDidMount'') content)"
    using assms(2) willMount_test_pull by blast
  then have b: "replaceAll receivePropsRegex ?g
          (replaceAll (Lit ''componentWillMount'') (\<lambda>m c. ''componentDidMount'') content) =
        replaceAll (Lit ''componentWillMount'') (\<lambda>m c. ''componentDidMount'') content"
    by (rule replaceAll_no_match)
  show ?thesis using assms(1) a b
    by (simp add: transformLifecycleMethods_def Let_def pushFix_def)
qed

theorem receiveProps_logged_but_unchanged_witness:
  "transformLifecycleMethods ''componentWillReceiveProps()'' ''App.js'' (newTool ''/app'') =
     (''componentWillReceiveProps()'',
      (newTool ''/app'')\<lparr>fixes' :=
         [''App.js: Replaced componentWillReceiveProps with componentDidUpdate'']\<rparr>)"
proof -
  have h1: "strIncludes ''componentWillReceiveProps()'' ''componentWillReceiveProps''"
    by (simp add: strIncludes_Cons)
  have h2: "\<not> regexTest receivePropsRegex ''componentWillReceiveProps()''"
    by (simp add: receivePropsRegex_def matchHere_def isSpace_def)
  have h3: "\<not> strIncludes ''componentWillReceiveProps()'' ''componentWillMount''"
    "\<not> strIncludes ''componentWillReceiveProps()'' ''componentWillUpdate''"
    by (simp_all add: strIncludes_Cons)
  from receiveProps_logged_but_unchanged [OF h1 h2, of "''App.js''" "newTool ''/app''"] h3
  show ?thesis by (simp add: newTool_def)
qed

section \<open>Claims about \<^verbatim>\<open>migrate\<close> and the command line\<close>

text \<open>
  Claim C2 (as amended). The default command, given a target version outside
  \<^verbatim>\<open>17\<close>, \<^verbatim>\<open>18\<close>, \<^verbatim>\<open>19\<close>, exits with failure and leaves the project as it is: nothing
  is read and nothing is written. \<^verbatim>\<open>migrate\<close>, for any target version, fails with
  \<^verbatim>\<open>package.json not found\<close> when the manifest is missing, again with nothing read and
  nothing written; and when the manifest has no non-empty \<^verbatim>\<open>react\<close> entry in either
  section it fails with \<^verbatim>\<open>React not found in dependencies\<close> after reading the manifest,
  which is the only thing it does to the project: nothing is written and no manifest entry
  is changed. In both failures the issue and fix logs are as they were.
\<close>

theorem precondition_failures_abort_before_writing:
  "(tv \<notin> set [''17'', ''18'', ''19''] \<longrightarrow> cliMigrate cwd tv root opts w = (ExitFailure, w)) \<and>
   (packageJsonFile w = None \<longrightarrow>
      migrate tv root opts t w =
        (Some PackageJsonNotFound,
         t\<lparr>targetVersion := tv, projectRoot := root, options := opts\<rparr>, w)) \<and>
   (\<forall>pj. packageJsonFile w = Some (Parsed pj) \<and>
         \<not> truthy (entry (dependencies pj) ''react'') \<and>
         \<not> truthy (entry (devDependencies pj) ''react'') \<longrightarrow>
      migrate tv root opts t w =
        (Some ReactNotFound,
         t\<lparr>targetVersion := tv, projectRoot := root, options := opts\<rparr>,
         w\<lparr>trace := trace w @ [ReadFile (pathJoin root ''package.json'')]\<rparr>))"
  by (auto simp: cliMigrate_def migrate_def analyzeProject_def currentReactVersion_def
      traced_def packageJsonPath_def Let_def truthy_simps)

definition bareManifest :: packageJson where
  "bareManifest =
     \<lparr>dependencies = Some [(''react'', ''^15.6.0''), (''react-dom'', ''^15.6.0'')],
      devDependencies = None\<rparr>"

definition bareWorld :: world where
  "bareWorld =
     \<lparr>packageJsonFile = Some (Parsed bareManifest),
      srcDir = Some [], sources = Map.empty,
      tsconfigFile = None, jestConfigFile = None, eslintConfigFile = None,
      babelConfigExists = False, webpackConfigExists = False,
      nodeModules = Map.empty, npmInstallError = None, trace = []\<rparr>"

definition noOptions :: MigrationOptions where
  "noOptions = \<lparr>dryRun = False, verbose = False, skipDeps = False, depsOnly = False\<rparr>"

theorem precondition_failures_abort_before_writing_witness:
  "cliMigrate ''/app'' ''16'' ''/app'' noOptions bareWorld = (ExitFailure, bareWorld) \<and>
   migrate ''18'' ''/app'' noOptions (newTool ''/app'') (bareWorld\<lparr>packageJsonFile := None\<rparr>) =
     (Some PackageJsonNotFound,
      (newTool ''/app'')\<lparr>targetVersion := ''18'', projectRoot := ''/app'', options := noOptions\<rparr>,
      bareWorld\<lparr>packageJsonFile := None\<rparr>) \<and>
   migrate ''18'' ''/app'' noOptions (newTool ''/app'')
      (bareWorld\<lparr>packageJsonFile := Some (Parsed
         \<lparr>dependencies = Some [(''lodash'', ''^4.17.0'')], devDependencies = None\<rparr>)\<rparr>) =
     (Some ReactNotFound,
      (newTool ''/app'')\<lparr>targetVersion := ''18'', projectRoot := ''/app'', options := noOptions\<rparr>,
      bareWorld\<lparr>packageJsonFile := Some (Parsed
         \<lparr>dependencies = Some [(''lodash'', ''^4.17.0'')], devDependencies = None\<rparr>),
        trace := [ReadFile ''/app/package.json'']\<rparr>)"
proof -
  let ?pj = "\<lparr>dependencies = Some [(''lodash'', ''^4.17.0'')], devDependencies = None\<rparr>"
  let ?w2 = "bareWorld\<lparr>packageJsonFile := None\<rparr>"
  let ?w3 = "bareWorld\<lparr>packageJsonFile := Some (Parsed ?pj)\<rparr>"
  have h1: "''16'' \<notin> set [''17'', ''18'', ''19'']" by simp
  have h2: "packageJsonFile ?w2 = None" by simp
  have h3: "packageJsonFile ?w3 = Some (Parsed ?pj) \<and>
         \<not> truthy (entry (dependencies ?pj) ''react'') \<and>
         \<not> truthy (entry (devDependencies ?pj) ''react'')"
    by (simp add: entry_simps truthy_simps)
  from precondition_failures_abort_before_writing
         [of "''16''" "''/app''" "''/app''" noOptions bareWorld] h1
  have 1: "cliMigrate ''/app'' ''16'' ''/app'' noOptions bareWorld = (ExitFailure, bareWorld)"
    by blast
  from precondition_failures_abort_before_writing
         [of "''18''" "''/app''" "''/app''" noOptions ?w2 "newTool ''/app''"] h2
  have 2: "migrate ''18'' ''/app'' noOptions (newTool ''/app'') ?w2 =
     (Some PackageJsonNotFound,
      (newTool ''/app'')\<lparr>targetVersion := ''18'', projectRoot := ''/app'', options := noOptions\<rparr>,
      ?w2)"
    by blast
  from precondition_failures_abort_before_writing
         [of "''18''" "''/app''" "''/app''" noOptions ?w3 "newTool ''/app''"] h3
  have 3: "migrate ''18'' ''/app'' noOptions (newTool ''/app'') ?w3 =
     (Some ReactNotFound,
      (newTool ''/app'')\<lparr>targetVersion := ''18'', projectRoot := ''/app'', options := noOptions\<rparr>,
      ?w3\<lparr>trace := trace ?w3 @ [ReadFile (pathJoin ''/app'' ''package.json'')]\<rparr>)"
    by blast
  show ?thesis using 1 2 3 by (simp add: bareWorld_def pathJoin_def)
qed

text \<open>
  Claim C2 as the specification words it fails on the code in two ways. \<^verbatim>\<open>migrate\<close>
  itself does not look at the target version: called with \<^verbatim>\<open>16\<close> it raises no error and
  rewrites the manifest. And the failure for a manifest without \<^verbatim>\<open>react\<close> is raised
  after the manifest has been read.
\<close>

theorem unsupported_version_not_rejected_by_migrate:
  "fst (migrate ''16'' ''/app'' noOptions (newTool ''/app'') bareWorld) = None \<and>
   packageJsonFile (snd (snd (migrate ''16'' ''/app'' noOptions (newTool ''/app'') bareWorld))) =
     Some (Parsed \<lparr>dependencies = Some [(''react'', ''^16''), (''react-dom'', ''^16'')],
                   devDependencies = None\<rparr>) \<and>
   trace (snd (snd (migrate ''16'' ''/app'' noOptions (newTool ''/app'') bareWorld))) =
     [ReadFile ''/app/package.json'', ReadFile ''/app/package.json'',
      WriteFile ''/app/package.json'', Exec ''npm install''] \<and>
   trace (snd (snd (migrate ''18'' ''/app'' noOptions (newTool ''/app'')
      (bareWorld\<lparr>packageJsonFile := Some (Parsed
         \<lparr>dependencies = Some [(''lodash'', ''^4.17.0'')], devDependencies = None\<rparr>)\<rparr>)))) =
     [ReadFile ''/app/package.json'']"
proof -
  have m: "updatedManifest ''16'' bareManifest = updateCore ''16'' bareManifest"
    by (rule updatedManifest_core_only [where m = "[(''react'', ''^15.6.0''), (''react-dom'', ''^15.6.0'')]"])
       (simp_all add: bareManifest_def)
  have c: "updateCore ''16'' bareManifest =
     \<lparr>dependencies = Some [(''react'', ''^16''), (''react-dom'', ''^16'')], devDependencies = None\<rparr>"
    by (simp add: updateCore_def bareManifest_def entry_simps truthy_simps assign_def Let_def)
  have tr: "truthy (currentReactVersion bareManifest)"
    by (simp add: currentReactVersion_def bareManifest_def entry_simps truthy_simps)
  have r: "migrate ''16'' ''/app'' noOptions (newTool ''/app'') bareWorld =
     (None,
      (newTool ''/app'')\<lparr>targetVersion := ''16'', projectRoot := ''/app'', options := noOptions,
         reactFiles := [],
         fixes' := [''Updated package.json with new React versions'',
                    ''Installed updated dependencies'']\<rparr>,
      bareWorld\<lparr>packageJsonFile := Some (Parsed
          \<lparr>dependencies = Some [(''react'', ''^16''), (''react-dom'', ''^16'')],
           devDependencies = None\<rparr>),
        trace := [ReadFile ''/app/package.json'', ReadFile ''/app/package.json'',
                  WriteFile ''/app/package.json'', Exec ''npm install'']\<rparr>)"
    by (simp add: migrate_def analyzeProject_def updateDependencies_def transformCode_def
        updateConfiguration_def updateTsConfig_def updateJestConfig_def updateEslintConfig_def
        checkBabelConfig_def checkWebpackConfig_def findReactFiles_def getReactFiles_def
        packageJsonPath_def pathJoin_def traced_def pushFix_def
        newTool_def noOptions_def bareWorld_def Let_def m c tr)
  have l: "migrate ''18'' ''/app'' noOptions (newTool ''/app'')
      (bareWorld\<lparr>packageJsonFile := Some (Parsed
         \<lparr>dependencies = Some [(''lodash'', ''^4.17.0'')], devDependencies = None\<rparr>)\<rparr>) =
     (Some ReactNotFound,
      (newTool ''/app'')\<lparr>targetVersion := ''18'', projectRoot := ''/app'', options := noOptions\<rparr>,
      bareWorld\<lparr>packageJsonFile := Some (Parsed
         \<lparr>dependencies = Some [(''lodash'', ''^4.17.0'')], devDependencies = None\<rparr>),
        trace := [ReadFile ''/app/package.json'']\<rparr>)"
    by (simp add: migrate_def analyzeProject_def currentReactVersion_def packageJsonPath_def
        pathJoin_def traced_def bareWorld_def Let_def entry_simps truthy_simps)
  show ?thesis unfolding r l by simp
qed

section \<open>Claims about the dry run\<close>

text \<open>
  Claim C3 (as amended). Take any project, target version, options and instance, and
  whatever the writes would do. A run of \<^verbatim>\<open>migrate\<close> with the dry-run option leaves the
  project as it found it and makes no call but reads: no file is written, so the source
  files and the manifest keep their bytes, and nothing is executed. If moreover the list
  of source files found has no repetition and the writes to the manifest, to
  \<^verbatim>\<open>tsconfig.json\<close> and to the source files found go through, then the dry run and the
  real run end alike (both return, or both throw the same error), and their logs match.
  The fix entries that the dry run appends match, one by one and in order, those that the
  real run appends (the same text, or the \<^verbatim>\<open>Would ...\<close> form of it), once the entry
  \<^verbatim>\<open>Installed updated dependencies\<close> is taken out of the real run's entries: only a real
  run runs the installer. The issue entries that the dry run appends are those that the
  real run appends, once the entry \<^verbatim>\<open>Failed to install dependencies: ...\<close> is taken out
  of the real run's entries when the installer ran and failed.
\<close>

theorem dry_run_log_matches_real_run:
  "(\<exists>reads.
      snd (snd (migrateW ws tv root (opts\<lparr>dryRun := True\<rparr>) t w)) =
        w\<lparr>trace := trace w @ reads\<rparr> \<and>
      list_all isRead reads) \<and>
   (distinct (reactFiles (findReactFiles (t\<lparr>projectRoot := root\<rparr>) w)) \<and>
    (\<forall>p \<in> insert (pathJoin root ''package.json'') (insert (pathJoin root ''tsconfig.json'')
        (set (reactFiles (findReactFiles (t\<lparr>projectRoot := root\<rparr>) w)))). ws p = None) \<longrightarrow>
      fst (migrateW ws tv root (opts\<lparr>dryRun := True\<rparr>) t w) =
        fst (migrateW ws tv root (opts\<lparr>dryRun := False\<rparr>) t w) \<and>
      (\<exists>Fr Fd.
         fixes' (fst (snd (migrateW ws tv root (opts\<lparr>dryRun := False\<rparr>) t w))) = fixes' t @ Fr \<and>
         fixes' (fst (snd (migrateW ws tv root (opts\<lparr>dryRun := True\<rparr>) t w))) = fixes' t @ Fd \<and>
         list_all2 equivEntry
           (if installRuns opts w \<and> npmInstallError w = None
            then remove1 ''Installed updated dependencies'' Fr else Fr) Fd) \<and>
      (\<exists>Ir Id.
         issues (fst (snd (migrateW ws tv root (opts\<lparr>dryRun := False\<rparr>) t w))) = issues t @ Ir \<and>
         issues (fst (snd (migrateW ws tv root (opts\<lparr>dryRun := True\<rparr>) t w))) = issues t @ Id \<and>
         Id = (case npmInstallError w of
                 None \<Rightarrow> Ir
               | Some msg \<Rightarrow>
                   if installRuns opts w
                   then remove1 (''Failed to install dependencies: '' @ msg) Ir else Ir)))"
proof (intro conjI impI)
  have d: "migrateW ws tv root (opts\<lparr>dryRun := True\<rparr>) t w =
      migrate tv root (opts\<lparr>dryRun := True\<rparr>) t w"
    by (rule migrateW_eq) simp
  have "readsOnly w (snd (snd (migrate tv root (opts\<lparr>dryRun := True\<rparr>) t w)))"
    by (rule migrate_reads_dry) simp
  then show "\<exists>reads.
      snd (snd (migrateW ws tv root (opts\<lparr>dryRun := True\<rparr>) t w)) =
        w\<lparr>trace := trace w @ reads\<rparr> \<and>
      list_all isRead reads"
    unfolding d readsOnly_def .
next
  assume h: "distinct (reactFiles (findReactFiles (t\<lparr>projectRoot := root\<rparr>) w)) \<and>
    (\<forall>p \<in> insert (pathJoin root ''package.json'') (insert (pathJoin root ''tsconfig.json'')
        (set (reactFiles (findReactFiles (t\<lparr>projectRoot := root\<rparr>) w)))). ws p = None)"
  have d: "migrateW ws tv root (opts\<lparr>dryRun := True\<rparr>) t w =
      migrate tv root (opts\<lparr>dryRun := True\<rparr>) t w"
    by (rule migrateW_eq) simp
  have r: "migrateW ws tv root (opts\<lparr>dryRun := False\<rparr>) t w =
      migrate tv root (opts\<lparr>dryRun := False\<rparr>) t w"
    by (rule migrateW_eq, rule disjI2, rule conjunct2 [OF h])
  from h have dist: "distinct (reactFiles (findReactFiles (t\<lparr>projectRoot := root\<rparr>) w))"
    by (rule conjunct1)
  note M = migrate_dry_real [OF dist, of tv opts]
  show "fst (migrateW ws tv root (opts\<lparr>dryRun := True\<rparr>) t w) =
        fst (migrateW ws tv root (opts\<lparr>dryRun := False\<rparr>) t w)"
    unfolding d r using M by (rule conjunct1)
  show "\<exists>Fr Fd.
         fixes' (fst (snd (migrateW ws tv root (opts\<lparr>dryRun := False\<rparr>) t w))) = fixes' t @ Fr \<and>
         fixes' (fst (snd (migrateW ws tv root (opts\<lparr>dryRun := True\<rparr>) t w))) = fixes' t @ Fd \<and>
         list_all2 equivEntry
           (if installRuns opts w \<and> npmInstallError w = None
            then remove1 ''Installed updated dependencies'' Fr else Fr) Fd"
    unfolding d r using M by (elim conjE)
  show "\<exists>Ir Id.
         issues (fst (snd (migrateW ws tv root (opts\<lparr>dryRun := False\<rparr>) t w))) = issues t @ Ir \<and>
         issues (fst (snd (migrateW ws tv root (opts\<lparr>dryRun := True\<rparr>) t w))) = issues t @ Id \<and>
         Id = (case npmInstallError w of
                 None \<Rightarrow> Ir
               | Some msg \<Rightarrow>
                   if installRuns opts w
                   then remove1 (''Failed to install dependencies: '' @ msg) Ir else Ir)"
    unfolding d r using M by (elim conjE)
qed

text \<open>
  A project with one source file, Scenario A, and a style sheet beside it; and writes that
  all go through, but for one to a file that the tool does not touch.
\<close>

definition demoWorld :: world where
  "demoWorld =
     \<lparr>packageJsonFile = Some (Parsed
        \<lparr>dependencies = Some [(''react'', ''^15.6.0''), (''react-dom'', ''^15.6.0'')],
         devDependencies = None\<rparr>),
      srcDir = Some [FileEnt ''index.js'', FileEnt ''style.css''],
      sources = [''/app/src/index.js'' \<mapsto> scenarioA],
      tsconfigFile = None, jestConfigFile = None, eslintConfigFile = None,
      babelConfigExists = False, webpackConfigExists = False,
      nodeModules = Map.empty, npmInstallError = None, trace = []\<rparr>"

definition readmeLocked :: writes where
  "readmeLocked p = (if p = ''/app/README.md'' then Some ''EACCES: permission denied'' else None)"

theorem dry_run_log_matches_real_run_witness:
  "(\<exists>reads.
      snd (snd (migrateW readmeLocked ''18'' ''/app'' (noOptions\<lparr>dryRun := True\<rparr>)
        (newTool ''/app'') demoWorld)) = demoWorld\<lparr>trace := trace demoWorld @ reads\<rparr> \<and>
      list_all isRead reads) \<and>
   fst (migrateW readmeLocked ''18'' ''/app'' (noOptions\<lparr>dryRun := True\<rparr>) (newTool ''/app'')
     demoWorld) =
     fst (migrateW readmeLocked ''18'' ''/app'' (noOptions\<lparr>dryRun := False\<rparr>) (newTool ''/app'')
       demoWorld) \<and>
   (\<exists>Fr Fd.
      fixes' (fst (snd (migrateW readmeLocked ''18'' ''/app'' (noOptions\<lparr>dryRun := False\<rparr>)
        (newTool ''/app'') demoWorld))) = fixes' (newTool ''/app'') @ Fr \<and>
      fixes' (fst (snd (migrateW readmeLocked ''18'' ''/app'' (noOptions\<lparr>dryRun := True\<rparr>)
        (newTool ''/app'') demoWorld))) = fixes' (newTool ''/app'') @ Fd \<and>
      list_all2 equivEntry
        (if installRuns noOptions demoWorld \<and> npmInstallError demoWorld = None
         then remove1 ''Installed updated dependencies'' Fr else Fr) Fd) \<and>
   (\<exists>Ir Id.
      issues (fst (snd (migrateW readmeLocked ''18'' ''/app'' (noOptions\<lparr>dryRun := False\<rparr>)
        (newTool ''/app'') demoWorld))) = issues (newTool ''/app'') @ Ir \<and>
      issues (fst (snd (migrateW readmeLocked ''18'' ''/app'' (noOptions\<lparr>dryRun := True\<rparr>)
        (newTool ''/app'') demoWorld))) = issues (newTool ''/app'') @ Id \<and>
      Id = (case npmInstallError demoWorld of
              None \<Rightarrow> Ir
            | Some msg \<Rightarrow>
                if installRuns noOptions demoWorld
                then remove1 (''Failed to install dependencies: '' @ msg) Ir else Ir))"
proof -
  have h: "distinct (reactFiles (findReactFiles ((newTool ''/app'')\<lparr>projectRoot := ''/app''\<rparr>)
        demoWorld)) \<and>
    (\<forall>p \<in> insert (pathJoin ''/app'' ''package.json'') (insert (pathJoin ''/app'' ''tsconfig.json'')
        (set (reactFiles (findReactFiles ((newTool ''/app'')\<lparr>projectRoot := ''/app''\<rparr>)
           demoWorld)))). readmeLocked p = None)"
    by (simp add: findReactFiles_def getReactFiles_def hasReactExtension_def demoWorld_def
        suffix_to_prefix pathJoin_def readmeLocked_def)
  note T = dry_run_log_matches_real_run [of readmeLocked "''18''" "''/app''" noOptions
      "newTool ''/app''" demoWorld]
  note T1 = T [THEN conjunct1]
  note T2 = T [THEN conjunct2, THEN mp, OF h]
  show ?thesis using T1 T2 by (rule conjI)
qed

text \<open>
  Claim C3 as the specification words it fails on the code in two ways. On a project that
  holds a manifest and no source file, with every write going through, the real run logs
  two fixes and the dry run one, and no entry of the dry run stands for the real run's
  \<^verbatim>\<open>Installed updated dependencies\<close>. And when the manifest of that project cannot be
  written, the real run throws the error of the write and logs nothing, while the dry run
  returns and logs its entry.
\<close>

definition allWritten :: writes where
  "allWritten p = None"

definition manifestLocked :: writes where
  "manifestLocked p =
     (if p = ''/app/package.json'' then Some ''EACCES: permission denied'' else None)"

theorem real_run_logs_installation_dry_run_does_not:
  "fixes' (fst (snd (migrateW allWritten ''18'' ''/app'' (noOptions\<lparr>dryRun := False\<rparr>)
     (newTool ''/app'') bareWorld))) =
     [''Updated package.json with new React versions'', ''Installed updated dependencies''] \<and>
   fixes' (fst (snd (migrateW allWritten ''18'' ''/app'' (noOptions\<lparr>dryRun := True\<rparr>)
     (newTool ''/app'') bareWorld))) =
     [''Would update package.json with new React versions (dry run)''] \<and>
   \<not> list_ex (equivEntry ''Installed updated dependencies'')
       [''Would update package.json with new React versions (dry run)''] \<and>
   fst (migrateW manifestLocked ''18'' ''/app'' (noOptions\<lparr>dryRun := False\<rparr>)
     (newTool ''/app'') bareWorld) = Some (WriteFailed ''EACCES: permission denied'') \<and>
   fixes' (fst (snd (migrateW manifestLocked ''18'' ''/app'' (noOptions\<lparr>dryRun := False\<rparr>)
     (newTool ''/app'') bareWorld))) = [] \<and>
   fst (migrateW manifestLocked ''18'' ''/app'' (noOptions\<lparr>dryRun := True\<rparr>)
     (newTool ''/app'') bareWorld) = None \<and>
   fixes' (fst (snd (migrateW manifestLocked ''18'' ''/app'' (noOptions\<lparr>dryRun := True\<rparr>)
     (newTool ''/app'') bareWorld))) =
     [''Would update package.json with new React versions (dry run)'']"
proof -
  have tr: "truthy (currentReactVersion bareManifest)"
    by (simp add: currentReactVersion_def bareManifest_def entry_simps truthy_simps)
  note defs = migrateW_def analyzeProject_def updateDependenciesW_def transformCodeW_def
    updateConfigurationW_def updateTsConfigW_def updateJestConfig_def updateEslintConfig_def
    checkBabelConfig_def checkWebpackConfig_def findReactFiles_def getReactFiles_def
    packageJsonPath_def pathJoin_def traced_def pushFix_def
    newTool_def noOptions_def bareWorld_def Let_def tr
  have 1: "fixes' (fst (snd (migrateW allWritten ''18'' ''/app'' (noOptions\<lparr>dryRun := False\<rparr>)
      (newTool ''/app'') bareWorld))) =
     [''Updated package.json with new React versions'', ''Installed updated dependencies'']"
    by (simp add: defs allWritten_def)
  have 2: "fixes' (fst (snd (migrateW allWritten ''18'' ''/app'' (noOptions\<lparr>dryRun := True\<rparr>)
      (newTool ''/app'') bareWorld))) =
     [''Would update package.json with new React versions (dry run)'']"
    by (simp add: defs allWritten_def)
  have 3: "\<not> list_ex (equivEntry ''Installed updated dependencies'')
       [''Would update package.json with new React versions (dry run)'']"
    by (simp add: equivEntry_def)
  have 4: "migrateW manifestLocked ''18'' ''/app'' (noOptions\<lparr>dryRun := False\<rparr>)
      (newTool ''/app'') bareWorld =
     (Some (WriteFailed ''EACCES: permission denied''),
      (newTool ''/app'')\<lparr>targetVersion := ''18'', projectRoot := ''/app'',
         options := noOptions\<lparr>dryRun := False\<rparr>, reactFiles := []\<rparr>,
      bareWorld\<lparr>trace := [ReadFile ''/app/package.json'', ReadFile ''/app/package.json'',
                           WriteFile ''/app/package.json'']\<rparr>)"
    by (simp add: defs manifestLocked_def)
  have 5: "fst (migrateW manifestLocked ''18'' ''/app'' (noOptions\<lparr>dryRun := True\<rparr>)
      (newTool ''/app'') bareWorld) = None"
    by (simp add: defs manifestLocked_def)
  have 6: "fixes' (fst (snd (migrateW manifestLocked ''18'' ''/app'' (noOptions\<lparr>dryRun := True\<rparr>)
      (newTool ''/app'') bareWorld))) =
     [''Would update package.json with new React versions (dry run)'']"
    by (simp add: defs manifestLocked_def)
  show ?thesis unfolding 4 using 1 2 3 5 6 by (simp add: newTool_def)
qed

section \<open>Claims about the peer-dependency check\<close>

text \<open>
  Claim C8 (as amended). \<^verbatim>\<open>isVersionCompatible\<close> holds exactly when the major numbers
  of the two ranges are numbers and are equal, where the major number of a range is what
  \<^verbatim>\<open>parseInt\<close> reads in the text before the first dot, once the first \<^verbatim>\<open>^\<close> or
  \<^verbatim>\<open>~\<close> is removed. For a range made of an optional leading \<^verbatim>\<open>^\<close> or \<^verbatim>\<open>~\<close>, a run
  of decimal digits (of value below \<open>2\<^sup>5\<^sup>3\<close>) and either nothing or a rest that starts
  with a character other than a digit, \<^verbatim>\<open>^\<close>, \<^verbatim>\<open>~\<close>, \<^verbatim>\<open>x\<close> and \<^verbatim>\<open>X\<close>, the major
  number is the value of the digits. A missing version (nothing, or a dot, after the
  optional \<^verbatim>\<open>^\<close> or \<^verbatim>\<open>~\<close>) has major 0. A non-numeric version, one whose first
  character after the optional \<^verbatim>\<open>^\<close> or \<^verbatim>\<open>~\<close> is no digit, white space, sign, dot,
  \<^verbatim>\<open>^\<close> or \<^verbatim>\<open>~\<close>, has no major number and is compatible with no version. When an
  installed package of the manifest whose name contains \<^verbatim>\<open>react\<close> (other than
  \<^verbatim>\<open>react\<close> and \<^verbatim>\<open>react-dom\<close>) declares a peer range that is not compatible with
  the target, \<^verbatim>\<open>updateDependencies\<close> of the extended variant records an issue line naming
  the package and both versions, raises no error, and a real run still writes the
  updated manifest.
\<close>

theorem peer_compatibility_check:
  "(isVersionCompatible v1 v2 \<longleftrightarrow> majorOf v1 \<noteq> NaN \<and> majorOf v1 = majorOf v2) \<and>
   ((p = [] \<or> p = ''^'' \<or> p = ''~'') \<and> ds \<noteq> [] \<and> (\<forall>c \<in> set ds. radixDigit 10 c \<noteq> None) \<and>
      digitsValue 10 ds < 2 ^ 53 \<and>
      (rest = [] \<or> (radixDigit 10 (hd rest) = None \<and> hd rest \<notin> set ''^~xX'')) \<longrightarrow>
      majorOf (p @ ds @ rest) = Finite (int (digitsValue 10 ds))) \<and>
   ((q = [] \<or> q = ''^'' \<or> q = ''~'') \<and> (tl0 = [] \<or> hd tl0 = CHR ''.'') \<longrightarrow>
      majorOf (q @ tl0) = Finite 0) \<and>
   ((r = [] \<or> r = ''^'' \<or> r = ''~'') \<and> radixDigit 10 c = None \<and> \<not> isSpace c \<and>
      c \<notin> set ''+-.^~'' \<longrightarrow>
      majorOf (r @ c # tl1) = NaN \<and> \<not> isVersionCompatible (r @ c # tl1) v2 \<and>
      \<not> isVersionCompatible v1 (r @ c # tl1)) \<and>
   (packageJsonFile w = Some (Parsed pj) \<and>
      pkg \<in> keys (dependencies pj) \<union> keys (devDependencies pj) \<and>
      strIncludes pkg ''react'' \<and> pkg \<noteq> ''react'' \<and> pkg \<noteq> ''react-dom'' \<and>
      nodeModules w pkg = Some (PeerParsed (Some peer)) \<and> peer \<noteq> [] \<and>
      \<not> isVersionCompatible (''^'' @ targetVersion t) peer \<longrightarrow>
      (''  - '' @ pkg @ '' requires React '' @ peer @ '' but we'' @ [SQ] @
         ''re upgrading to ^'' @ targetVersion t)
        \<in> set (issues (fst (snd (updateDependenciesExt t w)))) \<and>
      fst (updateDependenciesExt t w) = None \<and>
      (\<not> dryRun (options t) \<longrightarrow>
         packageJsonFile (snd (snd (updateDependenciesExt t w))) =
           Some (Parsed (updatedManifest (targetVersion t) pj))))"
proof (intro conjI impI)
  show "isVersionCompatible v1 v2 \<longleftrightarrow> majorOf v1 \<noteq> NaN \<and> majorOf v1 = majorOf v2"
    by (auto simp: isVersionCompatible_def strictEq_def)
next
  assume "(p = [] \<or> p = ''^'' \<or> p = ''~'') \<and> ds \<noteq> [] \<and> (\<forall>c \<in> set ds. radixDigit 10 c \<noteq> None) \<and>
      digitsValue 10 ds < 2 ^ 53 \<and>
      (rest = [] \<or> (radixDigit 10 (hd rest) = None \<and> hd rest \<notin> set ''^~xX''))"
  then show "majorOf (p @ ds @ rest) = Finite (int (digitsValue 10 ds))"
    using majorOf_leading_digits [of p ds rest] by blast
next
  assume "(q = [] \<or> q = ''^'' \<or> q = ''~'') \<and> (tl0 = [] \<or> hd tl0 = CHR ''.'')"
  then show "majorOf (q @ tl0) = Finite 0" using majorOf_missing [of q tl0] by blast
next
  assume n: "(r = [] \<or> r = ''^'' \<or> r = ''~'') \<and> radixDigit 10 c = None \<and> \<not> isSpace c \<and>
      c \<notin> set ''+-.^~''"
  have n1: "r = [] \<or> r = ''^'' \<or> r = ''~''" using n by (rule conjunct1)
  have n2: "radixDigit 10 c = None" using n by (elim conjE)
  have n3: "\<not> isSpace c" using n by (elim conjE)
  have n4: "c \<notin> set ''+-.^~''" using n by (elim conjE)
  show nan: "majorOf (r @ c # tl1) = NaN" using n1 n2 n3 n4 by (rule majorOf_nonnumeric)
  show "\<not> isVersionCompatible (r @ c # tl1) v2"
    using nan by (simp add: isVersionCompatible_def strictEq_def)
  show "\<not> isVersionCompatible v1 (r @ c # tl1)"
    using nan by (simp add: isVersionCompatible_def strictEq_def)
next
  assume a: "packageJsonFile w = Some (Parsed pj) \<and>
      pkg \<in> keys (dependencies pj) \<union> keys (devDependencies pj) \<and>
      strIncludes pkg ''react'' \<and> pkg \<noteq> ''react'' \<and> pkg \<noteq> ''react-dom'' \<and>
      nodeModules w pkg = Some (PeerParsed (Some peer)) \<and> peer \<noteq> [] \<and>
      \<not> isVersionCompatible (''^'' @ targetVersion t) peer"
  let ?w0 = "traced (ReadFile (packageJsonPath t)) w"
  let ?names = "map fst (allDeps pj)"
  obtain cs w1 where f: "fold (peerCheck t) ?names ([], ?w0) = (cs, w1)"
    by (cases "fold (peerCheck t) ?names ([], ?w0)")
  have nm: "nodeModules ?w0 pkg = Some (PeerParsed (Some peer))" using a by (simp add: traced_def)
  have mem: "pkg \<in> set ?names" using a keys_allDeps [of pj] by simp
  have hit: "conflictLine pkg peer (''^'' @ targetVersion t) \<in> set cs"
    using fold_peerCheck_hit [of pkg peer t ?names ?w0 "[]"] a mem nm f by simp
  then have ne: "cs \<noteq> []" by auto
  have fr: "npmInstallError w1 = npmInstallError w"
    using fold_peerCheck_frame [of t ?names "[]" ?w0] f by (simp add: traced_def)
  have ap: "analyzePeerDependencies pj t ?w0 =
      (t\<lparr>issues := issues t @ [''Peer dependency conflicts detected:''] @
                     map (\<lambda>conflict. ''  - '' @ conflict) cs\<rparr>, w1)"
    using f ne by (simp add: analyzePeerDependencies_def)
  have line: "''  - '' @ conflictLine pkg peer (''^'' @ targetVersion t) \<in>
      set (issues t @ [''Peer dependency conflicts detected:''] @
                     map (\<lambda>conflict. ''  - '' @ conflict) cs)"
    using hit by auto
  have cl: "''  - '' @ conflictLine pkg peer (''^'' @ targetVersion t) =
      ''  - '' @ pkg @ '' requires React '' @ peer @ '' but we'' @ [SQ] @
         ''re upgrading to ^'' @ targetVersion t"
    by (simp add: conflictLine_def)
  show "(''  - '' @ pkg @ '' requires React '' @ peer @ '' but we'' @ [SQ] @
         ''re upgrading to ^'' @ targetVersion t)
        \<in> set (issues (fst (snd (updateDependenciesExt t w))))"
    using a ap line unfolding cl
    by (cases "npmInstallError w")
       (auto simp: updateDependenciesExt_def Let_def pushFix_def pushIssue_def traced_def fr)
  show "fst (updateDependenciesExt t w) = None"
    using a ap
    by (cases "npmInstallError w")
       (auto simp: updateDependenciesExt_def Let_def pushFix_def pushIssue_def traced_def fr)
  show "packageJsonFile (snd (snd (updateDependenciesExt t w))) =
           Some (Parsed (updatedManifest (targetVersion t) pj))" if "\<not> dryRun (options t)"
    using a ap that
    by (cases "npmInstallError w")
       (auto simp: updateDependenciesExt_def Let_def pushFix_def pushIssue_def traced_def fr)
qed

definition peerManifest :: packageJson where
  "peerManifest =
     \<lparr>dependencies = Some [(''react'', ''^16.14.0''), (''react-dom'', ''^16.14.0''),
                           (''react-redux'', ''^7.2.0'')],
      devDependencies = None\<rparr>"

definition peerWorld :: world where
  "peerWorld =
     \<lparr>packageJsonFile = Some (Parsed peerManifest),
      srcDir = None, sources = Map.empty,
      tsconfigFile = None, jestConfigFile = None, eslintConfigFile = None,
      babelConfigExists = False, webpackConfigExists = False,
      nodeModules = [''react-redux'' \<mapsto> PeerParsed (Some ''^16.8.3 || ^17'')],
      npmInstallError = None, trace = []\<rparr>"

definition peerTool :: tool where
  "peerTool = (newTool ''/app'')\<lparr>targetVersion := ''18'', projectRoot := ''/app''\<rparr>"

lemmas parse_defs =
  isVersionCompatible_def strictEq_def majorOf_def matchHere_Cls parseInt_def isSpace_def
  radixDigit_def digitOf_def digitsValue_def toDouble_def Let_def

theorem peer_compatibility_check_witness:
  "isVersionCompatible ''^18'' ''~18.2.0'' \<and>
   majorOf ''^18.2.0'' = Finite 18 \<and>
   majorOf ''^'' = Finite 0 \<and>
   majorOf ''latest'' = NaN \<and> \<not> isVersionCompatible ''^18'' ''latest'' \<and>
   (''  - react-redux requires React ^16.8.3 || ^17 but we'' @ [SQ] @ ''re upgrading to ^18'')
      \<in> set (issues (fst (snd (updateDependenciesExt peerTool peerWorld)))) \<and>
   fst (updateDependenciesExt peerTool peerWorld) = None \<and>
   packageJsonFile (snd (snd (updateDependenciesExt peerTool peerWorld))) =
     Some (Parsed (updatedManifest ''18'' peerManifest))"
proof -
  note T = peer_compatibility_check [where ?v1.0 = "''^18''" and ?v2.0 = "''~18.2.0''"
      and p = "''^''" and ds = "''18''" and rest = "''.2.0''" and q = "''^''" and ?tl0.0 = "[]"
      and r = "[]" and c = "CHR ''l''" and ?tl1.0 = "''atest''" and w = peerWorld
      and pj = peerManifest and pkg = "''react-redux''" and peer = "''^16.8.3 || ^17''"
      and t = peerTool]
  note T1 = T [THEN conjunct1]
  note T2 = T [THEN conjunct2, THEN conjunct1]
  note T3 = T [THEN conjunct2, THEN conjunct2, THEN conjunct1]
  note T4 = T [THEN conjunct2, THEN conjunct2, THEN conjunct2, THEN conjunct1]
  note T5 = T [THEN conjunct2, THEN conjunct2, THEN conjunct2, THEN conjunct2]
  have m1: "majorOf ''^18'' = Finite 18" by (simp add: parse_defs)
  have m2: "majorOf ''~18.2.0'' = Finite 18" by (simp add: parse_defs)
  have c1: "isVersionCompatible ''^18'' ''~18.2.0''" using T1 m1 m2 by simp
  have h2: "(''^'' = [] \<or> ''^'' = ''^'' \<or> ''^'' = ''~'') \<and> ''18'' \<noteq> [] \<and>
      (\<forall>c \<in> set ''18''. radixDigit 10 c \<noteq> None) \<and> digitsValue 10 ''18'' < 2 ^ 53 \<and>
      (''.2.0'' = [] \<or> (radixDigit 10 (hd ''.2.0'') = None \<and> hd ''.2.0'' \<notin> set ''^~xX''))"
    by (simp add: parse_defs)
  have dv: "digitsValue 10 ''18'' = 18" by (simp add: parse_defs)
  have "majorOf (''^'' @ ''18'' @ ''.2.0'') = Finite (int (digitsValue 10 ''18''))"
    using T2 h2 by (rule mp)
  then have c2: "majorOf ''^18.2.0'' = Finite 18" using dv by simp
  have h3: "(''^'' = [] \<or> ''^'' = ''^'' \<or> ''^'' = ''~'') \<and> ([] = [] \<or> hd [] = CHR ''.'')"
    by simp
  have "majorOf (''^'' @ []) = Finite 0" using T3 h3 by (rule mp)
  then have c3: "majorOf ''^'' = Finite 0" by simp
  have h4: "([] = [] \<or> [] = ''^'' \<or> [] = ''~'') \<and> radixDigit 10 CHR ''l'' = None \<and>
      \<not> isSpace CHR ''l'' \<and> CHR ''l'' \<notin> set ''+-.^~''"
    by (simp add: parse_defs)
  have "majorOf ([] @ CHR ''l'' # ''atest'') = NaN \<and>
      \<not> isVersionCompatible ([] @ CHR ''l'' # ''atest'') ''~18.2.0'' \<and>
      \<not> isVersionCompatible ''^18'' ([] @ CHR ''l'' # ''atest'')"
    using T4 h4 by (rule mp)
  then have c4: "majorOf ''latest'' = NaN \<and> \<not> isVersionCompatible ''^18'' ''latest''" by simp
  have tv: "targetVersion peerTool = ''18''" by (simp add: peerTool_def)
  have dr: "\<not> dryRun (options peerTool)" by (simp add: peerTool_def newTool_def)
  have nc: "\<not> isVersionCompatible ''^18'' ''^16.8.3 || ^17''" by (simp add: parse_defs)
  have h5: "packageJsonFile peerWorld = Some (Parsed peerManifest) \<and>
      ''react-redux'' \<in> keys (dependencies peerManifest) \<union> keys (devDependencies peerManifest) \<and>
      strIncludes ''react-redux'' ''react'' \<and> ''react-redux'' \<noteq> ''react'' \<and>
      ''react-redux'' \<noteq> ''react-dom'' \<and>
      nodeModules peerWorld ''react-redux'' = Some (PeerParsed (Some ''^16.8.3 || ^17'')) \<and>
      ''^16.8.3 || ^17'' \<noteq> [] \<and>
      \<not> isVersionCompatible (''^'' @ targetVersion peerTool) ''^16.8.3 || ^17''"
    unfolding tv using nc by (simp add: peerWorld_def peerManifest_def keys_simps strIncludes_Cons)
  note R = T5 [THEN mp, OF h5]
  have c5: "(''  - react-redux requires React ^16.8.3 || ^17 but we'' @ [SQ] @ ''re upgrading to ^18'')
      \<in> set (issues (fst (snd (updateDependenciesExt peerTool peerWorld))))"
    using R [THEN conjunct1] unfolding tv by simp
  have c6: "fst (updateDependenciesExt peerTool peerWorld) = None"
    using R [THEN conjunct2, THEN conjunct1] .
  have c7: "packageJsonFile (snd (snd (updateDependenciesExt peerTool peerWorld))) =
     Some (Parsed (updatedManifest ''18'' peerManifest))"
    using R [THEN conjunct2, THEN conjunct2, THEN mp, OF dr] unfolding tv .
  show ?thesis using c1 c2 c3 c4 c5 c6 c7 by blast
qed

text \<open>
  Claim C8 as the specification words it fails on the code: with a non-numeric version
  counted as major 0, \<^verbatim>\<open>*\<close> would be compatible with \<^verbatim>\<open>*\<close>, but \<^verbatim>\<open>parseInt('*')\<close>
  is \<^verbatim>\<open>NaN\<close>, which is equal to nothing.
\<close>

theorem non_numeric_versions_never_compatible:
  "specCompatible ''*'' ''*'' \<and> \<not> isVersionCompatible ''*'' ''*''"
  by (simp add: specCompatible_def specMajor_def parse_defs)

end
